(* ===== verification/Karl_Prelude.thy ===== *)
theory Karl_Prelude
  imports Main "HOL-Library.Word" "HOL-Library.AList" "HOL-Library.Char_ord"
    "HOL-Library.List_Lexorder" "HOL-Library.Multiset"
begin

text \<open>
  What the components of the model share: Go's machine integers, the clock, the parts of
  Go's standard library that several packages call (\<^verbatim>\<open>bytes.IndexByte\<close>,
  \<^verbatim>\<open>strconv.FormatInt\<close>, \<^verbatim>\<open>strconv.ParseInt\<close>, \<^verbatim>\<open>encoding/binary\<close>), and the generic
  lemmas on lists, association lists and words.

  A Go \<^verbatim>\<open>string\<close> or \<^verbatim>\<open>[]byte\<close> that carries text is a \<^typ>\<open>string\<close>: a HOL character is
  one byte. A \<^verbatim>\<open>[]byte\<close> that carries binary data is a list of \<^typ>\<open>8 word\<close>. A Go
  \<^verbatim>\<open>int\<close> is 64 bits wide; where a value can leave that range the wrap-around is written
  out with \<open>wrap64\<close>. A Go map that the code only looks up and updates is a HOL map;
  one that the code ranges over is an association list with distinct keys.
  A \<^verbatim>\<open>time.Time\<close> is the number of nanoseconds since Go's zero time, so the zero time
  is \<open>0\<close>, and a \<^verbatim>\<open>time.Duration\<close> is a number of nanoseconds; \<^verbatim>\<open>time.Now()\<close> is an argument
  of the operations that read the clock.
\<close>

unbundle bit_operations_syntax

named_theorems wf_intros \<open>preservation of well-formedness and invariants\<close>
named_theorems go_simps \<open>evaluation of the modelled parts of Go's standard library\<close>

section \<open>Machine integers and the clock\<close>

type_synonym u8 = "8 word"
type_synonym u16 = "16 word"
type_synonym u32 = "32 word"
type_synonym u64 = "64 word"
type_synonym gtime = int
type_synonym duration = int

definition IsZero :: "gtime \<Rightarrow> bool" where
  "IsZero t \<longleftrightarrow> t = 0"

abbreviation millisecond :: duration where
  "millisecond \<equiv> 1000000"

abbreviation second :: duration where
  "second \<equiv> 1000000000"

text \<open>\<^verbatim>\<open>time.Time.Unix\<close>: whole seconds since 1970, which is 62135596800 seconds after Go's zero time.\<close>

definition Unix :: "gtime \<Rightarrow> int" where
  "Unix t = t div second - 62135596800"

text \<open>\<^verbatim>\<open>time.Time.UnixNano\<close> within its range, and the constructor \<^verbatim>\<open>time.Unix\<close>.\<close>

definition UnixNano :: "gtime \<Rightarrow> int" where
  "UnixNano t = t - 62135596800 * second"

definition time_Unix :: "int \<Rightarrow> int \<Rightarrow> gtime" where
  "time_Unix sec nsec = (sec + 62135596800) * second + nsec"

lemma time_Unix_Unix: "time_Unix (Unix t) (t mod second) = t"
  by (simp add: time_Unix_def Unix_def)

text \<open>The value of a 64-bit signed computation whose exact result is \<open>x\<close>.\<close>

definition wrap64 :: "int \<Rightarrow> int" where
  "wrap64 x = (x + 2 ^ 63) mod 2 ^ 64 - 2 ^ 63"

lemma wrap64_id [simp]: "- (2 ^ 63) \<le> x \<Longrightarrow> x < 2 ^ 63 \<Longrightarrow> wrap64 x = x"
  by (simp add: wrap64_def)

lemma wrap64_range: "- (2 ^ 63) \<le> wrap64 x" "wrap64 x < 2 ^ 63"
proof -
  have "0 \<le> (x + 2 ^ 63) mod 2 ^ 64" "(x + 2 ^ 63) mod 2 ^ 64 < (2 ^ 64 :: int)"
    by simp_all
  then show "- (2 ^ 63) \<le> wrap64 x" "wrap64 x < 2 ^ 63"
    unfolding wrap64_def by simp_all
qed

lemma wrap64_overflow:
  assumes "2 ^ 63 \<le> x" and "x < 2 ^ 64 + 2 ^ 63"
  shows "wrap64 x = x - 2 ^ 64"
proof -
  have "(x + 2 ^ 63) mod 2 ^ 64 = (x + 2 ^ 63 - 2 ^ 64) mod (2 ^ 64 :: int)"
    using mod_add_self2 [of "x + 2 ^ 63 - 2 ^ 64" "2 ^ 64 :: int"]
    by (simp only: diff_add_cancel)
  also have "\<dots> = x + 2 ^ 63 - 2 ^ 64"
    using assms by (intro mod_pos_pos_trivial) simp_all
  finally show ?thesis unfolding wrap64_def by simp
qed

lemma sint_u64_range: "- (2 ^ 63) \<le> sint (w :: u64)" "sint (w :: u64) < 2 ^ 63"
  using sint_range_size [of w] by (simp_all add: word_size)

lemma sint_word_of_int_u64:
  "- (2 ^ 63) \<le> x \<Longrightarrow> x < 2 ^ 63 \<Longrightarrow> sint (word_of_int x :: u64) = x"
  by (simp add: sint_sbintrunc' signed_take_bit_int_eq_self)

lemma minus_mod_pos: "0 < u \<Longrightarrow> u < M \<Longrightarrow> (- u) mod M = M - (u :: int)"
  by (simp add: zmod_zminus1_eq_if)

lemma unat_uminus:
  assumes "x \<noteq> (0 :: 'a :: len word)"
  shows "unat (- x) = 2 ^ LENGTH('a) - unat x"
proof -
  have "uint x \<noteq> 0" using assms by (simp add: unsigned_eq_0_iff)
  then have "0 < uint x" using uint_ge_0 [of x] by linarith
  then have "uint (- x) = 2 ^ LENGTH('a) - uint x"
    unfolding uint_word_ariths using uint_lt2p [of x] by (rule minus_mod_pos)
  then have "int (unat (- x)) = 2 ^ LENGTH('a) - int (unat x)" unfolding uint_nat .
  moreover have "unat x < 2 ^ LENGTH('a)" by (rule unsigned_less)
  then have "int (2 ^ LENGTH('a) - unat x) = 2 ^ LENGTH('a) - int (unat x)"
    by (subst of_nat_diff) (simp_all only: less_imp_le of_nat_power of_nat_numeral)
  ultimately show ?thesis by (simp only: flip: of_nat_eq_iff [where 'a = int])
qed

section \<open>Lists and association lists\<close>

text \<open>\<^verbatim>\<open>bytes.IndexByte\<close>: the position of the first occurrence of a byte.\<close>

fun IndexByte :: "'a list \<Rightarrow> 'a \<Rightarrow> nat option" where
  "IndexByte [] c = None"
| "IndexByte (x # xs) c = (if x = c then Some 0 else map_option Suc (IndexByte xs c))"

lemma IndexByte_append [go_simps]: "c \<notin> set xs \<Longrightarrow> IndexByte (xs @ c # ys) c = Some (length xs)"
  by (induction xs) auto

lemma IndexByte_SomeD:
  "IndexByte xs c = Some i \<Longrightarrow> i < length xs \<and> xs ! i = c \<and> c \<notin> set (take i xs)"
proof (induction xs arbitrary: i)
  case (Cons x xs)
  then show ?case by (cases i) (auto split: if_splits)
qed simp

lemma IndexByte_None_iff: "IndexByte xs c = None \<longleftrightarrow> c \<notin> set xs"
  by (induction xs) auto

lemma IndexByte_Some_split:
  "IndexByte xs c = Some i \<Longrightarrow> \<exists>ys zs. xs = ys @ c # zs \<and> c \<notin> set ys \<and> i = length ys"
  using IndexByte_SomeD [of xs c i] id_take_nth_drop [of i xs] by fastforce

lemma append_Cons_first_eq:
  assumes "c \<notin> set ys" "c \<notin> set ys'"
  shows "ys @ c # zs = ys' @ c # zs' \<longleftrightarrow> ys = ys' \<and> zs = zs'"
proof
  assume eq: "ys @ c # zs = ys' @ c # zs'"
  then have "length ys = length ys'"
    using IndexByte_append [OF assms(1), of zs] IndexByte_append [OF assms(2), of zs'] by simp
  with eq show "ys = ys' \<and> zs = zs'" by simp
qed simp

lemma drop_eq_Cons_nth: "i < length xs \<Longrightarrow> drop i xs = xs ! i # drop (Suc i) xs"
  by (rule Cons_nth_drop_Suc [symmetric])

lemma map_of_size_less:
  assumes "map_of d k = Some v"
  shows "f v < Suc (size_list (size_prod (\<lambda>_. 0) f) d)"
proof -
  from assms have "(k, v) \<in> set d" by (rule map_of_SomeD)
  then show ?thesis by (induction d) auto
qed

lemma map_of_eq_distinct_sorted:
  assumes "map_of xs = map_of ys" "distinct (map fst xs)" "distinct (map fst ys)"
  shows "sort (map fst xs) = (sort (map fst ys) :: 'a :: linorder list)"
proof -
  have "set (map fst xs) = set (map fst ys)"
    using assms(1) by (metis dom_map_of_conv_image_fst list.set_map)
  then show ?thesis using assms(2,3)
    by (metis sorted_list_of_set_sort_remdups distinct_remdups_id)
qed

lemma map_fst_sort_key: "map fst (sort_key fst d) = sort (map fst (d :: ('a :: linorder \<times> 'b) list))"
  by (rule properties_for_sort [symmetric]) (simp_all add: mset_map)

lemma alist_eq_map_lookup:
  "distinct (map fst d) \<Longrightarrow> d = map (\<lambda>k. (k, the (map_of d k))) (map fst d)"
  by (auto intro!: map_idI [symmetric] simp: comp_def)

lemma map_of_sort_key:
  fixes d :: "('a :: linorder \<times> 'b) list"
  assumes "distinct (map fst d)"
  shows "map_of (sort_key fst d) = map_of d"
proof -
  have "distinct (map fst (sort_key fst d))" using assms by (simp add: map_fst_sort_key)
  then show ?thesis
    using assms by (intro map_of_eqI) (auto simp: map_of_eq_Some_iff dest: map_of_SomeD)
qed

text \<open>Sorting an association list by key is sorting its keys and looking each one up.\<close>

lemma sort_key_fst_conv:
  fixes d :: "('a :: linorder \<times> 'b) list"
  assumes "distinct (map fst d)"
  shows "sort_key fst d = map (\<lambda>k. (k, the (map_of d k))) (sort (map fst d))"
proof -
  have d': "distinct (map fst (sort_key fst d))"
    using assms by (simp add: map_fst_sort_key)
  show ?thesis
    using alist_eq_map_lookup [OF d'] by (simp add: map_fst_sort_key map_of_sort_key [OF assms])
qed

lemma sort_key_fst_map_prod:
  fixes d :: "('a :: linorder \<times> 'b) list"
  assumes "distinct (map fst d)"
  shows "sort_key fst (map (map_prod id f) d) = map (\<lambda>k. (k, f (the (map_of d k)))) (sort (map fst d))"
proof -
  have "the (map_of (map (map_prod id f) d) k) = f (the (map_of d k))" if "k \<in> fst ` set d" for k
  proof -
    from that obtain v where "map_of d k = Some v" by (metis map_of_eq_None_iff not_None_eq)
    moreover have "map_of (map (map_prod id f) d) k = map_option f (map_of d k)"
      by (induction d) auto
    ultimately show ?thesis by simp
  qed
  moreover have "map fst (map (map_prod id f) d) = map fst d" by simp
  ultimately show ?thesis
    using sort_key_fst_conv [of "map (map_prod id f) d"] assms
    by (simp add: comp_def del: map_map cong: map_cong)
qed

lemma map_of_sort_key_map_prod:
  fixes d :: "('a :: linorder \<times> 'b) list"
  assumes "distinct (map fst d)"
  shows "map_of (sort_key fst (map (map_prod id f) d)) k = map_option f (map_of d k)"
proof -
  have "map_of (sort_key fst (map (map_prod id f) d)) = map_of (map (map_prod id f) d)"
    using assms by (intro map_of_sort_key) simp
  moreover have "map_of (map (map_prod id f) d) k = map_option f (map_of d k)"
    by (induction d) auto
  ultimately show ?thesis by simp
qed

lemma AList_update_fresh: "k \<notin> fst ` set d \<Longrightarrow> AList.update k v d = d @ [(k, v)]"
  by (induction d) auto

section \<open>Decimal integers: \<^verbatim>\<open>strconv\<close>\<close>

definition digit_char :: "nat \<Rightarrow> char" where
  "digit_char d = char_of (48 + d)"

definition is_digit :: "char \<Rightarrow> bool" where
  "is_digit c \<longleftrightarrow> CHR ''0'' \<le> c \<and> c \<le> CHR ''9''"

definition digit_val :: "char \<Rightarrow> int" where
  "digit_val c = int (of_char c) - 48"

fun show_nat :: "nat \<Rightarrow> string" where
  "show_nat n = (if n < 10 then [digit_char n] else show_nat (n div 10) @ [digit_char (n mod 10)])"

declare show_nat.simps [simp del]

text \<open>\<^verbatim>\<open>strconv.FormatInt(i, 10)\<close> and \<^verbatim>\<open>strconv.Itoa\<close>.\<close>

definition FormatInt :: "int \<Rightarrow> string" where
  "FormatInt i = (if i < 0 then CHR ''-'' # show_nat (nat (- i)) else show_nat (nat i))"

abbreviation Itoa :: "nat \<Rightarrow> string" where
  "Itoa n \<equiv> show_nat n"

definition digits_val :: "string \<Rightarrow> int" where
  "digits_val s = foldl (\<lambda>v c. 10 * v + digit_val c) 0 s"

text \<open>
  \<^verbatim>\<open>strconv.ParseInt(s, 10, 64)\<close> and \<^verbatim>\<open>strconv.Atoi\<close>: an optional sign, at least one
  decimal digit, nothing else, and a value in the 64-bit range; \<open>None\<close> is the error.
\<close>

definition ParseInt :: "string \<Rightarrow> int option" where
  "ParseInt s =
     (let (neg, ds) = (case s of [] \<Rightarrow> (False, [])
                       | c # cs \<Rightarrow> if c = CHR ''-'' then (True, cs)
                                   else if c = CHR ''+'' then (False, cs)
                                   else (False, s))
      in if ds = [] \<or> \<not> list_all is_digit ds then None
         else let n = digits_val ds in
           if neg then (if n \<le> 2 ^ 63 then Some (- n) else None)
           else (if n < 2 ^ 63 then Some n else None))"

lemma is_digit_iff: "is_digit c \<longleftrightarrow> 48 \<le> (of_char c :: nat) \<and> (of_char c :: nat) \<le> 57"
  by (simp add: is_digit_def less_eq_char_def)

lemma is_digit_digit_char [simp]: "d < 10 \<Longrightarrow> is_digit (digit_char d)"
  by (simp add: is_digit_iff digit_char_def of_char_of)

lemma digit_val_digit_char [simp]: "d < 10 \<Longrightarrow> digit_val (digit_char d) = int d"
  by (simp add: digit_val_def digit_char_def of_char_of)

lemma not_is_digit [simp]:
  "\<not> is_digit (CHR ''-'')" "\<not> is_digit (CHR ''+'')" "\<not> is_digit (CHR '':'')"
  "\<not> is_digit (CHR ''e'')" "\<not> is_digit (CHR ''i'')" "\<not> is_digit (CHR ''l'')"
  "\<not> is_digit (CHR ''d'')"
  by (simp_all add: is_digit_iff)

lemma show_nat_digits: "list_all is_digit (show_nat n)"
proof (induction n rule: show_nat.induct)
  case (1 n)
  then show ?case by (subst show_nat.simps) simp
qed

lemma show_nat_nonempty [simp]: "show_nat n \<noteq> []"
  by (subst show_nat.simps) simp

lemma digits_val_append: "digits_val (xs @ [c]) = 10 * digits_val xs + digit_val c"
  by (simp add: digits_val_def)

lemma digits_val_nonneg: "list_all is_digit ds \<Longrightarrow> 0 \<le> digits_val ds"
proof (induction ds rule: rev_induct)
  case (snoc c ds)
  then show ?case by (simp add: digits_val_append is_digit_iff digit_val_def)
qed (simp add: digits_val_def)

lemma digits_val_show_nat [simp]: "digits_val (show_nat n) = int n"
proof (induction n rule: show_nat.induct)
  case (1 n)
  show ?case
  proof (cases "n < 10")
    case True
    then show ?thesis by (simp add: show_nat.simps [of n] digits_val_def)
  next
    case False
    with "1.IH" show ?thesis by (simp add: show_nat.simps [of n] digits_val_append zdiv_int zmod_int)
  qed
qed

lemma length_show_nat: "length (show_nat n) \<le> Suc n"
proof (induction n rule: show_nat.induct)
  case (1 n)
  show ?case
  proof (cases "n < 10")
    case False
    then have "length (show_nat n) = Suc (length (show_nat (n div 10)))"
      by (simp add: show_nat.simps [of n])
    also have "\<dots> \<le> Suc (Suc (n div 10))" using "1.IH" [OF False] by simp
    also have "\<dots> \<le> Suc n" using False by simp
    finally show ?thesis .
  qed (simp add: show_nat.simps [of n])
qed

lemma show_nat_hd_digit: "is_digit (hd (show_nat n))"
  using show_nat_digits [of n] by (cases "show_nat n") auto

lemma not_in_show_nat: "\<not> is_digit c \<Longrightarrow> c \<notin> set (show_nat n)"
  using show_nat_digits [of n] by (auto simp: list_all_iff)

lemma FormatInt_nonempty [simp]: "FormatInt i \<noteq> []"
  by (simp add: FormatInt_def)

lemma not_in_FormatInt: "\<not> is_digit c \<Longrightarrow> c \<noteq> CHR ''-'' \<Longrightarrow> c \<notin> set (FormatInt i)"
  by (simp add: FormatInt_def not_in_show_nat)

lemma ParseInt_show_nat [go_simps]:
  assumes "int n < 2 ^ 63"
  shows "ParseInt (show_nat n) = Some (int n)"
proof -
  obtain c cs where s: "show_nat n = c # cs" by (cases "show_nat n") auto
  have "is_digit c" using show_nat_hd_digit [of n] s by simp
  then have "c \<noteq> CHR ''-''" "c \<noteq> CHR ''+''" by auto
  moreover have "list_all is_digit (c # cs)" "digits_val (c # cs) = int n"
    using show_nat_digits [of n] digits_val_show_nat [of n] s by simp_all
  ultimately show ?thesis using assms by (simp add: ParseInt_def s)
qed

lemma ParseInt_FormatInt [go_simps]:
  assumes "- (2 ^ 63) \<le> i" "i < 2 ^ 63"
  shows "ParseInt (FormatInt i) = Some i"
proof (cases "i < 0")
  case True
  with assms show ?thesis
    by (simp add: FormatInt_def ParseInt_def show_nat_digits)
next
  case False
  with assms show ?thesis by (simp add: FormatInt_def ParseInt_show_nat)
qed

lemma ParseInt_range:
  "ParseInt s = Some i \<Longrightarrow> - (2 ^ 63) \<le> i \<and> i < 2 ^ 63"
  by (auto simp: ParseInt_def Let_def split: list.splits if_splits simp del: list.pred_inject
      dest!: digits_val_nonneg)

section \<open>Errors as values, and big-endian fields\<close>

text \<open>Sequencing of fallible steps: the first error ends the computation.\<close>

definition bindE :: "'e + 'a \<Rightarrow> ('a \<Rightarrow> 'e + 'b) \<Rightarrow> 'e + 'b" where
  "bindE x f = (case x of Inl e \<Rightarrow> Inl e | Inr a \<Rightarrow> f a)"

lemma bindE_simps [simp]: "bindE (Inl e) f = Inl e" "bindE (Inr a) f = f a"
  by (simp_all add: bindE_def)

text \<open>\<^verbatim>\<open>binary.BigEndian\<close>: the bytes of a word, and the word at the head of a slice.\<close>

definition be16 :: "u16 \<Rightarrow> u8 list" where
  "be16 w = [ucast (drop_bit 8 w), ucast w]"

definition be32 :: "u32 \<Rightarrow> u8 list" where
  "be32 w = [ucast (drop_bit 24 w), ucast (drop_bit 16 w), ucast (drop_bit 8 w), ucast w]"

fun get16 :: "u8 list \<Rightarrow> u16 option" where
  "get16 (a # b # _) = Some (push_bit 8 (ucast a) OR ucast b)"
| "get16 _ = None"

fun get32 :: "u8 list \<Rightarrow> u32 option" where
  "get32 (a # b # c # d # _) =
     Some (push_bit 24 (ucast a) OR push_bit 16 (ucast b) OR push_bit 8 (ucast c) OR ucast d)"
| "get32 _ = None"

lemma length_be [simp]: "length (be16 w) = 2" "length (be32 v) = 4"
  by (simp_all add: be16_def be32_def)

lemma get16_be16 [go_simps]: "get16 (be16 w @ xs) = Some w"
proof -
  have "push_bit 8 (ucast (ucast (drop_bit 8 w) :: u8)) OR ucast (ucast w :: u8) = w"
    by (rule bit_word_eqI) (auto simp: bit_simps not_less)
  then show ?thesis by (simp add: be16_def)
qed

lemma get32_be32 [go_simps]: "get32 (be32 w @ xs) = Some w"
proof -
  let ?v = "push_bit 24 (ucast (ucast (drop_bit 24 w) :: u8)) OR push_bit 16 (ucast (ucast (drop_bit 16 w) :: u8))
      OR push_bit 8 (ucast (ucast (drop_bit 8 w) :: u8)) OR ucast (ucast w :: u8) :: u32"
  have "?v = w"
  proof (rule bit_word_eqI)
    fix n
    assume n: "n < LENGTH(32)"
    consider "24 \<le> n" | "16 \<le> n" "n < 24" | "8 \<le> n" "n < 16" | "n < 8" by linarith
    then show "bit ?v n = bit w n" using n by cases (auto simp: bit_simps)
  qed
  then show ?thesis by (simp add: be32_def)
qed

lemma get16_Some: "2 \<le> length xs \<Longrightarrow> \<exists>w. get16 xs = Some w"
  by (cases xs rule: get16.cases) auto

lemma get32_Some: "4 \<le> length xs \<Longrightarrow> \<exists>w. get32 xs = Some w"
  by (cases xs rule: get32.cases) auto

end
