(* ===== verification/Bencode.thy ===== *)
theory Bencode
  imports Karl_Prelude
begin

text \<open>
  The bencode codec of the NG control protocol, \<^verbatim>\<open>internal/ng_protocol/bencode.go\<close>.
  Every message the SIP proxy sends and every reply is one bencoded dictionary.

  \<^item> \<open>go_value\<close> is the universe of Go's \<^verbatim>\<open>interface{}\<close> values that the encoder's type switch
    tells apart; \<open>'f\<close> stands for the floating point numbers, which the encoder only
    formats, through the argument \<open>fmt\<close> (\<^verbatim>\<open>strconv.FormatFloat(x, 'f', -1, bits)\<close>).
    \<open>GOther\<close> is a value of any type the switch does not name.
  \<^item> The encoder appends to a buffer, as \<^verbatim>\<open>e.buf\<close> does.
  \<^item> The decoder works on the data and a position and returns the value and the next
    position. No caller reads the position after an error, so errors carry none.
    \<open>Panic\<close> is a run-time panic of Go (an index or slice out of range).
\<close>

section \<open>Values and errors\<close>

datatype 'f go_value =
    GInt u64 | GInt64 u64 | GInt32 u32 | GUint u64 | GUint32 u32 | GUint64 u64
  | GFloat32 'f | GFloat64 'f | GBool bool | GString string | GBytes string
  | GList "'f go_value list" | GBencodeList "'f go_value list"
  | GMap "(string \<times> 'f go_value) list" | GBencodeDict "(string \<times> 'f go_value) list"
  | GNil | GOther

type_synonym 'f dict = "(string \<times> 'f go_value) list"

datatype bencode_error =
    ErrInvalidBencode | ErrUnexpectedEnd | ErrInvalidType | ErrNegativeLength | Panic

section \<open>The encoder\<close>

definition encodeInt :: "string \<Rightarrow> u64 \<Rightarrow> string" where
  "encodeInt buf i = buf @ ''i'' @ FormatInt (sint i) @ ''e''"

definition encodeString :: "string \<Rightarrow> string \<Rightarrow> string" where
  "encodeString buf s = buf @ Itoa (length s) @ '':'' @ s"

definition encodeBytes :: "string \<Rightarrow> string \<Rightarrow> string" where
  "encodeBytes buf b = buf @ Itoa (length b) @ '':'' @ b"

text \<open>
  \<open>encodeItems\<close> and \<open>encodeEntries\<close> are the loops of \<^verbatim>\<open>encodeList\<close> and \<^verbatim>\<open>encodeDict\<close>; the
  second runs over the sorted keys and looks each one up in the dictionary.
\<close>

function encode :: "('f \<Rightarrow> nat \<Rightarrow> string) \<Rightarrow> string \<Rightarrow> 'f go_value \<Rightarrow> bencode_error + string"
  and encodeList :: "('f \<Rightarrow> nat \<Rightarrow> string) \<Rightarrow> string \<Rightarrow> 'f go_value list \<Rightarrow> bencode_error + string"
  and encodeItems :: "('f \<Rightarrow> nat \<Rightarrow> string) \<Rightarrow> string \<Rightarrow> 'f go_value list \<Rightarrow> bencode_error + string"
  and encodeDict :: "('f \<Rightarrow> nat \<Rightarrow> string) \<Rightarrow> string \<Rightarrow> 'f dict \<Rightarrow> bencode_error + string"
  and encodeEntries ::
    "('f \<Rightarrow> nat \<Rightarrow> string) \<Rightarrow> string \<Rightarrow> 'f dict \<Rightarrow> string list \<Rightarrow> bencode_error + string"
where
  "encode fmt buf (GInt w) = Inr (encodeInt buf w)"
| "encode fmt buf (GInt64 w) = Inr (encodeInt buf w)"
| "encode fmt buf (GInt32 w) = Inr (encodeInt buf (scast w))"
| "encode fmt buf (GUint w) = Inr (encodeInt buf w)"
| "encode fmt buf (GUint32 w) = Inr (encodeInt buf (ucast w))"
| "encode fmt buf (GUint64 w) = Inr (encodeInt buf w)"
| "encode fmt buf (GFloat32 x) = Inr (encodeString buf (fmt x 32))"
| "encode fmt buf (GFloat64 x) = Inr (encodeString buf (fmt x 64))"
| "encode fmt buf (GBool b) = Inr (encodeInt buf (if b then 1 else 0))"
| "encode fmt buf (GString s) = Inr (encodeString buf s)"
| "encode fmt buf (GBytes b) = Inr (encodeBytes buf b)"
| "encode fmt buf (GList vs) = encodeList fmt buf vs"
| "encode fmt buf (GBencodeList vs) = encodeList fmt buf vs"
| "encode fmt buf (GMap d) = encodeDict fmt buf d"
| "encode fmt buf (GBencodeDict d) = encodeDict fmt buf d"
| "encode fmt buf GNil = Inr (encodeString buf [])"
| "encode fmt buf GOther = Inl ErrInvalidType"
| "encodeList fmt buf vs =
     (case encodeItems fmt (buf @ ''l'') vs of
        Inl e \<Rightarrow> Inl e
      | Inr buf' \<Rightarrow> Inr (buf' @ ''e''))"
| "encodeItems fmt buf [] = Inr buf"
| "encodeItems fmt buf (v # vs) =
     (case encode fmt buf v of
        Inl e \<Rightarrow> Inl e
      | Inr buf' \<Rightarrow> encodeItems fmt buf' vs)"
| "encodeDict fmt buf d =
     (case encodeEntries fmt (buf @ ''d'') d (sort (map fst d)) of
        Inl e \<Rightarrow> Inl e
      | Inr buf' \<Rightarrow> Inr (buf' @ ''e''))"
| "encodeEntries fmt buf d [] = Inr buf"
| "encodeEntries fmt buf d (k # ks) =
     (let buf1 = encodeString buf k in
      case (case map_of d k of Some v \<Rightarrow> encode fmt buf1 v
            | None \<Rightarrow> Inr (encodeString buf1 [])) of
        Inl e \<Rightarrow> Inl e
      | Inr buf' \<Rightarrow> encodeEntries fmt buf' d ks)"
  by pat_completeness auto
termination
  by (relation "measures
       [\<lambda>x. case x of Inl (Inl (_, _, v)) \<Rightarrow> size v
                    | Inl (Inr (_, _, vs)) \<Rightarrow> size_list size vs
                    | Inr (Inl (_, _, vs)) \<Rightarrow> size_list size vs
                    | Inr (Inr (Inl (_, _, d))) \<Rightarrow> size_list (size_prod (\<lambda>_. 0) size) d
                    | Inr (Inr (Inr (_, _, d, _))) \<Rightarrow> size_list (size_prod (\<lambda>_. 0) size) d,
        \<lambda>x. case x of Inl (Inl (_, _, v)) \<Rightarrow> 0
                    | Inl (Inr (_, _, vs)) \<Rightarrow> 2 + length vs
                    | Inr (Inl (_, _, vs)) \<Rightarrow> 1 + length vs
                    | Inr (Inr (Inl (_, _, d))) \<Rightarrow> 2 + length d
                    | Inr (Inr (Inr (_, _, d, ks))) \<Rightarrow> 1 + length ks]")
    (auto dest: map_of_size_less [where f = size])

definition Encode :: "('f \<Rightarrow> nat \<Rightarrow> string) \<Rightarrow> 'f go_value \<Rightarrow> bencode_error + string" where
  "Encode fmt v = encode fmt [] v"

definition EncodeBencode :: "('f \<Rightarrow> nat \<Rightarrow> string) \<Rightarrow> 'f go_value \<Rightarrow> bencode_error + string" where
  "EncodeBencode fmt v = Encode fmt v"

section \<open>The decoder\<close>

definition decodeInt :: "string \<Rightarrow> nat \<Rightarrow> bencode_error + (u64 \<times> nat)" where
  "decodeInt data pos =
     (if length data \<le> pos then Inl Panic
      else if data ! pos \<noteq> CHR ''i'' then Inl ErrInvalidBencode
      else let pos1 = Suc pos in
        case IndexByte (drop pos1 data) (CHR ''e'') of
          None \<Rightarrow> Inl ErrUnexpectedEnd
        | Some endPos \<Rightarrow>
            (case ParseInt (take endPos (drop pos1 data)) of
               None \<Rightarrow> Inl ErrInvalidBencode
             | Some num \<Rightarrow> Inr (word_of_int num, pos1 + endPos + 1)))"

text \<open>
  The bounds check \<^verbatim>\<open>d.pos+length > len(d.data)\<close> is a 64-bit addition: with a declared length
  close to \<open>2 ^ 63\<close> the sum wraps, the check passes, and the slice expression panics.
\<close>

definition decodeString :: "string \<Rightarrow> nat \<Rightarrow> bencode_error + (string \<times> nat)" where
  "decodeString data pos =
     (case IndexByte (drop pos data) (CHR '':'') of
        None \<Rightarrow> Inl ErrUnexpectedEnd
      | Some colonPos \<Rightarrow>
          (case ParseInt (take colonPos (drop pos data)) of
             None \<Rightarrow> Inl ErrInvalidBencode
           | Some len \<Rightarrow>
               if len < 0 then Inl ErrNegativeLength
               else let pos1 = pos + colonPos + 1; high = wrap64 (int pos1 + len) in
                 if high > int (length data) then Inl ErrUnexpectedEnd
                 else if high < int pos1 then Inl Panic
                 else Inr (take (nat len) (drop pos1 data), pos1 + nat len)))"

function (domintros) decode :: "string \<Rightarrow> nat \<Rightarrow> bencode_error + ('f go_value \<times> nat)"
  and decodeList :: "string \<Rightarrow> nat \<Rightarrow> bencode_error + ('f go_value \<times> nat)"
  and decodeListItems ::
    "string \<Rightarrow> nat \<Rightarrow> 'f go_value list \<Rightarrow> bencode_error + ('f go_value \<times> nat)"
  and decodeDict :: "string \<Rightarrow> nat \<Rightarrow> bencode_error + ('f go_value \<times> nat)"
  and decodeDictEntries ::
    "string \<Rightarrow> nat \<Rightarrow> 'f dict \<Rightarrow> bencode_error + ('f go_value \<times> nat)"
where
  "decode data pos =
     (if length data \<le> pos then Inl ErrUnexpectedEnd
      else if data ! pos = CHR ''i'' then
        (case decodeInt data pos of Inl e \<Rightarrow> Inl e | Inr (n, p) \<Rightarrow> Inr (GInt64 n, p))
      else if data ! pos = CHR ''l'' then decodeList data pos
      else if data ! pos = CHR ''d'' then decodeDict data pos
      else if is_digit (data ! pos) then
        (case decodeString data pos of Inl e \<Rightarrow> Inl e | Inr (s, p) \<Rightarrow> Inr (GString s, p))
      else Inl ErrInvalidBencode)"
| "decodeList data pos =
     (if length data \<le> pos then Inl Panic
      else if data ! pos \<noteq> CHR ''l'' then Inl ErrInvalidBencode
      else decodeListItems data (Suc pos) [])"
| "decodeListItems data pos items =
     (if pos < length data \<and> data ! pos \<noteq> CHR ''e'' then
        (case decode data pos of
           Inl e \<Rightarrow> Inl e
         | Inr (item, p) \<Rightarrow> decodeListItems data p (items @ [item]))
      else if length data \<le> pos then Inl ErrUnexpectedEnd
      else Inr (GBencodeList items, Suc pos))"
| "decodeDict data pos =
     (if length data \<le> pos then Inl Panic
      else if data ! pos \<noteq> CHR ''d'' then Inl ErrInvalidBencode
      else decodeDictEntries data (Suc pos) [])"
| "decodeDictEntries data pos d =
     (if pos < length data \<and> data ! pos \<noteq> CHR ''e'' then
        (case decodeString data pos of
           Inl e \<Rightarrow> Inl e
         | Inr (key, p) \<Rightarrow>
             (case decode data p of
                Inl e \<Rightarrow> Inl e
              | Inr (v, q) \<Rightarrow> decodeDictEntries data q (AList.update key v d)))
      else if length data \<le> pos then Inl ErrUnexpectedEnd
      else Inr (GBencodeDict d, Suc pos))"
  by pat_completeness auto

lemma decodeInt_progress: "decodeInt data pos = Inr (n, p) \<Longrightarrow> pos < p"
  by (auto simp: decodeInt_def Let_def split: if_splits option.splits)

lemma decodeString_progress: "decodeString data pos = Inr (s, p) \<Longrightarrow> pos < p"
  by (auto simp: decodeString_def Let_def split: if_splits option.splits)

text \<open>
  The recursion is nested: a loop continues at the position its body returned. On the domain
  of the decoder every success moves the position forward, which gives termination.
\<close>

type_synonym 'f decoder_call =
  "(string \<times> nat + string \<times> nat) +
   (string \<times> nat \<times> 'f go_value list + string \<times> nat + string \<times> nat \<times> 'f dict)"

lemma decode_progress_dom:
  fixes v :: "'f go_value"
  shows "decode_decodeList_decodeListItems_decodeDict_decodeDictEntries_dom
           (Inl (Inl (data, pos)) :: 'f decoder_call)
         \<Longrightarrow> decode data pos = Inr (v, p) \<Longrightarrow> pos < p"
    and "decode_decodeList_decodeListItems_decodeDict_decodeDictEntries_dom
           (Inl (Inr (data, pos)) :: 'f decoder_call)
         \<Longrightarrow> decodeList data pos = Inr (v, p) \<Longrightarrow> pos < p"
    and "decode_decodeList_decodeListItems_decodeDict_decodeDictEntries_dom
           (Inr (Inl (data, pos, items)) :: 'f decoder_call)
         \<Longrightarrow> decodeListItems data pos items = Inr (v, p) \<Longrightarrow> pos < p"
    and "decode_decodeList_decodeListItems_decodeDict_decodeDictEntries_dom
           (Inr (Inr (Inl (data, pos))) :: 'f decoder_call)
         \<Longrightarrow> decodeDict data pos = Inr (v, p) \<Longrightarrow> pos < p"
    and "decode_decodeList_decodeListItems_decodeDict_decodeDictEntries_dom
           (Inr (Inr (Inr (data, pos, d))) :: 'f decoder_call)
         \<Longrightarrow> decodeDictEntries data pos d = Inr (v, p) \<Longrightarrow> pos < p"
proof (induction data pos and data pos and data pos items and data pos and data pos d
    arbitrary: v p and v p and v p and v p and v p
    rule: decode_decodeList_decodeListItems_decodeDict_decodeDictEntries.pinduct)
  case (1 data pos)
  then show ?case
    by (auto simp: decode.psimps split: if_splits sum.splits prod.splits
        dest: decodeInt_progress decodeString_progress)
next
  case (2 data pos)
  then show ?case by (auto simp: decodeList.psimps split: if_splits dest: Suc_lessD)
next
  case (3 data pos items)
  show ?case
  proof (cases "pos < length data \<and> data ! pos \<noteq> CHR ''e''")
    case True
    with "3.prems" "3.hyps" obtain item q where d: "decode data pos = Inr (item, q)"
      and l: "decodeListItems data q (items @ [item]) = Inr (v, p)"
      by (auto simp: decodeListItems.psimps split: sum.splits)
    show ?thesis
      using "3.IH"(1) [OF True d] "3.IH"(2) [OF True d refl l] by simp
  next
    case False
    with "3.prems" "3.hyps" show ?thesis by (auto simp: decodeListItems.psimps split: if_splits)
  qed
next
  case (4 data pos)
  then show ?case by (auto simp: decodeDict.psimps split: if_splits dest: Suc_lessD)
next
  case (5 data pos d)
  show ?case
  proof (cases "pos < length data \<and> data ! pos \<noteq> CHR ''e''")
    case True
    with "5.prems" "5.hyps" obtain key q w r where k: "decodeString data pos = Inr (key, q)"
      and d: "decode data q = Inr (w, r)"
      and l: "decodeDictEntries data r (AList.update key w d) = Inr (v, p)"
      by (auto simp: decodeDictEntries.psimps split: sum.splits)
    show ?thesis
      using decodeString_progress [OF k] "5.IH"(1) [OF True k refl d]
        "5.IH"(2) [OF True k refl d refl l] by simp
  next
    case False
    with "5.prems" "5.hyps" show ?thesis by (auto simp: decodeDictEntries.psimps split: if_splits)
  qed
qed

termination decode
  by (relation "measures
       [\<lambda>x. case x of Inl (Inl (data, pos)) \<Rightarrow> length data - pos
                    | Inl (Inr (data, pos)) \<Rightarrow> length data - pos
                    | Inr (Inl (data, pos, _)) \<Rightarrow> length data - pos
                    | Inr (Inr (Inl (data, pos))) \<Rightarrow> length data - pos
                    | Inr (Inr (Inr (data, pos, _))) \<Rightarrow> length data - pos,
        \<lambda>x. case x of Inl (Inl _) \<Rightarrow> 2
                    | Inl (Inr _) \<Rightarrow> 1
                    | Inr (Inl _) \<Rightarrow> 3
                    | Inr (Inr (Inl _)) \<Rightarrow> 1
                    | Inr (Inr (Inr _)) \<Rightarrow> 3]")
    (auto dest!: decode_progress_dom decodeString_progress)

definition Decode :: "string \<Rightarrow> bencode_error + ('f go_value \<times> nat)" where
  "Decode data = decode data 0"

definition Remaining :: "string \<Rightarrow> nat \<Rightarrow> string" where
  "Remaining data pos = (if length data \<le> pos then [] else drop pos data)"

definition DecodeBencode :: "string \<Rightarrow> bencode_error + 'f go_value" where
  "DecodeBencode data = (case Decode data of Inl e \<Rightarrow> Inl e | Inr (v, _) \<Rightarrow> Inr v)"

declare decode.simps [simp del] decodeList.simps [simp del] decodeListItems.simps [simp del]
  decodeDict.simps [simp del] decodeDictEntries.simps [simp del]

section \<open>Type assertions on decoded values\<close>

text \<open>The second component of the results is Go's \<^verbatim>\<open>ok\<close>; \<^verbatim>\<open>nil\<close> lists and maps are \<open>None\<close>.\<close>

definition GetString :: "'f go_value \<Rightarrow> string \<times> bool" where
  "GetString v = (case v of GString s \<Rightarrow> (s, True) | _ \<Rightarrow> ([], False))"

definition GetInt :: "'f go_value \<Rightarrow> u64 \<times> bool" where
  "GetInt v = (case v of GInt64 i \<Rightarrow> (i, True) | _ \<Rightarrow> (0, False))"

definition GetDict :: "'f go_value \<Rightarrow> 'f dict option \<times> bool" where
  "GetDict v = (case v of GBencodeDict d \<Rightarrow> (Some d, True) | _ \<Rightarrow> (None, False))"

definition GetList :: "'f go_value \<Rightarrow> 'f go_value list option \<times> bool" where
  "GetList v = (case v of GBencodeList l \<Rightarrow> (Some l, True) | _ \<Rightarrow> (None, False))"

definition DictGetString :: "'f dict \<Rightarrow> string \<Rightarrow> string" where
  "DictGetString d key = (case map_of d key of Some (GString s) \<Rightarrow> s | _ \<Rightarrow> [])"

definition DictGetInt :: "'f dict \<Rightarrow> string \<Rightarrow> u64" where
  "DictGetInt d key = (case map_of d key of Some (GInt64 i) \<Rightarrow> i | _ \<Rightarrow> 0)"

definition DictGetBool :: "'f dict \<Rightarrow> string \<Rightarrow> bool" where
  "DictGetBool d key =
     (case map_of d key of
        Some (GString s) \<Rightarrow> s \<noteq> [] \<and> s \<noteq> ''0'' \<and> s \<noteq> ''false'' \<and> s \<noteq> ''no''
      | Some (GInt64 i) \<Rightarrow> i \<noteq> 0
      | _ \<Rightarrow> False)"

definition DictGetDict :: "'f dict \<Rightarrow> string \<Rightarrow> 'f dict option" where
  "DictGetDict d key = (case map_of d key of Some (GBencodeDict e) \<Rightarrow> Some e | _ \<Rightarrow> None)"

definition DictGetList :: "'f dict \<Rightarrow> string \<Rightarrow> 'f go_value list option" where
  "DictGetList d key = (case map_of d key of Some (GBencodeList l) \<Rightarrow> Some l | _ \<Rightarrow> None)"

fun strings_of :: "'f go_value list \<Rightarrow> string list" where
  "strings_of [] = []"
| "strings_of (GString s # vs) = s # strings_of vs"
| "strings_of (_ # vs) = strings_of vs"

definition DictGetStringList :: "'f dict \<Rightarrow> string \<Rightarrow> string list option" where
  "DictGetStringList d key = map_option strings_of (DictGetList d key)"

section \<open>Reference serialisation\<close>

text \<open>
  What a bencoded value looks like, without buffers, errors or key lookups: \<open>ser\<close> is the
  wire form, \<open>decoded\<close> the value a decoder sees for it. Integers of every width become
  \<^verbatim>\<open>int64\<close>, floats, byte slices and \<^verbatim>\<open>nil\<close> become strings, booleans become 0 and 1,
  and dictionaries are listed by ascending key.
\<close>

definition ser_string :: "string \<Rightarrow> string" where
  "ser_string s = Itoa (length s) @ '':'' @ s"

definition ser_int :: "int \<Rightarrow> string" where
  "ser_int i = ''i'' @ FormatInt i @ ''e''"

definition ser_list :: "string list \<Rightarrow> string" where
  "ser_list bs = ''l'' @ concat bs @ ''e''"

definition ser_entries :: "(string \<times> string) list \<Rightarrow> string" where
  "ser_entries kbs = concat (map (\<lambda>(k, b). ser_string k @ b) kbs)"

definition ser_dict :: "(string \<times> string) list \<Rightarrow> string" where
  "ser_dict kbs = ''d'' @ ser_entries (sort_key fst kbs) @ ''e''"

primrec ser :: "('f \<Rightarrow> nat \<Rightarrow> string) \<Rightarrow> 'f go_value \<Rightarrow> string" where
  "ser fmt (GInt w) = ser_int (sint w)"
| "ser fmt (GInt64 w) = ser_int (sint w)"
| "ser fmt (GInt32 w) = ser_int (sint w)"
| "ser fmt (GUint w) = ser_int (sint w)"
| "ser fmt (GUint32 w) = ser_int (uint w)"
| "ser fmt (GUint64 w) = ser_int (sint w)"
| "ser fmt (GFloat32 x) = ser_string (fmt x 32)"
| "ser fmt (GFloat64 x) = ser_string (fmt x 64)"
| "ser fmt (GBool b) = ser_int (if b then 1 else 0)"
| "ser fmt (GString s) = ser_string s"
| "ser fmt (GBytes b) = ser_string b"
| "ser fmt (GList vs) = ser_list (map (ser fmt) vs)"
| "ser fmt (GBencodeList vs) = ser_list (map (ser fmt) vs)"
| "ser fmt (GMap d) = ser_dict (map (map_prod id (ser fmt)) d)"
| "ser fmt (GBencodeDict d) = ser_dict (map (map_prod id (ser fmt)) d)"
| "ser fmt GNil = ser_string []"
| "ser fmt GOther = []"

primrec decoded :: "('f \<Rightarrow> nat \<Rightarrow> string) \<Rightarrow> 'f go_value \<Rightarrow> 'f go_value" where
  "decoded fmt (GInt w) = GInt64 w"
| "decoded fmt (GInt64 w) = GInt64 w"
| "decoded fmt (GInt32 w) = GInt64 (scast w)"
| "decoded fmt (GUint w) = GInt64 w"
| "decoded fmt (GUint32 w) = GInt64 (ucast w)"
| "decoded fmt (GUint64 w) = GInt64 w"
| "decoded fmt (GFloat32 x) = GString (fmt x 32)"
| "decoded fmt (GFloat64 x) = GString (fmt x 64)"
| "decoded fmt (GBool b) = GInt64 (if b then 1 else 0)"
| "decoded fmt (GString s) = GString s"
| "decoded fmt (GBytes b) = GString b"
| "decoded fmt (GList vs) = GBencodeList (map (decoded fmt) vs)"
| "decoded fmt (GBencodeList vs) = GBencodeList (map (decoded fmt) vs)"
| "decoded fmt (GMap d) = GBencodeDict (sort_key fst (map (map_prod id (decoded fmt)) d))"
| "decoded fmt (GBencodeDict d) = GBencodeDict (sort_key fst (map (map_prod id (decoded fmt)) d))"
| "decoded fmt GNil = GString []"
| "decoded fmt GOther = GOther"

text \<open>A value the encoder accepts, and a value whose association lists are maps.\<close>

primrec supported :: "'f go_value \<Rightarrow> bool" where
  "supported (GInt w) = True"
| "supported (GInt64 w) = True"
| "supported (GInt32 w) = True"
| "supported (GUint w) = True"
| "supported (GUint32 w) = True"
| "supported (GUint64 w) = True"
| "supported (GFloat32 x) = True"
| "supported (GFloat64 x) = True"
| "supported (GBool b) = True"
| "supported (GString s) = True"
| "supported (GBytes b) = True"
| "supported (GList vs) = list_all id (map supported vs)"
| "supported (GBencodeList vs) = list_all id (map supported vs)"
| "supported (GMap d) = list_all snd (map (map_prod id supported) d)"
| "supported (GBencodeDict d) = list_all snd (map (map_prod id supported) d)"
| "supported GNil = True"
| "supported GOther = False"

primrec wf_value :: "'f go_value \<Rightarrow> bool" where
  "wf_value (GInt w) = True"
| "wf_value (GInt64 w) = True"
| "wf_value (GInt32 w) = True"
| "wf_value (GUint w) = True"
| "wf_value (GUint32 w) = True"
| "wf_value (GUint64 w) = True"
| "wf_value (GFloat32 x) = True"
| "wf_value (GFloat64 x) = True"
| "wf_value (GBool b) = True"
| "wf_value (GString s) = True"
| "wf_value (GBytes b) = True"
| "wf_value (GList vs) = list_all id (map wf_value vs)"
| "wf_value (GBencodeList vs) = list_all id (map wf_value vs)"
| "wf_value (GMap d) = (distinct (map fst d) \<and> list_all snd (map (map_prod id wf_value) d))"
| "wf_value (GBencodeDict d) = (distinct (map fst d) \<and> list_all snd (map (map_prod id wf_value) d))"
| "wf_value GNil = True"
| "wf_value GOther = True"

section \<open>The encoder computes the reference serialisation\<close>

lemma list_all_snd_map_prod:
  "list_all snd (map (map_prod id P) d) \<longleftrightarrow> (\<forall>(k, v) \<in> set d. P v)"
  by (auto simp: list_all_iff)

lemma list_all_id_map: "list_all id (map P vs) \<longleftrightarrow> (\<forall>v \<in> set vs. P v)"
  by (simp add: list_all_iff)

lemma encode_atoms:
  "encodeInt buf w = buf @ ser_int (sint w)"
  "encodeString buf s = buf @ ser_string s"
  "encodeBytes buf s = buf @ ser_string s"
  by (simp_all add: encodeInt_def ser_int_def encodeString_def encodeBytes_def ser_string_def)

lemma sint_scast_u32_u64: "sint (scast (w :: u32) :: u64) = sint w"
  by (rule sint_up_scast) (simp add: is_up)

lemma sint_ucast_u32_u64: "sint (ucast (w :: u32) :: u64) = uint w"
proof -
  have "uint (ucast w :: u64) = uint w" by (rule uint_up_ucast) (simp add: is_up)
  moreover have "signed_take_bit 63 (uint w) = uint w"
    using uint_lt2p [of w]
    by (intro signed_take_bit_int_eq_self order_trans [OF _ uint_ge_0 [of w]]) simp_all
  ultimately show ?thesis by (simp add: sint_uint)
qed

lemma encode_spec:
  shows "wf_value v \<Longrightarrow> encode fmt buf v
           = (if supported v then Inr (buf @ ser fmt v) else Inl ErrInvalidType)"
    and "\<forall>v \<in> set vs. wf_value v \<Longrightarrow> encodeList fmt buf vs
           = (if \<forall>v \<in> set vs. supported v then Inr (buf @ ser_list (map (ser fmt) vs))
              else Inl ErrInvalidType)"
    and "\<forall>v \<in> set vs. wf_value v \<Longrightarrow> encodeItems fmt buf vs
           = (if \<forall>v \<in> set vs. supported v then Inr (buf @ concat (map (ser fmt) vs))
              else Inl ErrInvalidType)"
    and "distinct (map fst d) \<Longrightarrow> \<forall>(k, v) \<in> set d. wf_value v \<Longrightarrow> encodeDict fmt buf d
           = (if \<forall>(k, v) \<in> set d. supported v
              then Inr (buf @ ser fmt (GMap d)) else Inl ErrInvalidType)"
    and "distinct (map fst d) \<Longrightarrow> \<forall>(k, v) \<in> set d. wf_value v \<Longrightarrow> set ks \<subseteq> fst ` set d \<Longrightarrow>
         encodeEntries fmt buf d ks
           = (if \<forall>k \<in> set ks. supported (the (map_of d k))
              then Inr (buf @ ser_entries (map (\<lambda>k. (k, ser fmt (the (map_of d k)))) ks))
              else Inl ErrInvalidType)"
proof (induction fmt buf v and fmt buf vs and fmt buf vs and fmt buf d and fmt buf d ks
    rule: encode_encodeList_encodeItems_encodeDict_encodeEntries.induct)
  case (18 fmt buf vs)
  then show ?case by (simp add: ser_list_def)
next
  case (20 fmt buf v vs)
  then show ?case by (auto split: sum.splits)
next
  case (21 fmt buf d)
  have "supported (the (map_of d k)) \<longleftrightarrow> (\<forall>v. (k, v) \<in> set d \<longrightarrow> supported v)"
    if "k \<in> fst ` set d" for k
    using that "21.prems"(1) by (auto dest: eq_key_imp_eq_value)
  then have "(\<forall>k \<in> set (sort (map fst d)). supported (the (map_of d k)))
      \<longleftrightarrow> (\<forall>(k, v) \<in> set d. supported v)"
    by (auto simp: image_iff)
  moreover have "ser fmt (GMap d)
      = ''d'' @ ser_entries (map (\<lambda>k. (k, ser fmt (the (map_of d k)))) (sort (map fst d))) @ ''e''"
    by (simp only: ser.simps ser_dict_def sort_key_fst_map_prod [OF "21.prems"(1)])
  ultimately show ?case using 21 by (simp del: ser.simps)
next
  case (23 fmt buf d k ks)
  then obtain v where "map_of d k = Some v" by (cases "map_of d k") (auto simp: map_of_eq_None_iff)
  moreover from this "23.prems"(2) have "wf_value v" by (auto dest: map_of_SomeD)
  ultimately show ?case using 23 by (auto simp: encode_atoms ser_entries_def Let_def)
qed (simp_all add: encode_atoms list_all_snd_map_prod list_all_id_map sint_scast_u32_u64
    sint_ucast_u32_u64 ser_entries_def)

section \<open>The decoder inverts the reference serialisation\<close>

text \<open>\<open>decodes_to b v\<close>: wherever \<open>b\<close> occurs in a message, decoding at its start yields \<open>v\<close> and stops at its end.\<close>

definition decodes_to :: "string \<Rightarrow> 'f go_value \<Rightarrow> bool" where
  "decodes_to b v \<longleftrightarrow> b \<noteq> [] \<and> hd b \<noteq> CHR ''e'' \<and>
     (\<forall>pre rest. int (length (pre @ b @ rest)) < 2 ^ 63 \<longrightarrow>
        decode (pre @ b @ rest) (length pre) = Inr (v, length pre + length b))"

lemma decodes_toI:
  assumes "b \<noteq> []" "hd b \<noteq> CHR ''e''"
    and "\<And>pre rest. int (length (pre @ b @ rest)) < 2 ^ 63 \<Longrightarrow>
      decode (pre @ b @ rest) (length pre) = Inr (v, length pre + length b)"
  shows "decodes_to b v"
  using assms by (simp add: decodes_to_def)

lemma decodes_toD:
  "decodes_to b v \<Longrightarrow> int (length (pre @ b @ rest)) < 2 ^ 63 \<Longrightarrow>
     decode (pre @ b @ rest) (length pre) = Inr (v, length pre + length b)"
  by (simp add: decodes_to_def)

lemma decodes_to_nth: "decodes_to b v \<Longrightarrow> (pre @ b @ rest) ! length pre \<noteq> CHR ''e''"
  by (cases b) (auto simp: decodes_to_def nth_append)

lemma decodeString_ser:
  assumes "int (length (pre @ ser_string s @ rest)) < 2 ^ 63"
  shows "decodeString (pre @ ser_string s @ rest) (length pre)
           = Inr (s, length pre + length (ser_string s))"
proof -
  let ?c = "length (Itoa (length s))"
  have "IndexByte (Itoa (length s) @ CHR '':'' # s @ rest) (CHR '':'') = Some ?c"
    by (rule IndexByte_append) (simp add: not_in_show_nat)
  moreover have "ParseInt (Itoa (length s)) = Some (int (length s))"
    using assms by (intro ParseInt_show_nat) (simp add: ser_string_def)
  moreover have "wrap64 (int (length pre + ?c + 1) + int (length s))
      = int (length pre + ?c + 1) + int (length s)"
    using assms by (intro wrap64_id) (simp_all add: ser_string_def)
  ultimately show ?thesis by (simp add: decodeString_def ser_string_def Let_def)
qed

lemma ser_string_Cons: "\<exists>c cs. ser_string s = c # cs \<and> is_digit c"
  using show_nat_hd_digit [of "length s"]
  by (cases "Itoa (length s)") (auto simp: ser_string_def)

lemma decodes_to_string: "decodes_to (ser_string s) (GString s)"
proof -
  obtain c cs where c: "ser_string s = c # cs" "is_digit c" using ser_string_Cons by blast
  then have "c \<noteq> CHR ''e''" "c \<noteq> CHR ''i''" "c \<noteq> CHR ''l''" "c \<noteq> CHR ''d''" by auto
  with c show ?thesis
    using decodeString_ser [where s = s] by (intro decodes_toI) (simp_all add: decode.simps nth_append)
qed

lemma decodes_to_int:
  assumes "- (2 ^ 63) \<le> i" "i < 2 ^ 63"
  shows "decodes_to (ser_int i) (GInt64 (word_of_int i))"
proof (rule decodes_toI)
  fix pre rest
  have "IndexByte (FormatInt i @ CHR ''e'' # rest) (CHR ''e'') = Some (length (FormatInt i))"
    by (rule IndexByte_append) (simp add: not_in_FormatInt)
  then show "decode (pre @ ser_int i @ rest) (length pre)
      = Inr (GInt64 (word_of_int i), length pre + length (ser_int i))"
    using assms by (simp add: decode.simps decodeInt_def ser_int_def nth_append ParseInt_FormatInt)
qed (simp_all add: ser_int_def)

lemma decodeListItems_ser:
  assumes "list_all2 decodes_to bs vs"
    and "int (length (pre @ concat bs @ ''e'' @ rest)) < 2 ^ 63"
  shows "decodeListItems (pre @ concat bs @ ''e'' @ rest) (length pre) items
           = Inr (GBencodeList (items @ vs), length pre + length (concat bs) + 1)"
  using assms
proof (induction bs vs arbitrary: pre items rule: list_all2_induct)
  case Nil
  then show ?case by (simp add: decodeListItems.simps nth_append)
next
  case (Cons b bs v vs)
  let ?r = "concat bs @ ''e'' @ rest"
  have "decode (pre @ b @ ?r) (length pre) = Inr (v, length (pre @ b))"
    using decodes_toD [OF Cons.hyps(1), of pre ?r] Cons.prems by simp
  moreover have "(pre @ b @ ?r) ! length pre \<noteq> CHR ''e''"
    using Cons.hyps(1) by (rule decodes_to_nth)
  moreover have "decodeListItems ((pre @ b) @ ?r) (length (pre @ b)) (items @ [v])
      = Inr (GBencodeList ((items @ [v]) @ vs), length (pre @ b) + length (concat bs) + 1)"
    using Cons.prems by (intro Cons.IH) simp
  ultimately show ?case by (subst decodeListItems.simps) simp
qed

lemma decodes_to_list:
  assumes "list_all2 decodes_to bs vs"
  shows "decodes_to (ser_list bs) (GBencodeList vs)"
proof (rule decodes_toI)
  fix pre rest
  assume "int (length (pre @ ser_list bs @ rest)) < 2 ^ 63"
  then have "decodeListItems ((pre @ ''l'') @ concat bs @ ''e'' @ rest) (length (pre @ ''l'')) []
      = Inr (GBencodeList ([] @ vs), length (pre @ ''l'') + length (concat bs) + 1)"
    by (intro decodeListItems_ser assms) (simp add: ser_list_def)
  then show "decode (pre @ ser_list bs @ rest) (length pre)
      = Inr (GBencodeList vs, length pre + length (ser_list bs))"
    by (simp add: decode.simps decodeList.simps ser_list_def nth_append)
qed (simp_all add: ser_list_def)

definition entry_decodes_to :: "string \<times> string \<Rightarrow> string \<times> 'f go_value \<Rightarrow> bool" where
  "entry_decodes_to kb kv \<longleftrightarrow> fst kb = fst kv \<and> decodes_to (snd kb) (snd kv)"

lemma decodeDictEntries_ser:
  assumes "list_all2 entry_decodes_to kbs kvs"
    and "int (length (pre @ ser_entries kbs @ ''e'' @ rest)) < 2 ^ 63"
    and "distinct (map fst (d @ kvs))"
  shows "decodeDictEntries (pre @ ser_entries kbs @ ''e'' @ rest) (length pre) d
           = Inr (GBencodeDict (d @ kvs), length pre + length (ser_entries kbs) + 1)"
  using assms
proof (induction kbs kvs arbitrary: pre d rule: list_all2_induct)
  case Nil
  then show ?case by (simp add: decodeDictEntries.simps nth_append ser_entries_def)
next
  case (Cons kb kbs kv kvs)
  obtain k b v where kb: "kb = (k, b)" and kv: "kv = (k, v)" and b: "decodes_to b v"
    using Cons.hyps(1) by (cases kb; cases kv) (auto simp: entry_decodes_to_def)
  let ?r = "ser_entries kbs @ ''e'' @ rest" and ?p = "pre @ ser_string k"
  have split: "pre @ ser_entries (kb # kbs) @ ''e'' @ rest = pre @ ser_string k @ b @ ?r"
    by (simp add: ser_entries_def kb)
  have fits: "int (length (pre @ ser_string k @ b @ ?r)) < 2 ^ 63"
    using Cons.prems(1) unfolding split .
  have "(pre @ ser_string k @ b @ ?r) ! length pre \<noteq> CHR ''e''"
    by (rule decodes_to_nth) (rule decodes_to_string)
  moreover have "decodeString (pre @ ser_string k @ b @ ?r) (length pre) = Inr (k, length ?p)"
    using decodeString_ser [of pre k "b @ ?r"] fits by simp
  moreover have "decode (pre @ ser_string k @ b @ ?r) (length ?p) = Inr (v, length (?p @ b))"
    using decodes_toD [OF b, of ?p ?r] fits by simp
  moreover have "AList.update k v d = d @ [(k, v)]"
    using Cons.prems(2) kv by (intro AList_update_fresh) auto
  moreover have "decodeDictEntries ((?p @ b) @ ?r) (length (?p @ b)) (d @ [(k, v)])
      = Inr (GBencodeDict ((d @ [(k, v)]) @ kvs), length (?p @ b) + length (ser_entries kbs) + 1)"
    using fits Cons.prems(2) kv by (intro Cons.IH) simp_all
  ultimately show ?case unfolding split
    by (subst decodeDictEntries.simps) (simp add: kb kv ser_entries_def)
qed

lemma decodes_to_dict:
  assumes "list_all2 entry_decodes_to (sort_key fst kbs) kvs" "distinct (map fst kvs)"
  shows "decodes_to (ser_dict kbs) (GBencodeDict kvs)"
proof (rule decodes_toI)
  let ?b = "ser_entries (sort_key fst kbs)"
  fix pre rest
  assume "int (length (pre @ ser_dict kbs @ rest)) < 2 ^ 63"
  then have "decodeDictEntries ((pre @ ''d'') @ ?b @ ''e'' @ rest) (length (pre @ ''d'')) []
      = Inr (GBencodeDict ([] @ kvs), length (pre @ ''d'') + length ?b + 1)"
    using assms by (intro decodeDictEntries_ser) (simp_all add: ser_dict_def)
  then show "decode (pre @ ser_dict kbs @ rest) (length pre)
      = Inr (GBencodeDict kvs, length pre + length (ser_dict kbs))"
    by (simp add: decode.simps decodeDict.simps ser_dict_def nth_append)
qed (simp_all add: ser_dict_def)

lemma decodes_to_map:
  assumes "distinct (map fst d)" "\<And>k v. (k, v) \<in> set d \<Longrightarrow> decodes_to (f v) (g v)"
  shows "decodes_to (ser_dict (map (map_prod id f) d))
           (GBencodeDict (sort_key fst (map (map_prod id g) d)))"
proof (rule decodes_to_dict)
  have "decodes_to (f (the (map_of d k))) (g (the (map_of d k)))" if "k \<in> fst ` set d" for k
    using that assms by auto
  then show "list_all2 entry_decodes_to (sort_key fst (map (map_prod id f) d))
      (sort_key fst (map (map_prod id g) d))"
    by (auto simp: sort_key_fst_map_prod [OF assms(1)] list_all2_map1 list_all2_map2
        entry_decodes_to_def simp del: map_map intro!: list.rel_refl_strong)
  show "distinct (map fst (sort_key fst (map (map_prod id g) d)))"
    using assms(1) by (simp add: map_fst_sort_key)
qed

lemma ser_decodes_to:
  "supported v \<Longrightarrow> wf_value v \<Longrightarrow> decodes_to (ser fmt v) (decoded fmt v)"
proof (induction v)
  case (GInt32 w)
  then show ?case
    using decodes_to_int [OF sint_u64_range, of "scast w"] by (simp add: sint_scast_u32_u64)
next
  case (GUint32 w)
  then show ?case
    using decodes_to_int [OF sint_u64_range, of "ucast w"] by (simp add: sint_ucast_u32_u64)
next
  case (GBool b)
  have "decodes_to (ser_int (of_bool b)) (GInt64 (word_of_int (of_bool b)))"
    by (rule decodes_to_int) simp_all
  then show ?case by (cases b) simp_all
next
  case (GList vs)
  then show ?case
    by (auto simp: list_all_id_map list_all2_map1 list_all2_map2 intro!: decodes_to_list list.rel_refl_strong)
next
  case (GBencodeList vs)
  then show ?case
    by (auto simp: list_all_id_map list_all2_map1 list_all2_map2 intro!: decodes_to_list list.rel_refl_strong)
next
  case (GMap d)
  then show ?case
    by (simp only: supported.simps wf_value.simps ser.simps decoded.simps list_all_snd_map_prod)
      (rule decodes_to_map, simp, fastforce)
next
  case (GBencodeDict d)
  then show ?case
    by (simp only: supported.simps wf_value.simps ser.simps decoded.simps list_all_snd_map_prod)
      (rule decodes_to_map, simp, fastforce)
qed (use decodes_to_int [OF sint_u64_range] decodes_to_string in simp_all)

section \<open>What the codec promises\<close>

text \<open>
  The contract a client of the codec relies on: whatever the encoder emits for a
  well-formed value is decoded to the normal form of that value, also when bytes follow.
\<close>

locale wire_codec =
  fixes enc :: "'v \<Rightarrow> 'e + string"
    and dec :: "string \<Rightarrow> 'e + 'v"
    and norm :: "'v \<Rightarrow> 'v"
    and wf :: "'v \<Rightarrow> bool"
  assumes dec_enc: "wf v \<Longrightarrow> enc v = Inr b \<Longrightarrow> int (length (b @ rest)) < 2 ^ 63 \<Longrightarrow>
      dec (b @ rest) = Inr (norm v)"
begin

lemma dec_framed:
  assumes "wf v" "enc v = Inr b" "int (length b) < 2 ^ 63"
  shows "dec (drop (length hdr) (hdr @ b)) = Inr (norm v)"
  using dec_enc [OF assms(1,2), of "[]"] assms(3) by simp

lemma enc_prefix_free:
  assumes "wf v" "wf w" "enc v = Inr b" "enc w = Inr (b @ c)" "int (length (b @ c)) < 2 ^ 63"
  shows "norm v = norm w"
  using dec_enc [OF assms(1,3), of c] dec_enc [OF assms(2,4), of "[]"] assms(5) by simp

end

lemma EncodeBencode_spec:
  "wf_value v \<Longrightarrow> EncodeBencode fmt v = (if supported v then Inr (ser fmt v) else Inl ErrInvalidType)"
  by (simp add: EncodeBencode_def Encode_def encode_spec(1))

lemma DecodeBencode_ser:
  assumes "decodes_to b v" "int (length (b @ rest)) < 2 ^ 63"
  shows "DecodeBencode (b @ rest) = Inr v"
  using decodes_toD [OF assms(1), of "[]" rest] assms(2)
  by (simp add: DecodeBencode_def Decode_def)

interpretation bencode: wire_codec "EncodeBencode fmt" DecodeBencode "decoded fmt" wf_value
  for fmt :: "'f \<Rightarrow> nat \<Rightarrow> string"
  by unfold_locales
    (auto simp: EncodeBencode_spec split: if_splits intro!: DecodeBencode_ser ser_decodes_to)

text \<open>
  Every success of the decoder is inside the data, and what it returns is a value the
  encoder accepts, with maps that have one entry per key.
\<close>

lemma decodeInt_bound: "decodeInt data pos = Inr (n, p) \<Longrightarrow> p \<le> length data"
  by (auto simp: decodeInt_def Let_def split: if_splits option.splits dest!: IndexByte_SomeD)

lemma decodeString_bound:
  assumes "decodeString data pos = Inr (s, p)" "int (length data) < 2 ^ 63"
  shows "p \<le> length data"
proof -
  from assms(1) obtain c len where c: "IndexByte (drop pos data) (CHR '':'') = Some c"
    and len: "ParseInt (take c (drop pos data)) = Some len"
    and p: "p = pos + c + 1 + nat len" "0 \<le> len"
    and wrap: "wrap64 (int (pos + c + 1) + len) \<le> int (length data)"
      "int (pos + c + 1) \<le> wrap64 (int (pos + c + 1) + len)"
    by (auto simp: decodeString_def Let_def split: if_splits option.splits)
  have "len < 2 ^ 63" using ParseInt_range [OF len] by simp
  moreover have "pos + c + 1 \<le> length data" using IndexByte_SomeD [OF c] by auto
  ultimately have "wrap64 (int (pos + c + 1) + len) = int (pos + c + 1) + len"
  proof (cases "int (pos + c + 1) + len < 2 ^ 63")
    case False
    then have "wrap64 (int (pos + c + 1) + len) = int (pos + c + 1) + len - 2 ^ 64"
      using \<open>len < 2 ^ 63\<close> \<open>pos + c + 1 \<le> length data\<close> assms(2)
      by (intro wrap64_overflow) simp_all
    then show ?thesis using wrap \<open>len < 2 ^ 63\<close> by simp
  qed (use p(2) in simp)
  then show ?thesis using wrap(1) p by simp
qed

lemma distinct_AList_update: "distinct (map fst d) \<Longrightarrow> distinct (map fst (AList.update k v d))"
  by (rule distinct_update)

lemma AList_update_vals:
  "\<forall>(k, v) \<in> set d. P v \<Longrightarrow> P v \<Longrightarrow> \<forall>(k, v) \<in> set (AList.update k v d). P v"
  by (induction d) auto

definition good_value :: "'f go_value \<Rightarrow> bool" where
  "good_value v \<longleftrightarrow> wf_value v \<and> supported v"

lemma good_value_simps [simp]:
  "good_value (GInt64 i)" "good_value (GString s)"
  "good_value (GBencodeList vs) \<longleftrightarrow> (\<forall>v \<in> set vs. good_value v)"
  "good_value (GBencodeDict d) \<longleftrightarrow> distinct (map fst d) \<and> (\<forall>(k, v) \<in> set d. good_value v)"
  by (auto simp: good_value_def list_all_snd_map_prod list_all_id_map)

lemma decode_sound:
  fixes v :: "'f go_value"
  assumes fits: "int (length data) < 2 ^ 63"
  shows "decode data pos = Inr (v, p) \<Longrightarrow> pos < p \<and> p \<le> length data \<and> good_value v"
    and "decodeList data pos = Inr (v, p) \<Longrightarrow> pos < p \<and> p \<le> length data \<and> good_value v"
    and "decodeListItems data pos items = Inr (v, p) \<Longrightarrow> \<forall>x \<in> set items. good_value x
           \<Longrightarrow> pos < p \<and> p \<le> length data \<and> good_value v"
    and "decodeDict data pos = Inr (v, p) \<Longrightarrow> pos < p \<and> p \<le> length data \<and> good_value v"
    and "decodeDictEntries data pos d = Inr (v, p) \<Longrightarrow> distinct (map fst d)
           \<Longrightarrow> \<forall>(k, x) \<in> set d. good_value x \<Longrightarrow> pos < p \<and> p \<le> length data \<and> good_value v"
  using fits
proof (induction data pos and data pos and data pos items and data pos and data pos d
    arbitrary: v p and v p and v p and v p and v p
    rule: decode_decodeList_decodeListItems_decodeDict_decodeDictEntries.induct)
  case (1 data pos)
  then show ?case
    by (auto simp: decode.simps [of data pos] split: if_splits sum.splits prod.splits
        dest: decodeInt_bound decodeString_bound decodeInt_progress decodeString_progress)
next
  case (2 data pos)
  then show ?case by (auto simp: decodeList.simps [of data pos] split: if_splits)
next
  case (3 data pos items)
  show ?case
  proof (cases "pos < length data \<and> data ! pos \<noteq> CHR ''e''")
    case True
    with "3.prems"(1) obtain item q where d: "decode data pos = Inr (item, q)"
      and l: "decodeListItems data q (items @ [item]) = Inr (v, p)"
      by (auto simp: decodeListItems.simps [of data pos] split: sum.splits)
    have item: "pos < q" "good_value item" using "3.IH"(1) [OF True d "3.prems"(3)] by simp_all
    then have "q < p \<and> p \<le> length data \<and> good_value v"
      using "3.prems"(2) by (intro "3.IH"(2) [OF True d refl l _ "3.prems"(3)]) auto
    with item show ?thesis by simp
  next
    case False
    with "3.prems" show ?thesis by (auto simp: decodeListItems.simps [of data pos] split: if_splits)
  qed
next
  case (4 data pos)
  then show ?case by (auto simp: decodeDict.simps [of data pos] split: if_splits)
next
  case (5 data pos d)
  show ?case
  proof (cases "pos < length data \<and> data ! pos \<noteq> CHR ''e''")
    case True
    with "5.prems"(1) obtain key q w r where k: "decodeString data pos = Inr (key, q)"
      and d: "decode data q = Inr (w, r)"
      and l: "decodeDictEntries data r (AList.update key w d) = Inr (v, p)"
      by (auto simp: decodeDictEntries.simps [of data pos] split: sum.splits)
    have w: "pos < q" "q < r" "good_value w"
      using decodeString_progress [OF k] "5.IH"(1) [OF True k refl d "5.prems"(4)] by simp_all
    then have "r < p \<and> p \<le> length data \<and> good_value v"
      using "5.prems"(2,3)
      by (intro "5.IH"(2) [OF True k refl d refl l _ _ "5.prems"(4)] distinct_AList_update
          AList_update_vals)
    with w show ?thesis by simp
  next
    case False
    with "5.prems" show ?thesis by (auto simp: decodeDictEntries.simps [of data pos] split: if_splits)
  qed
qed

text \<open>The encoder only looks entries up, so the order in which a map is stored is not visible.\<close>

lemma encodeEntries_cong:
  "map_of d = map_of d' \<Longrightarrow> encodeEntries fmt buf d ks = encodeEntries fmt buf d' ks"
  by (induction ks arbitrary: buf) (auto simp: Let_def split: sum.splits option.splits)

section \<open>Properties of the codec\<close>

text \<open>C1. Round trip: whatever \<^verbatim>\<open>EncodeBencode\<close> emits for a value is read back by
  \<^verbatim>\<open>DecodeBencode\<close> as the value's normal form, even when further bytes follow.\<close>

theorem bencode_roundtrip:
  assumes "wf_value v" and "EncodeBencode fmt v = Inr b" and "int (length (b @ rest)) < 2 ^ 63"
  shows "DecodeBencode (b @ rest) = Inr (decoded fmt v)"
  by (rule bencode.dec_enc [OF assms])

theorem bencode_roundtrip_witness:
  "DecodeBencode (''d3:agei-5e4:name3:foo5:trackl0:1:xee'' @ ''!'')
     = Inr (GBencodeDict [(''age'', GInt64 (-5)), (''name'', GString ''foo''),
         (''track'', GBencodeList [GString [], GString ''x''])] :: unit go_value)"
proof -
  let ?v = "GMap [(''name'', GBytes ''foo''), (''track'', GList [GNil, GString ''x'']),
      (''age'', GInt32 (-5))] :: unit go_value"
  let ?b = "''d3:agei-5e4:name3:foo5:trackl0:1:xee''"
  have "wf_value ?v" "EncodeBencode (\<lambda>_ _. []) ?v = Inr ?b"
    "decoded (\<lambda>_ _. []) ?v = GBencodeDict [(''age'', GInt64 (-5)), (''name'', GString ''foo''),
         (''track'', GBencodeList [GString [], GString ''x''])]"
    by code_simp+
  then show ?thesis using bencode_roundtrip [of ?v "\<lambda>_ _. []" ?b "''!''"] by simp
qed

text \<open>C2. The encoder is total: it emits the reference serialisation, keys in ascending
  order, of every value built from the types its switch names, and reports
  \<^verbatim>\<open>ErrInvalidType\<close> for every other value.\<close>

theorem encode_total:
  assumes "wf_value v"
  shows "EncodeBencode fmt v = (if supported v then Inr (ser fmt v) else Inl ErrInvalidType)"
  using assms by (rule EncodeBencode_spec)

theorem encode_total_witness:
  "EncodeBencode (\<lambda>_ _. []) (GMap [(''b'', GNil), (''a'', GUint64 (-1))] :: unit go_value)
     = Inr ''d1:ai-1e1:b0:e'' \<and>
   EncodeBencode (\<lambda>_ _. []) (GList [GNil, GOther] :: unit go_value) = Inl ErrInvalidType"
proof
  have "ser (\<lambda>_ _. []) (GMap [(''b'', GNil), (''a'', GUint64 (-1))] :: unit go_value)
       = ''d1:ai-1e1:b0:e''"
    by code_simp
  then show "EncodeBencode (\<lambda>_ _. []) (GMap [(''b'', GNil), (''a'', GUint64 (-1))] :: unit go_value)
     = Inr ''d1:ai-1e1:b0:e''"
    by (subst encode_total) simp_all
  show "EncodeBencode (\<lambda>_ _. []) (GList [GNil, GOther] :: unit go_value) = Inl ErrInvalidType"
    by (subst encode_total) simp_all
qed

text \<open>The bytes a map is encoded to do not depend on Go's map iteration order: two
  listings of the same map give the same result.\<close>

lemma encode_map_order:
  assumes "map_of d = map_of d'" and "distinct (map fst d)" and "distinct (map fst d')"
  shows "EncodeBencode fmt (GMap d) = EncodeBencode fmt (GMap d')"
  using encodeEntries_cong [OF assms(1)] map_of_eq_distinct_sorted [OF assms]
  by (simp add: EncodeBencode_def Encode_def)

text \<open>A successful decode consumes at least one byte, never reads past the end of the
  data, and yields a value whose maps have one entry per key and which the encoder
  accepts again.\<close>

lemma decode_sound_value:
  assumes "decode data pos = Inr (v, p)" and "int (length data) < 2 ^ 63"
  shows "pos < p \<and> p \<le> length data \<and> wf_value v \<and> supported v"
  using decode_sound(1) [OF assms(2,1)] by (simp add: good_value_def)

text \<open>The decoder panics on a string exactly when the declared length added to the
  position of its first byte leaves the 64-bit range: the bounds check computes that sum
  with wrap-around and lets it through.\<close>

lemma decodeString_panic_iff:
  assumes "int (length data) < 2 ^ 63"
  shows "decodeString data pos = Inl Panic \<longleftrightarrow>
    (\<exists>colonPos len. IndexByte (drop pos data) (CHR '':'') = Some colonPos \<and>
       ParseInt (take colonPos (drop pos data)) = Some len \<and> 0 \<le> len \<and>
       2 ^ 63 \<le> int (pos + colonPos + 1) + len)"
proof (cases "IndexByte (drop pos data) (CHR '':'')")
  case (Some c)
  show ?thesis
  proof (cases "ParseInt (take c (drop pos data))")
    case len: (Some len)
    have b: "int (pos + c + 1) < 2 ^ 63" "len < 2 ^ 63"
      using IndexByte_SomeD [OF Some] ParseInt_range [OF len] assms by auto
    show ?thesis
    proof (cases "2 ^ 63 \<le> int (pos + c + 1) + len")
      case True
      then have "wrap64 (int (pos + c + 1) + len) = int (pos + c + 1) + len - 2 ^ 64"
        using b by (intro wrap64_overflow) simp_all
      then show ?thesis using True b by (simp add: decodeString_def Some len Let_def)
    next
      case False
      then show ?thesis by (auto simp: decodeString_def Some len Let_def)
    qed
  qed (simp add: decodeString_def Some)
qed (simp add: decodeString_def)

end
