(* ===== verification/Go_Float.thy ===== *)
theory Go_Float
  imports Complex_Main Karl_Prelude
begin

text \<open>
  Go's \<^verbatim>\<open>float64\<close> arithmetic on rationals: \<open>fl x\<close> is the IEEE 754 double nearest to \<open>x\<close>, ties
  to even, with a 53-bit significand. The exponent range is not bounded: the durations,
  rates and counters the program computes with stay far inside the normal range, and no
  infinity or NaN arises from them.
\<close>

function ilog :: "int \<Rightarrow> int" where
  "ilog n = (if n < 2 then 0 else 1 + ilog (n div 2))"
  by pat_completeness auto
termination by (relation "measure nat") auto

declare ilog.simps [simp del]

definition two_power :: "int \<Rightarrow> rat" where
  "two_power e = (if 0 \<le> e then 2 ^ nat e else 1 / 2 ^ nat (- e))"

text \<open>The largest \<open>e\<close> with \<open>2 ^ e \<le> x\<close>, for a positive rational.\<close>

definition rat_ilog :: "rat \<Rightarrow> int" where
  "rat_ilog x = (let (p, q) = quotient_of x; e = ilog p - ilog q in
     if two_power e \<le> x then e else e - 1)"

definition round_half_even :: "rat \<Rightarrow> int" where
  "round_half_even x = (let f = \<lfloor>x\<rfloor>; d = x - of_int f in
     if d < 1 / 2 then f else if 1 / 2 < d then f + 1 else if even f then f else f + 1)"

definition fl_pos :: "rat \<Rightarrow> rat" where
  "fl_pos x = (let u = two_power (rat_ilog x - 52) in of_int (round_half_even (x / u)) * u)"

definition fl :: "rat \<Rightarrow> rat" where
  "fl x = (if x = 0 then 0 else if x < 0 then - fl_pos (- x) else fl_pos x)"

text \<open>The conversion \<^verbatim>\<open>int64(x)\<close> drops the fraction.\<close>

definition trunc :: "rat \<Rightarrow> int" where
  "trunc x = (if 0 \<le> x then \<lfloor>x\<rfloor> else - \<lfloor>- x\<rfloor>)"

text \<open>\<^verbatim>\<open>time.Duration.Seconds\<close>: whole seconds plus the remaining nanoseconds over \<open>10 ^ 9\<close>,
  each step in floating point. Go's integer division truncates.\<close>

definition Seconds :: "duration \<Rightarrow> rat" where
  "Seconds d = (let sec = trunc (of_int d / 10 ^ 9); nsec = d - sec * 10 ^ 9 in
     fl (fl (of_int sec) + fl (fl (of_int nsec) / 10 ^ 9)))"

text \<open>Rounding an integer is exact, rounding is monotone, and an integer is its own truncation.\<close>

lemma round_half_even_of_int [simp]: "round_half_even (of_int n) = n"
  by (simp add: round_half_even_def)

lemma round_half_even_mono: "x \<le> y \<Longrightarrow> round_half_even x \<le> round_half_even y"
proof -
  assume le: "x \<le> y"
  then have f: "\<lfloor>x\<rfloor> \<le> \<lfloor>y\<rfloor>" by (rule floor_mono)
  show ?thesis
  proof (cases "\<lfloor>x\<rfloor> = \<lfloor>y\<rfloor>")
    case True
    with le show ?thesis by (auto simp: round_half_even_def Let_def)
  next
    case False
    with f show ?thesis by (auto simp: round_half_even_def Let_def)
  qed
qed

lemma round_half_even_bound: "\<bar>of_int (round_half_even x) - x\<bar> \<le> 1 / 2"
proof -
  have "of_int \<lfloor>x\<rfloor> \<le> x" "x < of_int \<lfloor>x\<rfloor> + 1" by linarith+
  then show ?thesis by (auto simp: round_half_even_def Let_def abs_le_iff)
qed

lemma trunc_of_int [simp]: "trunc (of_int n) = n"
  by (simp add: trunc_def)

lemma trunc_mono: "x \<le> y \<Longrightarrow> trunc x \<le> trunc y"
  by (auto simp: trunc_def floor_mono not_le intro: order_trans [of _ 0])

section \<open>Relative error of rounding\<close>

lemma two_power_powi: "two_power e = 2 powi e"
  by (auto simp: two_power_def power_int_def divide_simps)

lemma two_power_pos [simp]: "0 < two_power e"
  by (simp add: two_power_powi)

lemma two_power_diff: "two_power (a - b) = two_power a / two_power b"
  by (simp add: two_power_powi power_int_diff)

lemma two_power_nat: "0 \<le> e \<Longrightarrow> two_power e = of_int (2 ^ nat e)"
  by (simp add: two_power_def)

lemma ilog_nonneg: "0 \<le> ilog n"
proof (induction n rule: ilog.induct)
  case (1 n)
  then show ?case by (subst ilog.simps) auto
qed

lemma ilog_bounds: "1 \<le> n \<Longrightarrow> 2 ^ nat (ilog n) \<le> n \<and> n < 2 * 2 ^ nat (ilog n)"
proof (induction n rule: ilog.induct)
  case (1 n)
  show ?case
  proof (cases "n < 2")
    case False
    then have IH: "2 ^ nat (ilog (n div 2)) \<le> n div 2 \<and> n div 2 < 2 * 2 ^ nat (ilog (n div 2))"
      using "1.IH" by simp
    have "nat (ilog n) = Suc (nat (ilog (n div 2)))"
      using False ilog_nonneg [of "n div 2"] by (subst ilog.simps) (simp add: nat_add_distrib)
    then show ?thesis using IH by (simp; linarith)
  qed (use 1 in \<open>auto simp: ilog.simps [of n]\<close>)
qed

lemma rat_ilog_le:
  assumes "0 < x"
  shows "two_power (rat_ilog x) \<le> x"
proof -
  obtain p q where pq: "quotient_of x = (p, q)" by fastforce
  have q: "0 < q" and x: "x = of_int p / of_int q"
    using quotient_of_denom_pos [OF pq] quotient_of_div [OF pq] by auto
  then have p: "1 \<le> p" using assms by (simp add: zero_less_divide_iff)
  have "(of_int (2 ^ nat (ilog p)) :: rat) \<le> of_int p" "(of_int q :: rat) \<le> of_int (2 * 2 ^ nat (ilog q))"
    using ilog_bounds [OF p] ilog_bounds [of q] q by (simp_all only: of_int_le_iff) simp_all
  then have b: "two_power (ilog p) \<le> of_int p" "of_int q \<le> 2 * two_power (ilog q)"
    using ilog_nonneg [of p] ilog_nonneg [of q] by (simp_all add: two_power_nat)
  have "two_power (ilog p - ilog q - 1) = two_power (ilog p) / (2 * two_power (ilog q))"
    by (simp add: two_power_diff two_power_def [of 1])
  also have "\<dots> \<le> of_int p / of_int q"
    using b q p by (intro frac_le) (simp_all add: less_imp_le)
  finally have "two_power (ilog p - ilog q - 1) \<le> x" by (simp add: x)
  then show ?thesis unfolding rat_ilog_def pq by (simp add: Let_def)
qed

lemma fl_pos_error:
  assumes "0 < x"
  shows "\<bar>fl_pos x - x\<bar> \<le> x / 2 ^ 53"
proof -
  let ?u = "two_power (rat_ilog x - 52)"
  have "?u = two_power (rat_ilog x) / 2 ^ 52" by (simp add: two_power_diff two_power_def [of 52])
  then have u: "?u / 2 \<le> x / 2 ^ 53" using rat_ilog_le [OF assms] by simp
  have "fl_pos x - x = (of_int (round_half_even (x / ?u)) - x / ?u) * ?u"
    by (simp add: fl_pos_def Let_def algebra_simps less_imp_neq [OF two_power_pos, symmetric])
  then have "\<bar>fl_pos x - x\<bar> = \<bar>of_int (round_half_even (x / ?u)) - x / ?u\<bar> * ?u"
    by (simp add: abs_mult abs_of_pos)
  also have "\<dots> \<le> (1 / 2) * ?u"
    by (intro mult_right_mono round_half_even_bound less_imp_le two_power_pos)
  finally show ?thesis using u by simp
qed

lemma fl_minus [simp]: "fl (- x) = - fl x"
  by (simp add: fl_def)

lemma fl_bounds:
  assumes "0 \<le> x"
  shows "0 \<le> fl x" "fl x \<le> x * (1 + 1 / 2 ^ 53)"
proof -
  have "\<bar>fl x - x\<bar> \<le> x / 2 ^ 53" using assms fl_pos_error [of x] by (auto simp: fl_def)
  moreover have "x / 2 ^ 53 \<le> x" using assms by simp
  moreover have "x * (1 + 1 / 2 ^ 53) = x + x / 2 ^ 53" by (simp only: distrib_left mult_1_right times_divide_eq_right)
  ultimately show "0 \<le> fl x" "fl x \<le> x * (1 + 1 / 2 ^ 53)" by linarith+
qed

lemma trunc_minus [simp]: "trunc (- x) = - trunc x"
  by (auto simp: trunc_def)

lemma trunc_bounds: "0 \<le> x \<Longrightarrow> 0 \<le> trunc x \<and> of_int (trunc x) \<le> x"
  by (simp add: trunc_def)

text \<open>A tenth of an integer, computed in floating point, lies between zero and the integer.\<close>

lemma fl_tenth_bounds:
  assumes "0 \<le> d"
  shows "0 \<le> trunc (fl (fl (of_int d) * fl (1 / 10)))" "trunc (fl (fl (of_int d) * fl (1 / 10))) \<le> d"
proof -
  let ?e = "1 + 1 / 2 ^ 53 :: rat"
  have d: "0 \<le> fl (of_int d)" "fl (of_int d) \<le> of_int d * ?e" using fl_bounds [of "of_int d"] assms by auto
  have t: "0 \<le> fl (1 / 10)" "fl (1 / 10) \<le> 1 / 10 * ?e" using fl_bounds [of "1 / 10"] by auto
  have p: "0 \<le> fl (of_int d) * fl (1 / 10)" using d t by simp
  have "fl (of_int d) * fl (1 / 10) \<le> (of_int d * ?e) * (1 / 10 * ?e)" using d t assms by (intro mult_mono) auto
  then have "fl (of_int d) * fl (1 / 10) * ?e \<le> (of_int d * ?e) * (1 / 10 * ?e) * ?e"
    by (rule mult_right_mono) simp
  also have "\<dots> = of_int d * (?e * (1 / 10 * ?e) * ?e)" by simp
  also have "\<dots> \<le> of_int d * 1" using assms by (intro mult_left_mono) (simp_all add: field_simps)
  finally have "fl (fl (of_int d) * fl (1 / 10)) \<le> of_int d" using fl_bounds(2) [OF p] by simp
  then have "of_int (trunc (fl (fl (of_int d) * fl (1 / 10)))) \<le> (of_int d :: rat)"
    using trunc_bounds [OF fl_bounds(1) [OF p]] by simp
  then show "trunc (fl (fl (of_int d) * fl (1 / 10))) \<le> d" by (simp only: of_int_le_iff)
  show "0 \<le> trunc (fl (fl (of_int d) * fl (1 / 10)))" using trunc_bounds [OF fl_bounds(1) [OF p]] by simp
qed

text \<open>Rounding loses at most one part in \<open>2 ^ 53\<close>, and nothing on integers below that; a duration in seconds is
  off by at most one part in \<open>2 ^ 51\<close>.\<close>

lemma fl_lower:
  assumes "0 \<le> x"
  shows "x * (1 - 1 / 2 ^ 53) \<le> fl x"
proof -
  have "\<bar>fl x - x\<bar> \<le> x / 2 ^ 53" using assms fl_pos_error [of x] by (auto simp: fl_def)
  moreover have "x * (1 - 1 / 2 ^ 53) = x - x / 2 ^ 53" by (simp only: right_diff_distrib mult_1_right times_divide_eq_right)
  ultimately show ?thesis by linarith
qed

lemma ilog_less: "1 \<le> n \<Longrightarrow> n < 2 ^ k \<Longrightarrow> ilog n < int k"
proof -
  assume n: "1 \<le> n" "n < 2 ^ k"
  then have "(2 :: int) ^ nat (ilog n) < 2 ^ k" using ilog_bounds [of n] by linarith
  then have "nat (ilog n) < k" by (rule power_less_imp_less_exp [rotated]) simp
  then show ?thesis using ilog_nonneg [of n] by linarith
qed

lemma rat_ilog_of_int: "1 \<le> n \<Longrightarrow> rat_ilog (of_int n) = ilog n"
proof -
  assume n: "1 \<le> n"
  have "(of_int (2 ^ nat (ilog n)) :: rat) \<le> of_int n"
    using ilog_bounds [OF n] by (simp only: of_int_le_iff)
  then have "two_power (ilog n) \<le> of_int n" using ilog_nonneg [of n] by (simp add: two_power_nat)
  moreover have "ilog 1 = 0" by (simp add: ilog.simps)
  ultimately show ?thesis by (simp add: rat_ilog_def)
qed

lemma fl_of_int [simp]:
  assumes "0 \<le> n" "n < 2 ^ 53"
  shows "fl (of_int n) = of_int n"
proof (cases "n = 0")
  case False
  with assms have n: "1 \<le> n" by simp
  let ?k = "52 - ilog n"
  have k: "0 \<le> ?k" using ilog_less [OF n assms(2)] by simp
  have u: "two_power (ilog n - 52) = 1 / of_int (2 ^ nat ?k)"
    using k two_power_diff [of 0 ?k] by (simp add: two_power_nat two_power_def [of 0])
  have "(of_int n / (1 / of_int (2 ^ nat ?k)) :: rat) = of_int (n * 2 ^ nat ?k)" by simp
  then have "fl_pos (of_int n) = of_int (n * 2 ^ nat ?k) * (1 / of_int (2 ^ nat ?k))"
    unfolding fl_pos_def Let_def rat_ilog_of_int [OF n] u by (simp only: round_half_even_of_int)
  then show ?thesis using n by (simp add: fl_def)
qed (simp add: fl_def)

lemma Seconds_bounds:
  assumes "0 \<le> d"
  shows "of_int d / 10 ^ 9 * (1 - 1 / 2 ^ 51) \<le> Seconds d" "Seconds d \<le> of_int d / 10 ^ 9 * (1 + 1 / 2 ^ 51)"
proof -
  let ?u = "1 / 2 ^ 53 :: rat"
  define sec where "sec = trunc (of_int d / 10 ^ 9)"
  define nsec where "nsec = d - sec * 10 ^ 9"
  have sec: "0 \<le> sec" "of_int sec \<le> (of_int d / 10 ^ 9 :: rat)"
    using trunc_bounds [of "of_int d / 10 ^ 9"] assms by (simp_all add: sec_def)
  then have "(of_int (sec * 10 ^ 9) :: rat) \<le> of_int d" by (simp add: field_simps)
  then have nsec: "0 \<le> nsec" by (simp only: nsec_def of_int_le_iff)
  define a b c where "a = (of_int sec :: rat)" and "b = (of_int nsec :: rat)" and "c = fl b"
  have ab: "0 \<le> a" "0 \<le> b" "a + b / 10 ^ 9 = of_int d / 10 ^ 9" using sec nsec by (simp_all add: a_def b_def nsec_def field_simps)
  have A: "a * (1 - ?u) \<le> fl a" "fl a \<le> a * (1 + ?u)" using fl_lower [OF ab(1)] fl_bounds [OF ab(1)] by auto
  have C: "b * (1 - ?u) \<le> c" "c \<le> b * (1 + ?u)" "0 \<le> c" using fl_lower [OF ab(2)] fl_bounds [OF ab(2)] by (auto simp: c_def)
  have D: "c / 10 ^ 9 * (1 - ?u) \<le> fl (c / 10 ^ 9)" "fl (c / 10 ^ 9) \<le> c / 10 ^ 9 * (1 + ?u)" "0 \<le> fl (c / 10 ^ 9)"
    using fl_lower [of "c / 10 ^ 9"] fl_bounds [of "c / 10 ^ 9"] C(3) by auto
  define s where "s = fl a + fl (c / 10 ^ 9)"
  have s0: "0 \<le> s" using D(3) fl_bounds(1) [OF ab(1)] by (simp add: s_def)
  have S: "s * (1 - ?u) \<le> Seconds d" "Seconds d \<le> s * (1 + ?u)"
    using fl_lower [OF s0] fl_bounds [OF s0]
    by (simp_all add: Seconds_def Let_def s_def c_def a_def b_def nsec_def sec_def)
  have "s \<le> a * (1 + ?u) + c / 10 ^ 9 * (1 + ?u)" unfolding s_def using A(2) D(2) by linarith
  moreover have "c / 10 ^ 9 * (1 + ?u) \<le> (b * (1 + ?u)) / 10 ^ 9 * (1 + ?u)" using C(2) by (intro mult_right_mono divide_right_mono) auto
  moreover have "a * (1 + ?u) \<le> a * (1 + ?u) * (1 + ?u)" using ab(1) by (simp add: field_simps)
  ultimately have "s \<le> (a + b / 10 ^ 9) * ((1 + ?u) * (1 + ?u))" by (simp add: algebra_simps)
  then have "s * (1 + ?u) \<le> (a + b / 10 ^ 9) * ((1 + ?u) * (1 + ?u)) * (1 + ?u)" by (rule mult_right_mono) simp
  also have "\<dots> = (a + b / 10 ^ 9) * ((1 + ?u) * (1 + ?u) * (1 + ?u))" by simp
  also have "\<dots> \<le> (a + b / 10 ^ 9) * (1 + 1 / 2 ^ 51)" using ab by (intro mult_left_mono) (simp_all add: field_simps)
  finally show "Seconds d \<le> of_int d / 10 ^ 9 * (1 + 1 / 2 ^ 51)" using S(2) ab(3) by simp
  have "a * (1 - ?u) + c / 10 ^ 9 * (1 - ?u) \<le> s" unfolding s_def using A(1) D(1) by linarith
  moreover have "(b * (1 - ?u)) / 10 ^ 9 * (1 - ?u) \<le> c / 10 ^ 9 * (1 - ?u)" using C(1) by (intro mult_right_mono divide_right_mono) auto
  moreover have "a * (1 - ?u) * (1 - ?u) \<le> a * (1 - ?u)" using ab(1) by (simp add: field_simps)
  ultimately have "(a + b / 10 ^ 9) * ((1 - ?u) * (1 - ?u)) \<le> s" by (simp add: algebra_simps)
  then have "(a + b / 10 ^ 9) * ((1 - ?u) * (1 - ?u)) * (1 - ?u) \<le> s * (1 - ?u)" by (rule mult_right_mono) simp
  moreover have "(a + b / 10 ^ 9) * (1 - 1 / 2 ^ 51) \<le> (a + b / 10 ^ 9) * ((1 - ?u) * (1 - ?u) * (1 - ?u))"
    using ab by (intro mult_left_mono) (simp_all add: field_simps)
  ultimately show "of_int d / 10 ^ 9 * (1 - 1 / 2 ^ 51) \<le> Seconds d" using S(1) ab(3) by (simp add: mult.assoc)
qed

end
