(* ===== verification/NG_Message.thy ===== *)
theory NG_Message
  imports Bencode Go_Float
begin

text \<open>
  NG protocol messages, \<^verbatim>\<open>internal/ng_protocol/message.go\<close> and the message types of
  \<^verbatim>\<open>types.go\<close>: a message is a cookie, a space and a bencoded dictionary. \<open>ParseMessage\<close> and
  \<open>ToRequest\<close> read a request, \<open>BuildResponse\<close> writes a reply. The clock reading of
  \<^verbatim>\<open>ToRequest\<close> is an argument. The properties at the end say that a reply carries the
  cookie of its request and is read back field by field.
\<close>

section \<open>Message types\<close>

type_synonym UDPAddr = "string \<times> int"

datatype message_error =
    ErrNoCookie | ErrNoCommand | ErrMalformedMsg bencode_error | ErrInvalidMessage | MessagePanic

record 'f NGMessage =
  msg_Cookie :: string
  msg_Data :: "'f dict"
  msg_RawBytes :: string
  msg_From :: "UDPAddr option"

record 'f NGRequest =
  req_Cookie :: string
  req_Command :: string
  req_CallID :: string
  req_FromTag :: string
  req_ToTag :: string
  req_ViaBranch :: string
  req_SDP :: string
  req_Flags :: "string list"
  req_Replace :: "string list"
  req_Direction :: "string list"
  req_ReceivedFrom :: "UDPAddr option"
  req_Timestamp :: gtime
  req_ICE :: string
  req_DTLS :: string
  req_SDES :: "string list"
  req_Transport :: string
  req_MediaAddress :: string
  req_AddressFamily :: string
  req_RecordCall :: bool
  req_RecordingMeta :: "(string \<rightharpoonup> string) option"
  req_Codec :: "string list"
  req_Transcode :: "string list"
  req_Ptime :: int
  req_Label :: string
  req_SetLabel :: string
  req_FromLabel :: string
  req_ToLabel :: string
  req_DTMFDigit :: string
  req_DTMFDuration :: int
  req_ForwardAddress :: string
  req_ForwardPort :: int
  req_RawParams :: "'f dict"

record ICECandidate =
  cand_Foundation :: string
  cand_Component :: int
  cand_Protocol :: string
  cand_Priority :: u32
  cand_IP :: string
  cand_Port :: int
  cand_Type :: string
  cand_RelatedIP :: string
  cand_RelatedPort :: int

record StreamInfo =
  strm_LocalIP :: string
  strm_LocalPort :: int
  strm_LocalRTCPPort :: int
  strm_MediaType :: string
  strm_Protocol :: string
  strm_Index :: int
  strm_Flags :: "string list"
  strm_ICECandidates :: "ICECandidate list"
  strm_ICEUfrag :: string
  strm_ICEPwd :: string
  strm_CryptoSuite :: string
  strm_SRTPKey :: string
  strm_Fingerprint :: string
  strm_FingerprintHash :: string
  strm_Setup :: string

record 'f LegStats =
  legst_Tag :: string
  legst_SSRC :: u32
  legst_PacketsSent :: u64
  legst_PacketsRecv :: u64
  legst_BytesSent :: u64
  legst_BytesRecv :: u64
  legst_PacketLoss :: 'f
  legst_Jitter :: 'f
  legst_RTT :: 'f

record 'f CallStats =
  cs_CreatedAt :: gtime
  cs_Duration :: duration
  cs_PacketsSent :: u64
  cs_PacketsRecv :: u64
  cs_BytesSent :: u64
  cs_BytesRecv :: u64
  cs_PacketLoss :: 'f
  cs_Jitter :: 'f
  cs_RTT :: 'f
  cs_MOS :: 'f
  cs_Legs :: "'f LegStats list"

text \<open>\<^verbatim>\<open>MediaInfo.Streams\<close> is never read by the encoder and is left out.\<close>

record MediaInfo =
  media_Index :: int
  media_Type :: string
  media_Protocol :: string
  media_LocalIP :: string
  media_LocalPort :: int

record TagInfo =
  tag_Tag :: string
  tag_Label :: string
  tag_InDialogue :: bool
  tag_MediaCount :: int
  tag_Created :: int
  tag_Medias :: "MediaInfo list"

record 'f NGResponse =
  resp_Result :: string
  resp_ErrorReason :: string
  resp_SDP :: string
  resp_CallID :: string
  resp_FromTag :: string
  resp_ToTag :: string
  resp_Streams :: "StreamInfo list"
  resp_Stats :: "'f CallStats option"
  resp_Created :: int
  resp_LastSignal :: int
  resp_Warning :: string
  resp_Tag :: "(string \<times> TagInfo) list"
  resp_Extra :: "'f dict"

text \<open>The zero value \<^verbatim>\<open>&NGResponse{}\<close> that composite literals start from.\<close>

definition NGResponse0 :: "'f NGResponse" where
  "NGResponse0 = \<lparr>resp_Result = [], resp_ErrorReason = [], resp_SDP = [], resp_CallID = [],
     resp_FromTag = [], resp_ToTag = [], resp_Streams = [], resp_Stats = None, resp_Created = 0,
     resp_LastSignal = 0, resp_Warning = [], resp_Tag = [], resp_Extra = []\<rparr>"

section \<open>Reading a message\<close>

definition ParseMessage :: "string \<Rightarrow> UDPAddr option \<Rightarrow> message_error + 'f NGMessage" where
  "ParseMessage data from =
     (case IndexByte data (CHR '' '') of
        None \<Rightarrow> Inl ErrNoCookie
      | Some spaceIdx \<Rightarrow>
          let cookie = take spaceIdx data in
          if cookie = [] then Inl ErrNoCookie
          else let bencodeData = drop (spaceIdx + 1) data in
            (case Decode bencodeData of
               Inl Panic \<Rightarrow> Inl MessagePanic
             | Inl err \<Rightarrow> Inl (ErrMalformedMsg err)
             | Inr (GBencodeDict dict, _) \<Rightarrow>
                 Inr \<lparr>msg_Cookie = cookie, msg_Data = dict, msg_RawBytes = data, msg_From = from\<rparr>
             | Inr _ \<Rightarrow> Inl ErrInvalidMessage))"

text \<open>
  \<^verbatim>\<open>strings.EqualFold\<close> on the flag names this package passes, all ASCII and without the letters
  k and s that have a folding partner outside ASCII.
\<close>

definition lower :: "char \<Rightarrow> char" where
  "lower c = (if CHR ''A'' \<le> c \<and> c \<le> CHR ''Z'' then char_of (of_char c + 32 :: nat) else c)"

definition EqualFold :: "string \<Rightarrow> string \<Rightarrow> bool" where
  "EqualFold s t \<longleftrightarrow> map lower s = map lower t"

fun containsFlag :: "string list \<Rightarrow> string \<Rightarrow> bool" where
  "containsFlag [] flag = False"
| "containsFlag (f # flags) flag = (if EqualFold f flag then True else containsFlag flags flag)"

text \<open>The loops over a list parameter append its string elements to a \<^verbatim>\<open>nil\<close> slice.\<close>

definition stringParams :: "'f dict \<Rightarrow> string \<Rightarrow> string list" where
  "stringParams d key = (case DictGetList d key of None \<Rightarrow> [] | Some l \<Rightarrow> strings_of l)"

definition positiveParam :: "'f dict \<Rightarrow> string \<Rightarrow> int" where
  "positiveParam d key = (let i = sint (DictGetInt d key) in if i > 0 then i else 0)"

definition recordMeta :: "'f dict \<Rightarrow> (string \<rightharpoonup> string) option" where
  "recordMeta d =
     map_option (\<lambda>m k. case map_of m k of Some (GString s) \<Rightarrow> Some s | _ \<Rightarrow> None)
       (DictGetDict d ''record-meta'')"

definition ToRequest :: "gtime \<Rightarrow> 'f NGMessage \<Rightarrow> message_error + 'f NGRequest" where
  "ToRequest now m =
     (let d = msg_Data m; command = DictGetString d ''command'' in
      if command = [] then Inl ErrNoCommand
      else Inr \<lparr>
        req_Cookie = msg_Cookie m, req_Command = command,
        req_CallID = DictGetString d ''call-id'', req_FromTag = DictGetString d ''from-tag'',
        req_ToTag = DictGetString d ''to-tag'', req_ViaBranch = DictGetString d ''via-branch'',
        req_SDP = DictGetString d ''sdp'',
        req_Flags = stringParams d ''flags'', req_Replace = stringParams d ''replace'',
        req_Direction = stringParams d ''direction'',
        req_ReceivedFrom = msg_From m, req_Timestamp = now,
        req_ICE = DictGetString d ''ICE'', req_DTLS = DictGetString d ''DTLS'',
        req_SDES = stringParams d ''SDES'',
        req_Transport = DictGetString d ''transport-protocol'',
        req_MediaAddress = DictGetString d ''media address'',
        req_AddressFamily = DictGetString d ''address family'',
        req_RecordCall = containsFlag (stringParams d ''flags'') ''record-call'',
        req_RecordingMeta = recordMeta d,
        req_Codec = stringParams d ''codec'', req_Transcode = stringParams d ''transcode'',
        req_Ptime = positiveParam d ''ptime'',
        req_Label = DictGetString d ''label'', req_SetLabel = DictGetString d ''set-label'',
        req_FromLabel = DictGetString d ''from-label'', req_ToLabel = DictGetString d ''to-label'',
        req_DTMFDigit = DictGetString d ''digit'', req_DTMFDuration = positiveParam d ''duration'',
        req_ForwardAddress = DictGetString d ''forward-address'',
        req_ForwardPort = positiveParam d ''forward-port'',
        req_RawParams = d\<rparr>)"

definition ParseCallID :: "string \<Rightarrow> string" where
  "ParseCallID callID =
     (case IndexByte callID (CHR '';'') of Some idx \<Rightarrow> take idx callID | None \<Rightarrow> callID)"

definition ParseDirection :: "string list \<Rightarrow> string \<times> string" where
  "ParseDirection directions =
     ((if length directions \<ge> 1 then directions ! 0 else []),
      (if length directions \<ge> 2 then directions ! 1 else []))"

section \<open>Writing a reply\<close>

text \<open>
  A dictionary under construction: \<open>put k v d\<close> is \<^verbatim>\<open>d[k] = v\<close>, \<open>put_if c k v d\<close> the same
  under a condition, and \<open>go_int\<close> boxes a Go \<^verbatim>\<open>int\<close>.
\<close>

abbreviation put :: "string \<Rightarrow> 'f go_value \<Rightarrow> 'f dict \<Rightarrow> 'f dict" where
  "put k v d \<equiv> AList.update k v d"

definition put_if :: "bool \<Rightarrow> string \<Rightarrow> 'f go_value \<Rightarrow> 'f dict \<Rightarrow> 'f dict" where
  "put_if c k v d = (if c then put k v d else d)"

definition go_int :: "int \<Rightarrow> 'f go_value" where
  "go_int i = GInt (word_of_int i)"

definition go_int64 :: "int \<Rightarrow> 'f go_value" where
  "go_int64 i = GInt64 (word_of_int i)"

definition candidate_dict :: "ICECandidate \<Rightarrow> 'f go_value" where
  "candidate_dict c = GMap
     [(''foundation'', GString (cand_Foundation c)), (''component'', go_int (cand_Component c)),
      (''protocol'', GString (cand_Protocol c)), (''priority'', GUint32 (cand_Priority c)),
      (''address'', GString (cand_IP c)), (''port'', go_int (cand_Port c)),
      (''type'', GString (cand_Type c))]"

definition stream_dict :: "StreamInfo \<Rightarrow> 'f dict" where
  "stream_dict s =
     (let d0 = [(''local address'', GString (strm_LocalIP s)), (''local port'', go_int (strm_LocalPort s)),
                (''media type'', GString (strm_MediaType s)), (''protocol'', GString (strm_Protocol s)),
                (''index'', go_int (strm_Index s))];
          d1 = put_if (strm_LocalRTCPPort s > 0) ''local RTCP port'' (go_int (strm_LocalRTCPPort s)) d0;
          d2 = put_if (length (strm_ICECandidates s) > 0) ''ICE-candidates''
                 (GList (map candidate_dict (strm_ICECandidates s))) d1;
          d3 = put_if (strm_ICEUfrag s \<noteq> []) ''ICE-ufrag'' (GString (strm_ICEUfrag s)) d2;
          d4 = put_if (strm_ICEPwd s \<noteq> []) ''ICE-pwd'' (GString (strm_ICEPwd s)) d3;
          d5 = put_if (strm_Fingerprint s \<noteq> []) ''fingerprint-hash'' (GString (strm_FingerprintHash s))
                 (put_if (strm_Fingerprint s \<noteq> []) ''fingerprint'' (GString (strm_Fingerprint s)) d4)
      in put_if (strm_Setup s \<noteq> []) ''setup'' (GString (strm_Setup s)) d5)"

definition media_dict :: "MediaInfo \<Rightarrow> 'f go_value" where
  "media_dict m = GMap
     [(''index'', go_int (media_Index m)), (''type'', GString (media_Type m)),
      (''protocol'', GString (media_Protocol m)), (''local IP'', GString (media_LocalIP m)),
      (''local port'', go_int (media_LocalPort m))]"

definition tag_dict :: "TagInfo \<Rightarrow> 'f dict" where
  "tag_dict info =
     (let d0 = [(''tag'', GString (tag_Tag info)), (''in dialogue'', GBool (tag_InDialogue info)),
                (''created'', go_int64 (tag_Created info)),
                (''media count'', go_int (tag_MediaCount info))];
          d1 = put_if (tag_Label info \<noteq> []) ''label'' (GString (tag_Label info)) d0
      in put_if (length (tag_Medias info) > 0) ''medias'' (GList (map media_dict (tag_Medias info))) d1)"

definition stats_dict :: "'f CallStats \<Rightarrow> 'f dict" where
  "stats_dict st =
     [(''created'', go_int64 (Unix (cs_CreatedAt st))),
      (''duration'', go_int64 (trunc (Seconds (cs_Duration st)))),
      (''packets sent'', GUint64 (cs_PacketsSent st)), (''packets recv'', GUint64 (cs_PacketsRecv st)),
      (''bytes sent'', GUint64 (cs_BytesSent st)), (''bytes recv'', GUint64 (cs_BytesRecv st)),
      (''packet loss'', GFloat64 (cs_PacketLoss st)), (''jitter'', GFloat64 (cs_Jitter st)),
      (''rtt'', GFloat64 (cs_RTT st)), (''MOS'', GFloat64 (cs_MOS st))]"

definition leg_dict :: "'f LegStats \<Rightarrow> 'f go_value" where
  "leg_dict leg = GMap
     [(''tag'', GString (legst_Tag leg)), (''SSRC'', GUint32 (legst_SSRC leg)),
      (''packets sent'', GUint64 (legst_PacketsSent leg)),
      (''packets recv'', GUint64 (legst_PacketsRecv leg)),
      (''bytes sent'', GUint64 (legst_BytesSent leg)), (''bytes recv'', GUint64 (legst_BytesRecv leg)),
      (''packet loss'', GFloat64 (legst_PacketLoss leg)), (''jitter'', GFloat64 (legst_Jitter leg)),
      (''rtt'', GFloat64 (legst_RTT leg))]"

definition response_dict :: "'f NGResponse \<Rightarrow> 'f dict" where
  "response_dict resp =
     (let d0 = put ''result'' (GString (resp_Result resp)) [];
          d1 = put_if (resp_ErrorReason resp \<noteq> []) ''error-reason'' (GString (resp_ErrorReason resp)) d0;
          d2 = put_if (resp_SDP resp \<noteq> []) ''sdp'' (GString (resp_SDP resp)) d1;
          d3 = put_if (resp_Warning resp \<noteq> []) ''warning'' (GString (resp_Warning resp)) d2;
          d4 = put_if (length (resp_Streams resp) > 0) ''streams''
                 (GList (map (\<lambda>s. GMap (stream_dict s)) (resp_Streams resp))) d3;
          d5 = put_if (length (resp_Tag resp) > 0) ''tags''
                 (GMap (fold (\<lambda>(name, info). put name (GMap (tag_dict info))) (resp_Tag resp) [])) d4;
          d6 = (case resp_Stats resp of
                  None \<Rightarrow> d5
                | Some st \<Rightarrow>
                    put_if (length (cs_Legs st) > 0) ''legs'' (GList (map leg_dict (cs_Legs st)))
                      (put ''stats'' (GMap (stats_dict st)) d5));
          d7 = put_if (resp_Created resp > 0) ''created'' (go_int64 (resp_Created resp)) d6;
          d8 = put_if (resp_LastSignal resp > 0) ''last signal'' (go_int64 (resp_LastSignal resp)) d7
      in fold (\<lambda>(k, v). put k v) (resp_Extra resp) d8)"

definition BuildResponse ::
  "('f \<Rightarrow> nat \<Rightarrow> string) \<Rightarrow> string \<Rightarrow> 'f NGResponse \<Rightarrow> bencode_error + string" where
  "BuildResponse fmt cookie resp =
     (case Encode fmt (GMap (response_dict resp)) of
        Inl err \<Rightarrow> Inl err
      | Inr encoded \<Rightarrow> Inr (cookie @ '' '' @ encoded))"

definition ErrorResponse ::
  "('f \<Rightarrow> nat \<Rightarrow> string) \<Rightarrow> string \<Rightarrow> string \<Rightarrow> bencode_error + string" where
  "ErrorResponse fmt cookie reason =
     BuildResponse fmt cookie
       (NGResponse0\<lparr>resp_Result := ''error'', resp_ErrorReason := reason\<rparr>)"

definition PongResponse :: "('f \<Rightarrow> nat \<Rightarrow> string) \<Rightarrow> string \<Rightarrow> bencode_error + string" where
  "PongResponse fmt cookie = BuildResponse fmt cookie (NGResponse0\<lparr>resp_Result := ''pong''\<rparr>)"

definition OKResponse :: "('f \<Rightarrow> nat \<Rightarrow> string) \<Rightarrow> string \<Rightarrow> bencode_error + string" where
  "OKResponse fmt cookie = BuildResponse fmt cookie (NGResponse0\<lparr>resp_Result := ''ok''\<rparr>)"

definition OKResponseWithSDP ::
  "('f \<Rightarrow> nat \<Rightarrow> string) \<Rightarrow> string \<Rightarrow> string \<Rightarrow> StreamInfo list \<Rightarrow> bencode_error + string" where
  "OKResponseWithSDP fmt cookie sdp streams =
     BuildResponse fmt cookie
       (NGResponse0\<lparr>resp_Result := ''ok'', resp_SDP := sdp, resp_Streams := streams\<rparr>)"

section \<open>Every dictionary a reply is built from is one the encoder accepts\<close>

lemma good_value_atoms [simp]:
  "good_value (go_int i)" "good_value (go_int64 i)" "good_value (GUint32 w)" "good_value (GUint64 u)"
  "good_value (GFloat64 x)" "good_value (GBool b)"
  "good_value (GList vs) \<longleftrightarrow> (\<forall>v \<in> set vs. good_value v)"
  by (auto simp: good_value_def go_int_def go_int64_def list_all_id_map)

abbreviation good_dict :: "'f dict \<Rightarrow> bool" where
  "good_dict d \<equiv> good_value (GMap d)"

lemma good_dict_iff: "good_dict d \<longleftrightarrow> distinct (map fst d) \<and> (\<forall>(k, v) \<in> set d. good_value v)"
  by (auto simp: good_value_def list_all_snd_map_prod)

lemma good_dict_put [wf_intros]: "good_dict d \<Longrightarrow> good_value v \<Longrightarrow> good_dict (put k v d)"
  using AList_update_vals [of d good_value v k] distinct_AList_update [of d k v]
  by (simp add: good_dict_iff)

lemma good_dict_put_if [wf_intros]:
  "good_dict d \<Longrightarrow> good_value v \<Longrightarrow> good_dict (put_if c k v d)"
  by (simp add: put_if_def good_dict_put)

lemma good_dict_fold_put [wf_intros]:
  "good_dict d \<Longrightarrow> \<forall>(k, v) \<in> set kvs. good_value (f v) \<Longrightarrow>
     good_dict (fold (\<lambda>(k, v). put k (f v)) kvs d)"
  by (induction kvs arbitrary: d) (auto intro: good_dict_put)

lemma good_reply_parts [wf_intros]:
  "good_value (candidate_dict c)" "good_value (media_dict m)" "good_value (leg_dict l)"
  "good_dict (stats_dict st)"
  by (simp_all add: candidate_dict_def media_dict_def leg_dict_def stats_dict_def good_dict_iff)

lemma good_stream_dict [wf_intros]: "good_dict (stream_dict s)"
  unfolding stream_dict_def Let_def
  by (intro wf_intros) (simp_all add: good_dict_iff good_reply_parts)

lemma good_tag_dict [wf_intros]: "good_dict (tag_dict t)"
  unfolding tag_dict_def Let_def
  by (intro wf_intros) (simp_all add: good_dict_iff good_reply_parts)

lemma good_response_dict:
  assumes "\<forall>(k, v) \<in> set (resp_Extra resp). good_value v"
  shows "good_dict (response_dict resp)"
proof -
  have small: "good_dict []" "good_dict [(k, GString s)]" for k s by (simp_all add: good_dict_iff)
  have "good_dict (fold (\<lambda>(name, info). put name (GMap (tag_dict info))) (resp_Tag resp) [])"
    by (rule good_dict_fold_put) (auto simp: small good_tag_dict)
  then show ?thesis
    unfolding response_dict_def Let_def using assms
    by (cases "resp_Stats resp")
      (auto intro!: wf_intros good_dict_fold_put [where f = "\<lambda>v. v"]
        simp: small good_reply_parts good_stream_dict)
qed

section \<open>Reading back what was written\<close>

lemma ParseMessage_framed:
  assumes "cookie \<noteq> []" "CHR '' '' \<notin> set cookie"
    and "wf_value (GMap d)" "EncodeBencode fmt (GMap d) = Inr b" "int (length b) < 2 ^ 63"
  shows "ParseMessage (cookie @ '' '' @ b) from
    = Inr \<lparr>msg_Cookie = cookie, msg_Data = sort_key fst (map (map_prod id (decoded fmt)) d),
           msg_RawBytes = cookie @ '' '' @ b, msg_From = from\<rparr>"
proof -
  have "IndexByte (cookie @ '' '' @ b) (CHR '' '') = Some (length cookie)"
    using assms(2) by (simp add: IndexByte_append)
  moreover have "DecodeBencode b = Inr (decoded fmt (GMap d))"
    using bencode.dec_framed [OF assms(3-5), of "[]"] by simp
  then obtain p where "Decode b = Inr (decoded fmt (GMap d), p)"
    by (auto simp: DecodeBencode_def split: sum.splits)
  ultimately show ?thesis using assms(1) by (simp add: ParseMessage_def)
qed

lemma map_of_fold_put:
  "k \<notin> fst ` set kvs \<Longrightarrow> map_of (fold (\<lambda>(k, v). put k v) kvs d) k = map_of d k"
  by (induction kvs arbitrary: d) (auto simp: update_conv')

lemma map_of_put_if:
  "map_of (put_if c k v d) k' = (if c \<and> k' = k then Some v else map_of d k')"
  by (simp add: put_if_def update_conv')

lemma response_dict_fields:
  assumes "k \<notin> fst ` set (resp_Extra resp)"
  shows "k = ''result'' \<Longrightarrow> map_of (response_dict resp) k = Some (GString (resp_Result resp))"
    and "k = ''error-reason'' \<Longrightarrow> map_of (response_dict resp) k
      = (if resp_ErrorReason resp = [] then None else Some (GString (resp_ErrorReason resp)))"
    and "k = ''sdp'' \<Longrightarrow> map_of (response_dict resp) k
      = (if resp_SDP resp = [] then None else Some (GString (resp_SDP resp)))"
  using assms
  by (simp_all add: response_dict_def Let_def map_of_fold_put map_of_put_if update_conv'
      split: option.splits)

lemma DictGetString_decoded:
  "map_of d k = map_option (decoded fmt) (map_of e k) \<Longrightarrow> map_of e k = Some (GString s) \<Longrightarrow>
     DictGetString d k = s"
  by (simp add: DictGetString_def)

lemma BuildResponse_total:
  "\<forall>(k, v) \<in> set (resp_Extra resp). good_value v \<Longrightarrow>
     BuildResponse fmt cookie resp = Inr (cookie @ '' '' @ ser fmt (GMap (response_dict resp)))"
  using good_response_dict [of resp] EncodeBencode_spec [of "GMap (response_dict resp)" fmt]
  by (simp add: BuildResponse_def EncodeBencode_def good_value_def del: ser.simps)

lemma response_read_back:
  assumes "cookie \<noteq> []" and "CHR '' '' \<notin> set cookie"
    and "\<forall>(k, v) \<in> set (resp_Extra resp). good_value v"
    and "BuildResponse fmt cookie resp = Inr bytes" and "int (length bytes) < 2 ^ 63"
  shows "\<exists>d. ParseMessage bytes from
      = Inr \<lparr>msg_Cookie = cookie, msg_Data = d, msg_RawBytes = bytes, msg_From = from\<rparr> \<and>
      (\<forall>k. map_of d k = map_option (decoded fmt) (map_of (response_dict resp) k))"
proof -
  have good: "wf_value (GMap (response_dict resp))"
    using good_response_dict [OF assms(3)] by (simp add: good_value_def)
  obtain b where b: "EncodeBencode fmt (GMap (response_dict resp)) = Inr b"
      "bytes = cookie @ '' '' @ b"
    using assms(4) by (auto simp: BuildResponse_def EncodeBencode_def split: sum.splits)
  show ?thesis
    using ParseMessage_framed [OF assms(1,2) good b(1)] assms(5) good
    by (auto simp: b(2) map_of_sort_key_map_prod)
qed

text \<open>The error replies are small: their text and about sixty bytes around it.\<close>

lemma length_error_reply:
  fixes fmt :: "'f \<Rightarrow> nat \<Rightarrow> string"
  assumes "reason \<noteq> []"
  shows "length (ser fmt (GMap (response_dict
      (NGResponse0\<lparr>resp_Result := ''error'', resp_ErrorReason := reason\<rparr>)))) \<le> 2 * length reason + 60"
proof -
  have "response_dict (NGResponse0\<lparr>resp_Result := ''error'', resp_ErrorReason := reason\<rparr> :: 'f NGResponse)
      = [(''result'', GString ''error''), (''error-reason'', GString reason)]"
    using assms by (simp add: response_dict_def Let_def NGResponse0_def put_if_def)
  then show ?thesis
    using length_show_nat [of "length reason"] 
      length_show_nat [of "length ''error-reason''"] length_show_nat [of "length ''result''"]
      length_show_nat [of "length ''error''"]
    by (simp add: ser_dict_def ser_entries_def ser_string_def)
qed

lemma strings_of_map_GString [simp]: "strings_of (map GString fs) = fs"
  by (induction fs) auto

lemma stringParams_decoded:
  "map_of d k = map_option (decoded fmt) (map_of e k) \<Longrightarrow>
     map_of e k = Some (GList (map GString fs)) \<Longrightarrow> stringParams d k = fs"
  by (simp add: stringParams_def DictGetList_def comp_def)

section \<open>Properties of the messages\<close>

text \<open>C3. A reply is addressed: for every cookie a request can carry, the reply parses as
  an NG message with that cookie, and each of its dictionary entries is the one the reply was
  built with, in the form the decoder gives it.\<close>

theorem response_roundtrip:
  assumes "cookie \<noteq> []" and "CHR '' '' \<notin> set cookie"
    and "\<forall>(k, v) \<in> set (resp_Extra resp). good_value v"
    and "BuildResponse fmt cookie resp = Inr bytes" and "int (length bytes) < 2 ^ 63"
  shows "\<exists>d. ParseMessage bytes from
      = Inr \<lparr>msg_Cookie = cookie, msg_Data = d, msg_RawBytes = bytes, msg_From = from\<rparr> \<and>
      (\<forall>k. map_of d k = map_option (decoded fmt) (map_of (response_dict resp) k))"
  using assms by (rule response_read_back)

theorem response_roundtrip_witness:
  "\<exists>d. ParseMessage ''5_1 d6:result4:ponge'' None
      = Inr \<lparr>msg_Cookie = ''5_1'', msg_Data = d, msg_RawBytes = ''5_1 d6:result4:ponge'', msg_From = None\<rparr> \<and>
      (\<forall>k. map_of d k = map_option (decoded (\<lambda>(x :: unit) n. []))
         (map_of (response_dict (NGResponse0\<lparr>resp_Result := ''pong''\<rparr>)) k))"
proof (rule response_roundtrip)
  show "BuildResponse (\<lambda>(x :: unit) n. []) ''5_1'' (NGResponse0\<lparr>resp_Result := ''pong''\<rparr>)
      = Inr ''5_1 d6:result4:ponge''"
    by code_simp
qed (simp_all add: NGResponse0_def)

text \<open>Building a reply never fails when the extra values are encodable; in particular an
  error reply always exists, and its cookie, its result and its reason are read back exactly.\<close>

lemma error_response_read_back:
  fixes fmt :: "'f \<Rightarrow> nat \<Rightarrow> string"
  assumes "cookie \<noteq> []" and "CHR '' '' \<notin> set cookie" and "reason \<noteq> []"
    and "int (length cookie) + int (length reason) < 2 ^ 61"
  shows "\<exists>bytes (m :: 'f NGMessage).
      ErrorResponse fmt cookie reason = Inr bytes \<and> ParseMessage bytes from = Inr m \<and>
      msg_Cookie m = cookie \<and> DictGetString (msg_Data m) ''result'' = ''error'' \<and>
      DictGetString (msg_Data m) ''error-reason'' = reason"
proof -
  let ?r = "NGResponse0\<lparr>resp_Result := ''error'', resp_ErrorReason := reason\<rparr> :: 'f NGResponse"
  let ?bytes = "cookie @ '' '' @ ser fmt (GMap (response_dict ?r))"
  have extra: "resp_Extra ?r = []" by (simp add: NGResponse0_def)
  have build: "ErrorResponse fmt cookie reason = Inr ?bytes"
    unfolding ErrorResponse_def by (rule BuildResponse_total) (simp add: extra)
  have len: "int (length ?bytes) < 2 ^ 63"
    using length_error_reply [OF assms(3), of fmt] assms(4) by (simp del: ser.simps)
  have "\<forall>(k, v) \<in> set (resp_Extra ?r). good_value v" by (simp add: extra)
  from response_read_back [OF assms(1,2) this build [unfolded ErrorResponse_def] len]
  obtain d where d: "ParseMessage ?bytes from
      = Inr \<lparr>msg_Cookie = cookie, msg_Data = d, msg_RawBytes = ?bytes, msg_From = from\<rparr>"
    "\<And>k. map_of d k = map_option (decoded fmt) (map_of (response_dict ?r) k)"
    by blast
  have "DictGetString d ''result'' = ''error''"
    by (rule DictGetString_decoded [OF d(2)], subst response_dict_fields) (simp_all add: extra)
  moreover have "DictGetString d ''error-reason'' = reason"
    by (rule DictGetString_decoded [OF d(2)], subst response_dict_fields(2)) (simp_all add: extra assms(3))
  ultimately show ?thesis
    using build d(1) by (auto simp del: ser.simps)
qed

text \<open>C4. A request is read as it was sent: whatever dictionary with a command a client
  encodes, the server recovers the cookie, the command and the string and list parameters.\<close>

theorem request_read_back:
  fixes fmt :: "'f \<Rightarrow> nat \<Rightarrow> string"
  assumes "cookie \<noteq> []" and "CHR '' '' \<notin> set cookie"
    and "wf_value (GMap d)" and "EncodeBencode fmt (GMap d) = Inr b" and "int (length b) < 2 ^ 63"
    and "map_of d ''command'' = Some (GString c)" and "c \<noteq> []"
  shows "\<exists>(m :: 'f NGMessage) r. ParseMessage (cookie @ '' '' @ b) from = Inr m \<and> ToRequest now m = Inr r \<and>
      req_Cookie r = cookie \<and> req_Command r = c \<and> req_ReceivedFrom r = from \<and>
      (\<forall>s. map_of d ''call-id'' = Some (GString s) \<longrightarrow> req_CallID r = s) \<and>
      (\<forall>s. map_of d ''from-tag'' = Some (GString s) \<longrightarrow> req_FromTag r = s) \<and>
      (\<forall>s. map_of d ''to-tag'' = Some (GString s) \<longrightarrow> req_ToTag r = s) \<and>
      (\<forall>s. map_of d ''sdp'' = Some (GString s) \<longrightarrow> req_SDP r = s) \<and>
      (\<forall>fs. map_of d ''flags'' = Some (GList (map GString fs)) \<longrightarrow> req_Flags r = fs)"
proof -
  let ?e = "sort_key fst (map (map_prod id (decoded fmt)) d)"
  have e: "map_of ?e k = map_option (decoded fmt) (map_of d k)" for k
    using assms(3) by (intro map_of_sort_key_map_prod) simp
  have c: "DictGetString ?e ''command'' = c"
    by (rule DictGetString_decoded [OF e assms(6)])
  show ?thesis
    unfolding ParseMessage_framed [OF assms(1-5)] using assms(7)
    by (simp add: ToRequest_def Let_def c DictGetString_decoded [OF e] stringParams_decoded [OF e])
qed

theorem request_read_back_witness:
  "\<exists>(m :: unit NGMessage) r.
      ParseMessage (''7_0'' @ '' '' @ ''d7:call-id1:x7:command5:offere'') None = Inr m \<and>
      ToRequest 9 m = Inr r \<and> req_Cookie r = ''7_0'' \<and> req_Command r = ''offer'' \<and> req_CallID r = ''x''"
proof -
  let ?d = "[(''command'', GString ''offer''), (''call-id'', GString ''x'')] :: unit dict"
  have "EncodeBencode (\<lambda>_ _. []) (GMap ?d) = Inr ''d7:call-id1:x7:command5:offere''" by code_simp
  from request_read_back [OF _ _ _ this, of "''7_0''" "''offer''" None 9] show ?thesis by fastforce
qed

text \<open>C5. A datagram is accepted exactly when it is a non-empty cookie without spaces, a space
  and a bencoded dictionary, possibly followed by other bytes; without a cookie the error
  is \<^verbatim>\<open>ErrNoCookie\<close>.\<close>

theorem ParseMessage_iff:
  "(ParseMessage data from = Inr m \<longleftrightarrow>
      (\<exists>b p. data = msg_Cookie m @ '' '' @ b \<and> msg_Cookie m \<noteq> [] \<and> CHR '' '' \<notin> set (msg_Cookie m) \<and>
         Decode b = Inr (GBencodeDict (msg_Data m), p) \<and> msg_RawBytes m = data \<and> msg_From m = from)) \<and>
   (ParseMessage data from = (Inl ErrNoCookie :: message_error + 'f NGMessage) \<longleftrightarrow>
      \<not> (CHR '' '' \<in> set data \<and> hd data \<noteq> CHR '' ''))"
proof (cases "IndexByte data (CHR '' '')")
  case None
  then have "CHR '' '' \<notin> set data" by (simp only: IndexByte_None_iff) simp
  with None show ?thesis by (auto simp: ParseMessage_def)
next
  case (Some i)
  then obtain ck b where data: "data = ck @ CHR '' '' # b" "CHR '' '' \<notin> set ck" "i = length ck"
    using IndexByte_Some_split by metis
  have first: "ck @ CHR '' '' # b = ck' @ CHR '' '' # b' \<longleftrightarrow> ck = ck' \<and> b = b'"
    if "CHR '' '' \<notin> set ck'" for ck' b'
    using data(2) that by (rule append_Cons_first_eq)
  show ?thesis
  proof (cases "ck = []")
    case True
    with data Some first show ?thesis by (auto simp: ParseMessage_def)
  next
    case False
    then have "hd data \<noteq> CHR '' ''" using data by (cases ck) auto
    moreover have "ParseMessage data from = Inr m \<longleftrightarrow>
        (\<exists>p. Decode b = Inr (GBencodeDict (msg_Data m), p)) \<and>
        m = \<lparr>msg_Cookie = ck, msg_Data = msg_Data m, msg_RawBytes = data, msg_From = from\<rparr>"
      using False data Some
      by (auto simp: ParseMessage_def split: sum.splits prod.splits go_value.splits bencode_error.splits)
    moreover have "ParseMessage data from \<noteq> (Inl ErrNoCookie :: message_error + 'f NGMessage)"
      using False data Some
      by (auto simp: ParseMessage_def split: sum.splits prod.splits go_value.splits bencode_error.splits)
    ultimately show ?thesis using False data first by (cases m) auto
  qed
qed

end
