(* ===== verification/NG_Flags.thy ===== *)
theory NG_Flags
  imports Karl_Prelude
begin

text \<open>
  The flag list of an NG request, \<^verbatim>\<open>ParseFlags\<close> of \<^verbatim>\<open>internal/ng_protocol/types.go\<close>: a flag is
  either a name, which sets one boolean, or \<^verbatim>\<open>key=value\<close>. Later flags overwrite the numbers and
  strings of earlier ones, and nothing clears a boolean.
\<close>

section \<open>The parsed options\<close>

record ParsedFlags =
  pf_AsymmetricCodecs :: bool
  pf_SymmetricCodecs :: bool
  pf_Asymmetric :: bool
  pf_Symmetric :: bool
  pf_Unidirectional :: bool
  pf_StrictSource :: bool
  pf_MediaHandover :: bool
  pf_Reset :: bool
  pf_ICERemove :: bool
  pf_ICEForce :: bool
  pf_ICEForceRelay :: bool
  pf_ICELite :: bool
  pf_ICEDefault :: bool
  pf_TrickleICE :: bool
  pf_GenerateMID :: bool
  pf_DTLSOff :: bool
  pf_DTLSPassive :: bool
  pf_DTLSActive :: bool
  pf_DTLSReverse :: bool
  pf_DTLSFingerprint :: string
  pf_SDESOff :: bool
  pf_SDESOn :: bool
  pf_SDESOnly :: bool
  pf_SDESUnencryptedSRTP :: bool
  pf_SDESUnencryptedSRTCP :: bool
  pf_SDESUnauthenticated :: bool
  pf_SDESPad :: bool
  pf_SDESNoCrypto :: "string list"
  pf_ReplaceOrigin :: bool
  pf_ReplaceSessionConnection :: bool
  pf_ReplaceSDPVersion :: bool
  pf_ReplaceUsername :: bool
  pf_ReplaceSessionName :: bool
  pf_TrustAddress :: bool
  pf_SIPSourceAddress :: bool
  pf_PortLatching :: bool
  pf_NoPortLatching :: bool
  pf_OriginalSendrecv :: bool
  pf_SendOnly :: bool
  pf_RecvOnly :: bool
  pf_Inactive :: bool
  pf_SymmetricIncoming :: bool
  pf_DirectMedia :: bool
  pf_RecordCall :: bool
  pf_StartRecording :: bool
  pf_StopRecording :: bool
  pf_PauseRecording :: bool
  pf_BlockMedia :: bool
  pf_UnblockMedia :: bool
  pf_SilenceMedia :: bool
  pf_BlockDTMF :: bool
  pf_UnblockDTMF :: bool
  pf_RTCPMUX :: bool
  pf_RTCPMUXDemux :: bool
  pf_RTCPMUXAccept :: bool
  pf_RTCPMUXOffer :: bool
  pf_RTCPMUXRequire :: bool
  pf_NoRTCPAttribute :: bool
  pf_FullRTCPAttribute :: bool
  pf_GenerateRTCP :: bool
  pf_RTPAVP :: bool
  pf_RTPSAVP :: bool
  pf_RTPAVPF :: bool
  pf_RTPSAVPF :: bool
  pf_UDPTLS :: bool
  pf_LoopProtect :: bool
  pf_MediaEcho :: bool
  pf_WebRTCEnabled :: bool
  pf_TOS :: int
  pf_TOSSet :: bool
  pf_MediaTimeout :: int
  pf_SessionTimeout :: int
  pf_DeleteDelay :: int
  pf_DelayBuffer :: int
  pf_RTCPInterval :: int
  pf_T38Support :: bool
  pf_T38Gateway :: bool
  pf_T38FaxUDPEC :: bool
  pf_AlwaysTranscode :: bool
  pf_TranscodeCodecs :: "string list"
  pf_StripCodecs :: "string list"
  pf_StripAllCodecs :: bool
  pf_OfferCodecs :: "string list"
  pf_MaskCodecs :: "string list"
  pf_SetCodecs :: "string list"
  pf_ExceptCodecs :: "string list"
  pf_Ptime :: int
  pf_PtimeReverse :: bool
  pf_AddressFamily :: string
  pf_MediaAddress :: string
  pf_Interface :: string
  pf_FromInterface :: string
  pf_ToInterface :: string
  pf_ReceivedFrom :: string
  pf_Label :: string
  pf_SetLabel :: string
  pf_FromLabel :: string
  pf_ToLabel :: string
  pf_All :: bool
  pf_RecordingMetadata :: "(string \<rightharpoonup> string) option"
  pf_RecordingFile :: string
  pf_RecordingPath :: string
  pf_RecordingPattern :: string
  pf_SIPREC :: bool
  pf_ViaBranch :: string
  pf_EarlyMedia :: bool

text \<open>The composite literal \<^verbatim>\<open>ParseFlags\<close> starts from: \<open>-1\<close> marks a number that is not set.\<close>

definition ParsedFlags0 :: ParsedFlags where
  "ParsedFlags0 = \<lparr>pf_AsymmetricCodecs = False, pf_SymmetricCodecs = False,
     pf_Asymmetric = False, pf_Symmetric = False, pf_Unidirectional = False,
     pf_StrictSource = False, pf_MediaHandover = False, pf_Reset = False, pf_ICERemove = False,
     pf_ICEForce = False, pf_ICEForceRelay = False, pf_ICELite = False, pf_ICEDefault = False,
     pf_TrickleICE = False, pf_GenerateMID = False, pf_DTLSOff = False, pf_DTLSPassive = False,
     pf_DTLSActive = False, pf_DTLSReverse = False, pf_DTLSFingerprint = [], pf_SDESOff = False,
     pf_SDESOn = False, pf_SDESOnly = False, pf_SDESUnencryptedSRTP = False,
     pf_SDESUnencryptedSRTCP = False, pf_SDESUnauthenticated = False, pf_SDESPad = False,
     pf_SDESNoCrypto = [], pf_ReplaceOrigin = False, pf_ReplaceSessionConnection = False,
     pf_ReplaceSDPVersion = False, pf_ReplaceUsername = False, pf_ReplaceSessionName = False,
     pf_TrustAddress = False, pf_SIPSourceAddress = False, pf_PortLatching = False,
     pf_NoPortLatching = False, pf_OriginalSendrecv = False, pf_SendOnly = False,
     pf_RecvOnly = False, pf_Inactive = False, pf_SymmetricIncoming = False,
     pf_DirectMedia = False, pf_RecordCall = False, pf_StartRecording = False,
     pf_StopRecording = False, pf_PauseRecording = False, pf_BlockMedia = False,
     pf_UnblockMedia = False, pf_SilenceMedia = False, pf_BlockDTMF = False,
     pf_UnblockDTMF = False, pf_RTCPMUX = False, pf_RTCPMUXDemux = False, pf_RTCPMUXAccept = False,
     pf_RTCPMUXOffer = False, pf_RTCPMUXRequire = False, pf_NoRTCPAttribute = False,
     pf_FullRTCPAttribute = False, pf_GenerateRTCP = False, pf_RTPAVP = False, pf_RTPSAVP = False,
     pf_RTPAVPF = False, pf_RTPSAVPF = False, pf_UDPTLS = False, pf_LoopProtect = False,
     pf_MediaEcho = False, pf_WebRTCEnabled = False, pf_TOS = -1, pf_TOSSet = False,
     pf_MediaTimeout = -1, pf_SessionTimeout = -1, pf_DeleteDelay = -1, pf_DelayBuffer = -1,
     pf_RTCPInterval = -1, pf_T38Support = False, pf_T38Gateway = False, pf_T38FaxUDPEC = False,
     pf_AlwaysTranscode = False, pf_TranscodeCodecs = [], pf_StripCodecs = [],
     pf_StripAllCodecs = False, pf_OfferCodecs = [], pf_MaskCodecs = [], pf_SetCodecs = [],
     pf_ExceptCodecs = [], pf_Ptime = -1, pf_PtimeReverse = False, pf_AddressFamily = [],
     pf_MediaAddress = [], pf_Interface = [], pf_FromInterface = [], pf_ToInterface = [],
     pf_ReceivedFrom = [], pf_Label = [], pf_SetLabel = [], pf_FromLabel = [], pf_ToLabel = [],
     pf_All = False, pf_RecordingMetadata = None, pf_RecordingFile = [], pf_RecordingPath = [],
     pf_RecordingPattern = [], pf_SIPREC = False, pf_ViaBranch = [], pf_EarlyMedia = False\<rparr>"

definition simpleFlag :: "ParsedFlags \<Rightarrow> string \<Rightarrow> ParsedFlags" where
  "simpleFlag pf flag =
     (if flag = ''asymmetric-codecs'' then pf\<lparr>pf_AsymmetricCodecs := True\<rparr>
      else if flag = ''symmetric-codecs'' then pf\<lparr>pf_SymmetricCodecs := True\<rparr>
      else if flag = ''asymmetric'' then pf\<lparr>pf_Asymmetric := True\<rparr>
      else if flag = ''symmetric'' then pf\<lparr>pf_Symmetric := True\<rparr>
      else if flag = ''unidirectional'' then pf\<lparr>pf_Unidirectional := True\<rparr>
      else if flag = ''strict-source'' then pf\<lparr>pf_StrictSource := True\<rparr>
      else if flag = ''media-handover'' then pf\<lparr>pf_MediaHandover := True\<rparr>
      else if flag = ''reset'' then pf\<lparr>pf_Reset := True\<rparr>
      else if flag = ''no-ice'' then pf\<lparr>pf_ICERemove := True\<rparr>
      else if flag = ''force-ice'' then pf\<lparr>pf_ICEForce := True\<rparr>
      else if flag \<in> {''ICE-lite'', ''ice-lite''} then pf\<lparr>pf_ICELite := True\<rparr>
      else if flag = ''trickle-ice'' then pf\<lparr>pf_TrickleICE := True\<rparr>
      else if flag = ''generate-mid'' then pf\<lparr>pf_GenerateMID := True\<rparr>
      else if flag \<in> {''DTLS-passive'', ''dtls-passive''} then pf\<lparr>pf_DTLSPassive := True\<rparr>
      else if flag \<in> {''DTLS-active'', ''dtls-active''} then pf\<lparr>pf_DTLSActive := True\<rparr>
      else if flag \<in> {''DTLS-off'', ''dtls-off'', ''no-dtls''} then pf\<lparr>pf_DTLSOff := True\<rparr>
      else if flag \<in> {''DTLS-reverse'', ''dtls-reverse''} then pf\<lparr>pf_DTLSReverse := True\<rparr>
      else if flag \<in> {''SDES-off'', ''sdes-off'', ''no-sdes''} then pf\<lparr>pf_SDESOff := True\<rparr>
      else if flag \<in> {''SDES-on'', ''sdes-on''} then pf\<lparr>pf_SDESOn := True\<rparr>
      else if flag \<in> {''SDES-only'', ''sdes-only''} then pf\<lparr>pf_SDESOnly := True\<rparr>
      else if flag \<in> {''SDES-unencrypted_srtp'', ''unencrypted-srtp''} then pf\<lparr>pf_SDESUnencryptedSRTP := True\<rparr>
      else if flag \<in> {''SDES-unencrypted_srtcp'', ''unencrypted-srtcp''} then pf\<lparr>pf_SDESUnencryptedSRTCP := True\<rparr>
      else if flag = ''SDES-unauthenticated'' then pf\<lparr>pf_SDESUnauthenticated := True\<rparr>
      else if flag = ''SDES-pad'' then pf\<lparr>pf_SDESPad := True\<rparr>
      else if flag = ''replace-origin'' then pf\<lparr>pf_ReplaceOrigin := True\<rparr>
      else if flag = ''replace-session-connection'' then pf\<lparr>pf_ReplaceSessionConnection := True\<rparr>
      else if flag = ''replace-sdp-version'' then pf\<lparr>pf_ReplaceSDPVersion := True\<rparr>
      else if flag = ''replace-username'' then pf\<lparr>pf_ReplaceUsername := True\<rparr>
      else if flag = ''replace-session-name'' then pf\<lparr>pf_ReplaceSessionName := True\<rparr>
      else if flag = ''trust-address'' then pf\<lparr>pf_TrustAddress := True\<rparr>
      else if flag \<in> {''SIP-source-address'', ''sip-source-address''} then pf\<lparr>pf_SIPSourceAddress := True\<rparr>
      else if flag = ''port-latching'' then pf\<lparr>pf_PortLatching := True\<rparr>
      else if flag = ''no-port-latching'' then pf\<lparr>pf_NoPortLatching := True\<rparr>
      else if flag = ''original-sendrecv'' then pf\<lparr>pf_OriginalSendrecv := True\<rparr>
      else if flag \<in> {''sendonly'', ''send-only''} then pf\<lparr>pf_SendOnly := True\<rparr>
      else if flag \<in> {''recvonly'', ''recv-only''} then pf\<lparr>pf_RecvOnly := True\<rparr>
      else if flag = ''inactive'' then pf\<lparr>pf_Inactive := True\<rparr>
      else if flag = ''symmetric-incoming'' then pf\<lparr>pf_SymmetricIncoming := True\<rparr>
      else if flag = ''direct-media'' then pf\<lparr>pf_DirectMedia := True\<rparr>
      else if flag = ''record-call'' then pf\<lparr>pf_RecordCall := True\<rparr>
      else if flag = ''start-recording'' then pf\<lparr>pf_StartRecording := True\<rparr>
      else if flag = ''stop-recording'' then pf\<lparr>pf_StopRecording := True\<rparr>
      else if flag = ''pause-recording'' then pf\<lparr>pf_PauseRecording := True\<rparr>
      else if flag \<in> {''SIPREC'', ''siprec''} then pf\<lparr>pf_SIPREC := True\<rparr>
      else if flag = ''block-media'' then pf\<lparr>pf_BlockMedia := True\<rparr>
      else if flag = ''unblock-media'' then pf\<lparr>pf_UnblockMedia := True\<rparr>
      else if flag = ''silence-media'' then pf\<lparr>pf_SilenceMedia := True\<rparr>
      else if flag = ''block-dtmf'' then pf\<lparr>pf_BlockDTMF := True\<rparr>
      else if flag = ''unblock-dtmf'' then pf\<lparr>pf_UnblockDTMF := True\<rparr>
      else if flag = ''rtcp-mux'' then pf\<lparr>pf_RTCPMUX := True\<rparr>
      else if flag = ''rtcp-mux-demux'' then pf\<lparr>pf_RTCPMUXDemux := True\<rparr>
      else if flag = ''rtcp-mux-accept'' then pf\<lparr>pf_RTCPMUXAccept := True\<rparr>
      else if flag = ''rtcp-mux-offer'' then pf\<lparr>pf_RTCPMUXOffer := True\<rparr>
      else if flag = ''rtcp-mux-require'' then pf\<lparr>pf_RTCPMUXRequire := True\<rparr>
      else if flag = ''no-rtcp-attribute'' then pf\<lparr>pf_NoRTCPAttribute := True\<rparr>
      else if flag = ''full-rtcp-attribute'' then pf\<lparr>pf_FullRTCPAttribute := True\<rparr>
      else if flag = ''generate-rtcp'' then pf\<lparr>pf_GenerateRTCP := True\<rparr>
      else if flag = ''RTP/AVP'' then pf\<lparr>pf_RTPAVP := True\<rparr>
      else if flag = ''RTP/SAVP'' then pf\<lparr>pf_RTPSAVP := True\<rparr>
      else if flag = ''RTP/AVPF'' then pf\<lparr>pf_RTPAVPF := True\<rparr>
      else if flag = ''RTP/SAVPF'' then pf\<lparr>pf_RTPSAVPF := True\<rparr>
      else if flag \<in> {''UDP/TLS/RTP/SAVPF'', ''UDP/TLS/RTP/SAVP''} then pf\<lparr>pf_UDPTLS := True\<rparr>
      else if flag = ''loop-protect'' then pf\<lparr>pf_LoopProtect := True\<rparr>
      else if flag = ''media-echo'' then pf\<lparr>pf_MediaEcho := True\<rparr>
      else if flag = ''webrtc'' then pf\<lparr>pf_WebRTCEnabled := True\<rparr>
      else if flag \<in> {''T.38'', ''t38'', ''T38''} then pf\<lparr>pf_T38Support := True\<rparr>
      else if flag \<in> {''T.38-gateway'', ''t38-gateway''} then pf\<lparr>pf_T38Gateway := True\<rparr>
      else if flag = ''T.38-fax-udp-ec'' then pf\<lparr>pf_T38FaxUDPEC := True\<rparr>
      else if flag = ''always-transcode'' then pf\<lparr>pf_AlwaysTranscode := True\<rparr>
      else if flag \<in> {''codec-strip-all'', ''strip-all-codecs''} then pf\<lparr>pf_StripAllCodecs := True\<rparr>
      else if flag = ''ptime-reverse'' then pf\<lparr>pf_PtimeReverse := True\<rparr>
      else if flag = ''all'' then pf\<lparr>pf_All := True\<rparr>
      else if flag = ''early-media'' then pf\<lparr>pf_EarlyMedia := True\<rparr>
      else pf)"

section \<open>Helpers\<close>

text \<open>\<^verbatim>\<open>indexOf\<close>: the first position of a substring, or \<open>-1\<close>; \<open>i\<close> is the loop counter.\<close>

fun indexOf_from :: "nat \<Rightarrow> string \<Rightarrow> string \<Rightarrow> int" where
  "indexOf_from i s substr =
     (if length s < length substr then -1
      else if take (length substr) s = substr then int i
      else (case s of [] \<Rightarrow> -1 | _ # s' \<Rightarrow> indexOf_from (Suc i) s' substr))"

declare indexOf_from.simps [simp del]

definition indexOf :: "string \<Rightarrow> string \<Rightarrow> int" where
  "indexOf s substr = indexOf_from 0 s substr"

text \<open>
  \<^verbatim>\<open>parseIntValue\<close>: the accumulator is a 64-bit \<^verbatim>\<open>int\<close> and wraps. A byte outside \<^verbatim>\<open>0\<close>..\<^verbatim>\<open>9\<close>,
  alone or as part of a longer rune, ends the loop with \<open>-1\<close>.
\<close>

fun parseIntLoop :: "int \<Rightarrow> string \<Rightarrow> int" where
  "parseIntLoop v [] = v"
| "parseIntLoop v (c # s) =
     (if \<not> is_digit c then -1
      else parseIntLoop (wrap64 (wrap64 (v * 10) + digit_val c)) s)"

definition parseIntValue :: "string \<Rightarrow> int" where
  "parseIntValue s = parseIntLoop 0 s"

section \<open>The parser\<close>

definition parseKeyValueFlag :: "ParsedFlags \<Rightarrow> string \<Rightarrow> string \<Rightarrow> ParsedFlags" where
  "parseKeyValueFlag pf key value =
     (if key = ''ICE'' then
         (if value = ''remove'' then pf\<lparr>pf_ICERemove := True\<rparr>
          else if value = ''force'' then pf\<lparr>pf_ICEForce := True\<rparr>
          else if value = ''force-relay'' then pf\<lparr>pf_ICEForceRelay := True\<rparr>
          else if value = ''default'' then pf\<lparr>pf_ICEDefault := True\<rparr>
          else if value = ''lite'' then pf\<lparr>pf_ICELite := True\<rparr>
          else pf)
      else if key = ''DTLS'' then
         (if value = ''off'' then pf\<lparr>pf_DTLSOff := True\<rparr>
          else if value = ''passive'' then pf\<lparr>pf_DTLSPassive := True\<rparr>
          else if value = ''active'' then pf\<lparr>pf_DTLSActive := True\<rparr>
          else pf)
      else if key = ''SDES'' then
         (if value = ''off'' then pf\<lparr>pf_SDESOff := True\<rparr>
          else if value = ''on'' then pf\<lparr>pf_SDESOn := True\<rparr>
          else if value = ''only'' then pf\<lparr>pf_SDESOnly := True\<rparr>
          else pf)
      else if key \<in> {''TOS'', ''tos''} then
         (let v = parseIntValue value in if v \<ge> 0 then pf\<lparr>pf_TOS := v, pf_TOSSet := True\<rparr> else pf)
      else if key = ''media-timeout'' then
         (let v = parseIntValue value in if v \<ge> 0 then pf\<lparr>pf_MediaTimeout := v\<rparr> else pf)
      else if key = ''session-timeout'' then
         (let v = parseIntValue value in if v \<ge> 0 then pf\<lparr>pf_SessionTimeout := v\<rparr> else pf)
      else if key = ''delete-delay'' then
         (let v = parseIntValue value in if v \<ge> 0 then pf\<lparr>pf_DeleteDelay := v\<rparr> else pf)
      else if key = ''delay-buffer'' then
         (let v = parseIntValue value in if v \<ge> 0 then pf\<lparr>pf_DelayBuffer := v\<rparr> else pf)
      else if key \<in> {''frequency'', ''rtcp-interval''} then
         (let v = parseIntValue value in if v \<ge> 0 then pf\<lparr>pf_RTCPInterval := v\<rparr> else pf)
      else if key = ''ptime'' then
         (let v = parseIntValue value in if v > 0 then pf\<lparr>pf_Ptime := v\<rparr> else pf)
      else if key = ''address-family'' then pf\<lparr>pf_AddressFamily := value\<rparr>
      else if key = ''media-address'' then pf\<lparr>pf_MediaAddress := value\<rparr>
      else if key = ''interface'' then pf\<lparr>pf_Interface := value\<rparr>
      else if key = ''from-interface'' then pf\<lparr>pf_FromInterface := value\<rparr>
      else if key = ''to-interface'' then pf\<lparr>pf_ToInterface := value\<rparr>
      else if key = ''received-from'' then pf\<lparr>pf_ReceivedFrom := value\<rparr>
      else if key = ''label'' then pf\<lparr>pf_Label := value\<rparr>
      else if key = ''set-label'' then pf\<lparr>pf_SetLabel := value\<rparr>
      else if key = ''from-label'' then pf\<lparr>pf_FromLabel := value\<rparr>
      else if key = ''to-label'' then pf\<lparr>pf_ToLabel := value\<rparr>
      else if key = ''via-branch'' then pf\<lparr>pf_ViaBranch := value\<rparr>
      else if key = ''recording-file'' then pf\<lparr>pf_RecordingFile := value\<rparr>
      else if key = ''recording-path'' then pf\<lparr>pf_RecordingPath := value\<rparr>
      else if key = ''recording-pattern'' then pf\<lparr>pf_RecordingPattern := value\<rparr>
      else if key \<in> {''codec-strip'', ''strip-codec''} then
         pf\<lparr>pf_StripCodecs := pf_StripCodecs pf @ [value]\<rparr>
      else if key \<in> {''codec-offer'', ''offer-codec''} then
         pf\<lparr>pf_OfferCodecs := pf_OfferCodecs pf @ [value]\<rparr>
      else if key \<in> {''codec-mask'', ''mask-codec''} then
         pf\<lparr>pf_MaskCodecs := pf_MaskCodecs pf @ [value]\<rparr>
      else if key \<in> {''codec-transcode'', ''transcode''} then
         pf\<lparr>pf_TranscodeCodecs := pf_TranscodeCodecs pf @ [value]\<rparr>
      else if key = ''codec-set'' then
         pf\<lparr>pf_SetCodecs := pf_SetCodecs pf @ [value]\<rparr>
      else if key = ''codec-except'' then
         pf\<lparr>pf_ExceptCodecs := pf_ExceptCodecs pf @ [value]\<rparr>
      else if key = ''DTLS-fingerprint'' then pf\<lparr>pf_DTLSFingerprint := value\<rparr>
      else if key = ''SDES-no'' then
         pf\<lparr>pf_SDESNoCrypto := pf_SDESNoCrypto pf @ [value]\<rparr>
      else pf)"

definition parseFlag :: "ParsedFlags \<Rightarrow> string \<Rightarrow> ParsedFlags" where
  "parseFlag pf flag =
     (let idx = indexOf flag ''='' in
      if idx > 0 then parseKeyValueFlag pf (take (nat idx) flag) (drop (nat idx + 1) flag)
      else simpleFlag pf flag)"

definition ParseFlags :: "string list \<Rightarrow> ParsedFlags" where
  "ParseFlags flags = foldl parseFlag ParsedFlags0 flags"

section \<open>Lemmas\<close>

text \<open>Searching for a single character is \<^const>\<open>IndexByte\<close>.\<close>

lemma indexOf_from_char:
  "indexOf_from i s [c] = (case IndexByte s c of None \<Rightarrow> -1 | Some k \<Rightarrow> int (i + k))"
proof (induction s arbitrary: i)
  case (Cons x s)
  then show ?case by (subst indexOf_from.simps) (auto split: option.splits)
qed (simp add: indexOf_from.simps)

lemma indexOf_char: "indexOf s [c] = (case IndexByte s c of None \<Rightarrow> -1 | Some k \<Rightarrow> int k)"
  by (simp add: indexOf_def indexOf_from_char split: option.splits)

lemma parseFlag_simple: "CHR ''='' \<notin> set flag \<Longrightarrow> parseFlag pf flag = simpleFlag pf flag"
  by (simp add: parseFlag_def indexOf_char iffD2 [OF IndexByte_None_iff])

lemma parseFlag_key_value:
  "CHR ''='' \<notin> set key \<Longrightarrow> key \<noteq> [] \<Longrightarrow>
     parseFlag pf (key @ CHR ''='' # value) = parseKeyValueFlag pf key value"
  by (simp add: parseFlag_def indexOf_char IndexByte_append Let_def)

text \<open>The shapes a flag can have, and what \<open>parseFlag\<close> does with each.\<close>

lemma flag_cases:
  obtains "CHR ''='' \<notin> set flag"
  | k v where "flag = k @ CHR ''='' # v" "CHR ''='' \<notin> set k" "k \<noteq> []"
  | v where "flag = CHR ''='' # v"
proof (cases "IndexByte flag (CHR ''='')")
  case None
  then show ?thesis using that(1) by (simp only: IndexByte_None_iff) simp
next
  case (Some i)
  then obtain k v where "flag = k @ CHR ''='' # v" "CHR ''='' \<notin> set k"
    using IndexByte_Some_split by metis
  then show ?thesis using that(2,3) by (cases "k = []") auto
qed

lemma if_plain_cong: "b = c \<Longrightarrow> x = u \<Longrightarrow> y = v \<Longrightarrow> (if b then x else y) = (if c then u else v)"
  by simp

lemma parseFlag_leading_eq: "parseFlag pf (CHR ''='' # v) = simpleFlag pf (CHR ''='' # v)"
  by (simp add: parseFlag_def indexOf_char)

lemma foldl_keeps:
  assumes "\<And>pf f. I pf \<Longrightarrow> I (parseFlag pf f)"
  shows "I pf \<Longrightarrow> I (foldl parseFlag pf fs)"
  by (induction fs arbitrary: pf) (auto simp: assms)

text \<open>
  What a boolean option promises: it starts unset, the plain flags in \<open>N\<close> and the pairs in
  \<open>K\<close> set it, and nothing else changes it. The parser then sets it exactly when one of those
  flags occurs.
\<close>

locale bool_option =
  fixes opt :: "ParsedFlags \<Rightarrow> bool" and N :: "string set" and K :: "(string \<times> string) set"
  assumes unset: "\<not> opt ParsedFlags0"
    and simple: "opt (simpleFlag pf f) \<longleftrightarrow> opt pf \<or> f \<in> N"
    and key_value: "opt (parseKeyValueFlag pf k v) \<longleftrightarrow> opt pf \<or> (k, v) \<in> K"
    and plain: "f \<in> N \<Longrightarrow> CHR ''='' \<notin> set f"
    and keys: "(k, v) \<in> K \<Longrightarrow> k \<noteq> [] \<and> CHR ''='' \<notin> set k"
begin

definition sets :: "string \<Rightarrow> bool" where
  "sets f \<longleftrightarrow> f \<in> N \<or> (\<exists>k v. (k, v) \<in> K \<and> f = k @ CHR ''='' # v)"

lemma parseFlag_opt: "opt (parseFlag pf f) \<longleftrightarrow> opt pf \<or> sets f"
proof (cases f rule: flag_cases)
  case 1
  then show ?thesis by (auto simp: parseFlag_simple simple sets_def)
next
  case (2 k v)
  moreover have "f \<notin> N" using 2(1) plain [of f] by auto
  moreover have "k' = k \<and> v' = v" if "(k', v') \<in> K" "f = k' @ CHR ''='' # v'" for k' v'
    using append_Cons_first_eq [OF 2(2), of k' v v'] keys [OF that(1)] that(2) 2(1) by simp
  then have "(\<exists>k' v'. (k', v') \<in> K \<and> f = k' @ CHR ''='' # v') \<longleftrightarrow> (k, v) \<in> K"
    using 2(1) by metis
  ultimately show ?thesis by (simp add: parseFlag_key_value key_value sets_def)
next
  case (3 v)
  moreover have "f \<notin> N" using 3 plain [of f] by auto
  moreover have "f \<noteq> k @ CHR ''='' # v'" if "(k, v') \<in> K" for k v'
    using 3 keys [OF that] by (cases k) auto
  then have "\<not> sets f" using \<open>f \<notin> N\<close> by (auto simp: sets_def)
  ultimately show ?thesis by (simp add: parseFlag_leading_eq simple)
qed

lemma foldl_opt: "opt (foldl parseFlag pf fs) \<longleftrightarrow> opt pf \<or> (\<exists>f \<in> set fs. sets f)"
  by (induction fs arbitrary: pf) (auto simp: parseFlag_opt)

lemma ParseFlags_opt: "opt (ParseFlags fs) \<longleftrightarrow> (\<exists>f \<in> set fs. sets f)"
  by (simp add: ParseFlags_def foldl_opt unset)

end

interpretation ice_remove: bool_option pf_ICERemove "{''no-ice''}" "{(''ICE'', ''remove'')}"
proof
  fix pf f
  show "pf_ICERemove (simpleFlag pf f) \<longleftrightarrow> pf_ICERemove pf \<or> f \<in> {''no-ice''}"
  proof (cases "f \<in> {''no-ice''}")
    case False
    then show ?thesis unfolding simpleFlag_def if_distrib [of pf_ICERemove]
      by (simp cong: if_plain_cong split del: if_split)
  next
    case True
    then show ?thesis by (elim insertE emptyE; hypsubst; simp add: simpleFlag_def)
  qed
next
  fix pf k v
  show "pf_ICERemove (parseKeyValueFlag pf k v) \<longleftrightarrow> pf_ICERemove pf \<or> (k, v) \<in> {(''ICE'', ''remove'')}"
    by (simp add: parseKeyValueFlag_def Let_def)
qed (auto simp: ParsedFlags0_def)

interpretation dtls_off: bool_option pf_DTLSOff "{''DTLS-off'', ''dtls-off'', ''no-dtls''}" "{(''DTLS'', ''off'')}"
proof
  fix pf f
  show "pf_DTLSOff (simpleFlag pf f) \<longleftrightarrow> pf_DTLSOff pf \<or> f \<in> {''DTLS-off'', ''dtls-off'', ''no-dtls''}"
  proof (cases "f \<in> {''DTLS-off'', ''dtls-off'', ''no-dtls''}")
    case False
    then show ?thesis unfolding simpleFlag_def if_distrib [of pf_DTLSOff]
      by (simp cong: if_plain_cong split del: if_split)
  next
    case True
    then show ?thesis by (elim insertE emptyE; hypsubst; simp add: simpleFlag_def)
  qed
next
  fix pf k v
  show "pf_DTLSOff (parseKeyValueFlag pf k v) \<longleftrightarrow> pf_DTLSOff pf \<or> (k, v) \<in> {(''DTLS'', ''off'')}"
    by (simp add: parseKeyValueFlag_def Let_def)
qed (auto simp: ParsedFlags0_def)

interpretation sdes_off: bool_option pf_SDESOff "{''SDES-off'', ''sdes-off'', ''no-sdes''}" "{(''SDES'', ''off'')}"
proof
  fix pf f
  show "pf_SDESOff (simpleFlag pf f) \<longleftrightarrow> pf_SDESOff pf \<or> f \<in> {''SDES-off'', ''sdes-off'', ''no-sdes''}"
  proof (cases "f \<in> {''SDES-off'', ''sdes-off'', ''no-sdes''}")
    case False
    then show ?thesis unfolding simpleFlag_def if_distrib [of pf_SDESOff]
      by (simp cong: if_plain_cong split del: if_split)
  next
    case True
    then show ?thesis by (elim insertE emptyE; hypsubst; simp add: simpleFlag_def)
  qed
next
  fix pf k v
  show "pf_SDESOff (parseKeyValueFlag pf k v) \<longleftrightarrow> pf_SDESOff pf \<or> (k, v) \<in> {(''SDES'', ''off'')}"
    by (simp add: parseKeyValueFlag_def Let_def)
qed (auto simp: ParsedFlags0_def)

interpretation record_call: bool_option pf_RecordCall "{''record-call''}" "{}"
proof
  fix pf f
  show "pf_RecordCall (simpleFlag pf f) \<longleftrightarrow> pf_RecordCall pf \<or> f \<in> {''record-call''}"
  proof (cases "f \<in> {''record-call''}")
    case False
    then show ?thesis unfolding simpleFlag_def if_distrib [of pf_RecordCall]
      by (simp cong: if_plain_cong split del: if_split)
  next
    case True
    then show ?thesis by (elim insertE emptyE; hypsubst; simp add: simpleFlag_def)
  qed
next
  fix pf k v
  show "pf_RecordCall (parseKeyValueFlag pf k v) \<longleftrightarrow> pf_RecordCall pf \<or> (k, v) \<in> {}"
    by (simp add: parseKeyValueFlag_def Let_def)
qed (auto simp: ParsedFlags0_def)

interpretation strict_source: bool_option pf_StrictSource "{''strict-source''}" "{}"
proof
  fix pf f
  show "pf_StrictSource (simpleFlag pf f) \<longleftrightarrow> pf_StrictSource pf \<or> f \<in> {''strict-source''}"
  proof (cases "f \<in> {''strict-source''}")
    case False
    then show ?thesis unfolding simpleFlag_def if_distrib [of pf_StrictSource]
      by (simp cong: if_plain_cong split del: if_split)
  next
    case True
    then show ?thesis by (elim insertE emptyE; hypsubst; simp add: simpleFlag_def)
  qed
next
  fix pf k v
  show "pf_StrictSource (parseKeyValueFlag pf k v) \<longleftrightarrow> pf_StrictSource pf \<or> (k, v) \<in> {}"
    by (simp add: parseKeyValueFlag_def Let_def)
qed (auto simp: ParsedFlags0_def)

text \<open>The numeric options: \<open>-1\<close> or a value that was given.\<close>

definition flags_ok :: "ParsedFlags \<Rightarrow> bool" where
  "flags_ok pf \<longleftrightarrow>
     -1 \<le> pf_TOS pf \<and> (pf_TOSSet pf \<longleftrightarrow> 0 \<le> pf_TOS pf) \<and> -1 \<le> pf_MediaTimeout pf \<and>
     -1 \<le> pf_SessionTimeout pf \<and> -1 \<le> pf_DeleteDelay pf \<and> -1 \<le> pf_DelayBuffer pf \<and>
     -1 \<le> pf_RTCPInterval pf \<and> (pf_Ptime pf = -1 \<or> 0 < pf_Ptime pf)"

lemma flags_ok_init: "flags_ok ParsedFlags0"
  by (simp add: flags_ok_def ParsedFlags0_def)

lemma flags_ok_simpleFlag: "flags_ok (simpleFlag pf f) = flags_ok pf"
  unfolding simpleFlag_def if_distrib [of flags_ok]
  by (simp add: flags_ok_def cong: if_plain_cong split del: if_split)

lemma flags_ok_parseKeyValueFlag: "flags_ok pf \<Longrightarrow> flags_ok (parseKeyValueFlag pf k v)"
  unfolding parseKeyValueFlag_def Let_def if_distrib [of flags_ok]
  by (simp add: flags_ok_def cong: if_plain_cong split del: if_split) auto

lemma flags_ok_parseFlag [wf_intros]: "flags_ok pf \<Longrightarrow> flags_ok (parseFlag pf f)"
  by (simp add: parseFlag_def Let_def flags_ok_simpleFlag flags_ok_parseKeyValueFlag)

text \<open>The wrapped accumulator is the exact value, wrapped once at the end.\<close>

lemma wrap64_step: "wrap64 (wrap64 (wrap64 v * 10) + d) = wrap64 (10 * v + d)"
proof -
  have "((x + h) mod M - h) mod M = x mod M" for x h M :: int
    by (simp add: mod_diff_left_eq)
  then have m: "wrap64 x mod 2 ^ 64 = x mod 2 ^ 64" for x
    unfolding wrap64_def .
  have "(wrap64 (wrap64 v * 10) + d + 2 ^ 63) mod 2 ^ 64
      = (wrap64 v * 10 + (d + 2 ^ 63)) mod 2 ^ 64"
    unfolding add.assoc by (metis m mod_add_left_eq)
  also have "\<dots> = (10 * v + d + 2 ^ 63) mod 2 ^ 64"
    unfolding add.assoc by (metis m mod_add_left_eq mod_mult_left_eq mult.commute)
  finally show ?thesis
    by (simp only: wrap64_def [of "wrap64 (wrap64 v * 10) + d"] wrap64_def [of "10 * v + d"])
qed

lemma parseIntLoop_eq:
  "parseIntLoop (wrap64 v) s =
     (if list_all is_digit s then wrap64 (foldl (\<lambda>v c. 10 * v + digit_val c) v s) else -1)"
  by (induction s arbitrary: v) (auto simp: wrap64_step)

section \<open>Properties of the flags\<close>

text \<open>The security switches are set exactly by their own flags: ICE is removed, DTLS or
  SDES is turned off, a call is recorded or its source checked strictly if and only if one
  of the spellings the protocol has for it occurs in the list.\<close>

lemma ParseFlags_switches:
  "(pf_ICERemove (ParseFlags fs) \<longleftrightarrow> ''no-ice'' \<in> set fs \<or> ''ICE=remove'' \<in> set fs) \<and>
   (pf_DTLSOff (ParseFlags fs) \<longleftrightarrow> ''DTLS-off'' \<in> set fs \<or> ''dtls-off'' \<in> set fs \<or>
     ''no-dtls'' \<in> set fs \<or> ''DTLS=off'' \<in> set fs) \<and>
   (pf_SDESOff (ParseFlags fs) \<longleftrightarrow> ''SDES-off'' \<in> set fs \<or> ''sdes-off'' \<in> set fs \<or>
     ''no-sdes'' \<in> set fs \<or> ''SDES=off'' \<in> set fs) \<and>
   (pf_RecordCall (ParseFlags fs) \<longleftrightarrow> ''record-call'' \<in> set fs) \<and>
   (pf_StrictSource (ParseFlags fs) \<longleftrightarrow> ''strict-source'' \<in> set fs)"
  unfolding ice_remove.ParseFlags_opt dtls_off.ParseFlags_opt sdes_off.ParseFlags_opt
    record_call.ParseFlags_opt strict_source.ParseFlags_opt
  by (auto simp: ice_remove.sets_def dtls_off.sets_def sdes_off.sets_def record_call.sets_def
      strict_source.sets_def)

text \<open>C6. Whatever the flags are, every numeric option is either unset (\<open>-1\<close>) or
  non-negative, the packet time is unset or positive, and \<^verbatim>\<open>TOSSet\<close> says whether a TOS
  value is present.\<close>

theorem ParseFlags_numbers: "flags_ok (ParseFlags fs)"
  unfolding ParseFlags_def
  by (rule foldl_keeps [where I = flags_ok]) (rule flags_ok_parseFlag, assumption, rule flags_ok_init)

text \<open>\<^verbatim>\<open>parseIntValue\<close> rejects every string with a non-digit, and otherwise returns
  the decimal value reduced to the 64-bit range: the empty string counts as \<open>0\<close>, and a
  number of 20 digits is not rejected but wraps around.\<close>

lemma parseIntValue_spec:
  "parseIntValue s = (if list_all is_digit s then wrap64 (digits_val s) else -1) \<and>
   parseIntValue [] = 0 \<and> parseIntValue ''18446744073709551621'' = 5"
proof (intro conjI)
  show "parseIntValue s = (if list_all is_digit s then wrap64 (digits_val s) else -1)"
    using parseIntLoop_eq [of 0 s] by (simp add: parseIntValue_def digits_val_def)
  show "parseIntValue [] = 0" by (simp add: parseIntValue_def)
  show "parseIntValue ''18446744073709551621'' = 5" by code_simp
qed

end
