(* ===== verification/SDP.thy ===== *)
theory SDP
  imports NG_Flags
begin

text \<open>
  The session descriptions of the NG listener, the second half of
  \<^verbatim>\<open>internal/ng_socket_listener.go\<close>: splitting a description into lines and fields,
  reading it (\<^verbatim>\<open>parseSDP\<close>), and writing the one the server answers with
  (\<^verbatim>\<open>buildResponseSDP\<close>). The loops over an index are recursions that carry the part of the
  line or field read so far; \<^verbatim>\<open>indexOf\<close> is the same loop as in \<^verbatim>\<open>ng_protocol/types.go\<close>.
\<close>

section \<open>Types\<close>

record sdpCodecInfo =
  sc_PayloadType :: u8
  sc_Name :: string
  sc_ClockRate :: u32
  sc_Channels :: int
  sc_Fmtp :: string

record parsedSDPInfo =
  sdp_MediaType :: string
  sdp_MediaPort :: int
  sdp_Protocol :: string
  sdp_ConnectionIP :: string
  sdp_HasICE :: bool
  sdp_ICEUfrag :: string
  sdp_ICEPwd :: string
  sdp_HasDTLS :: bool
  sdp_Fingerprint :: string
  sdp_Setup :: string
  sdp_HasSRTP :: bool
  sdp_CryptoSuite :: string
  sdp_CryptoKey :: string
  sdp_RTCPMux :: bool
  sdp_Direction :: string
  sdp_Codecs :: "sdpCodecInfo list"

section \<open>String helpers\<close>

abbreviation CR :: char where "CR \<equiv> CHR 0x0D"
abbreviation LF :: char where "LF \<equiv> CHR 0x0A"
abbreviation TAB :: char where "TAB \<equiv> CHR 0x09"

definition emitLine :: "string \<Rightarrow> string list" where
  "emitLine line =
     (let l = (if line \<noteq> [] \<and> last line = CR then butlast line else line) in
      if l \<noteq> [] then [l] else [])"

fun splitLinesLoop :: "string \<Rightarrow> string \<Rightarrow> string list" where
  "splitLinesLoop line [] = emitLine line"
| "splitLinesLoop line (c # s) =
     (if c = LF then emitLine line @ splitLinesLoop [] s else splitLinesLoop (line @ [c]) s)"

definition splitSDPLines :: "string \<Rightarrow> string list" where
  "splitSDPLines sdp = splitLinesLoop [] sdp"

definition isBlank :: "char \<Rightarrow> bool" where
  "isBlank c \<longleftrightarrow> c = CHR '' '' \<or> c = TAB"

text \<open>The flag \<^verbatim>\<open>inField\<close> says that the current field is not empty.\<close>

fun splitFieldsLoop :: "string \<Rightarrow> string \<Rightarrow> string list" where
  "splitFieldsLoop field [] = (if field \<noteq> [] then [field] else [])"
| "splitFieldsLoop field (c # s) =
     (if isBlank c then (if field \<noteq> [] then [field] else []) @ splitFieldsLoop [] s
      else splitFieldsLoop (field @ [c]) s)"

definition splitFields :: "string \<Rightarrow> string list" where
  "splitFields s = splitFieldsLoop [] s"

text \<open>Every call of \<^verbatim>\<open>splitBy\<close> passes a separator of one character.\<close>

fun splitByLoop :: "string \<Rightarrow> string \<Rightarrow> char \<Rightarrow> string list" where
  "splitByLoop part [] sep = [part]"
| "splitByLoop part (c # s) sep =
     (if c = sep then part # splitByLoop [] s sep else splitByLoop (part @ [c]) s sep)"

definition splitBy :: "string \<Rightarrow> char \<Rightarrow> string list" where
  "splitBy s sep = splitByLoop [] s sep"

definition hasPrefix :: "string \<Rightarrow> string \<Rightarrow> bool" where
  "hasPrefix s p \<longleftrightarrow> length s \<ge> length p \<and> take (length p) s = p"

fun parseDigits :: "int \<Rightarrow> string \<Rightarrow> int" where
  "parseDigits v [] = v"
| "parseDigits v (c # s) =
     (if is_digit c then parseDigits (wrap64 (wrap64 (v * 10) + digit_val c)) s else v)"

definition parseInt :: "string \<Rightarrow> int" where
  "parseInt s = parseDigits 0 s"

fun intDigits :: "nat \<Rightarrow> string" where
  "intDigits n = (if n > 0 then digit_char (n mod 10) # intDigits (n div 10) else [])"

declare intDigits.simps [simp del]

definition intToString :: "int \<Rightarrow> string" where
  "intToString n = (if n = 0 then ''0'' else rev (intDigits (nat n)))"

definition flagGiven :: "string list \<Rightarrow> string \<Rightarrow> bool" where
  "flagGiven flags flag \<longleftrightarrow> flag \<in> set flags"

section \<open>Reading a description\<close>

fun setFmtp :: "int \<Rightarrow> string \<Rightarrow> sdpCodecInfo list \<Rightarrow> sdpCodecInfo list" where
  "setFmtp pt fmtp [] = []"
| "setFmtp pt fmtp (c # cs) =
     (if uint (sc_PayloadType c) = pt then c\<lparr>sc_Fmtp := fmtp\<rparr> # cs else c # setFmtp pt fmtp cs)"

definition rtpmapCodec :: "string list \<Rightarrow> sdpCodecInfo option" where
  "rtpmapCodec parts =
     (if length parts \<ge> 2
      then let pt = parseInt (parts ! 0); codecParts = splitBy (parts ! 1) (CHR ''/'') in
        if length codecParts \<ge> 2
        then Some \<lparr>sc_PayloadType = word_of_int pt, sc_Name = codecParts ! 0,
                   sc_ClockRate = word_of_int (parseInt (codecParts ! 1)),
                   sc_Channels = (if length codecParts \<ge> 3 then parseInt (codecParts ! 2) else 1), sc_Fmtp = []\<rparr>
        else None
      else None)"

text \<open>The switch of \<^verbatim>\<open>parseSDPAttribute\<close> on the name of the attribute.\<close>

definition sdpAttribute :: "string \<Rightarrow> string \<Rightarrow> parsedSDPInfo \<Rightarrow> parsedSDPInfo" where
  "sdpAttribute attrName attrValue p =
     (let parts = splitFields attrValue in
      if attrName = ''rtpmap'' then
        (case rtpmapCodec parts of None \<Rightarrow> p | Some codec \<Rightarrow> p\<lparr>sdp_Codecs := sdp_Codecs p @ [codec]\<rparr>)
      else if attrName = ''fmtp'' then
        (if length parts \<ge> 2
         then p\<lparr>sdp_Codecs := setFmtp (parseInt (parts ! 0)) (drop (length (parts ! 0) + 1) attrValue) (sdp_Codecs p)\<rparr>
         else p)
      else if attrName = ''ice-ufrag'' then p\<lparr>sdp_HasICE := True, sdp_ICEUfrag := attrValue\<rparr>
      else if attrName = ''ice-pwd'' then p\<lparr>sdp_HasICE := True, sdp_ICEPwd := attrValue\<rparr>
      else if attrName = ''fingerprint'' then p\<lparr>sdp_HasDTLS := True, sdp_Fingerprint := attrValue\<rparr>
      else if attrName = ''setup'' then p\<lparr>sdp_Setup := attrValue\<rparr>
      else if attrName = ''crypto'' then
        (if length parts \<ge> 3
         then let p1 = p\<lparr>sdp_HasSRTP := True, sdp_CryptoSuite := parts ! 1\<rparr> in
           if hasPrefix (parts ! 2) ''inline:'' then p1\<lparr>sdp_CryptoKey := drop 7 (parts ! 2)\<rparr> else p1
         else p\<lparr>sdp_HasSRTP := True\<rparr>)
      else if attrName = ''rtcp-mux'' then p\<lparr>sdp_RTCPMux := True\<rparr>
      else if attrName \<in> {''sendrecv'', ''sendonly'', ''recvonly'', ''inactive''} then p\<lparr>sdp_Direction := attrName\<rparr>
      else p)"

definition parseSDPAttribute :: "string \<Rightarrow> parsedSDPInfo \<Rightarrow> parsedSDPInfo" where
  "parseSDPAttribute v p =
     (let colonIdx = indexOf v '':'' in
      if colonIdx \<noteq> -1 then sdpAttribute (take (nat colonIdx) v) (drop (nat colonIdx + 1) v) p
      else sdpAttribute v [] p)"

definition parseConnection :: "string \<Rightarrow> parsedSDPInfo \<Rightarrow> parsedSDPInfo" where
  "parseConnection v p =
     (let parts = splitFields v in
      if length parts \<ge> 3
      then let ip = parts ! 2; idx = indexOf ip ''/'' in
        p\<lparr>sdp_ConnectionIP := (if idx \<noteq> -1 then take (nat idx) ip else ip)\<rparr>
      else p)"

definition parseMedia :: "string \<Rightarrow> parsedSDPInfo \<times> int list \<Rightarrow> parsedSDPInfo \<times> int list" where
  "parseMedia v st = (case st of (p, pts) \<Rightarrow>
     let parts = splitFields v in
     if length parts \<ge> 4
     then (p\<lparr>sdp_MediaType := parts ! 0, sdp_MediaPort := parseInt (parts ! 1), sdp_Protocol := parts ! 2\<rparr>,
           pts @ filter (\<lambda>pt. pt \<ge> 0) (map parseInt (drop 3 parts)))
     else (p, pts))"

definition parseLine :: "string \<Rightarrow> parsedSDPInfo \<times> int list \<Rightarrow> parsedSDPInfo \<times> int list" where
  "parseLine line st =
     (if length line < 2 \<or> line ! 1 \<noteq> CHR ''='' then st
      else let lineType = line ! 0; v = drop 2 line in
        if lineType = CHR ''c'' then (parseConnection v (fst st), snd st)
        else if lineType = CHR ''m'' then parseMedia v st
        else if lineType = CHR ''a'' then (parseSDPAttribute v (fst st), snd st)
        else st)"

definition staticCodec :: "int \<Rightarrow> sdpCodecInfo option" where
  "staticCodec pt =
     (let codec = (\<lambda>n name. Some \<lparr>sc_PayloadType = n, sc_Name = name, sc_ClockRate = 8000, sc_Channels = 1, sc_Fmtp = []\<rparr>) in
      if pt = 0 then codec 0 ''PCMU'' else if pt = 8 then codec 8 ''PCMA''
      else if pt = 9 then codec 9 ''G722'' else if pt = 18 then codec 18 ''G729'' else None)"

text \<open>The set of existing payload types is computed once, before the loop.\<close>

definition fillStaticCodecs :: "int list \<Rightarrow> parsedSDPInfo \<Rightarrow> parsedSDPInfo" where
  "fillStaticCodecs pts p =
     p\<lparr>sdp_Codecs := sdp_Codecs p @
        List.map_filter staticCodec (filter (\<lambda>pt. word_of_int pt \<notin> sc_PayloadType ` set (sdp_Codecs p)) pts)\<rparr>"

definition parsedSDP0 :: parsedSDPInfo where
  "parsedSDP0 = \<lparr>sdp_MediaType = ''audio'', sdp_MediaPort = 0, sdp_Protocol = ''RTP/AVP'', sdp_ConnectionIP = [],
     sdp_HasICE = False, sdp_ICEUfrag = [], sdp_ICEPwd = [], sdp_HasDTLS = False, sdp_Fingerprint = [], sdp_Setup = [],
     sdp_HasSRTP = False, sdp_CryptoSuite = [], sdp_CryptoKey = [], sdp_RTCPMux = False, sdp_Direction = ''sendrecv'',
     sdp_Codecs = []\<rparr>"

text \<open>\<^verbatim>\<open>parseSDP\<close> never returns an error.\<close>

definition parseSDP :: "string \<Rightarrow> parsedSDPInfo" where
  "parseSDP sdp =
     (case fold parseLine (splitSDPLines sdp) (parsedSDP0, []) of (p, pts) \<Rightarrow> fillStaticCodecs pts p)"

section \<open>Writing the response\<close>

fun explicitProtocol :: "string list \<Rightarrow> string option" where
  "explicitProtocol [] = None"
| "explicitProtocol (flag # flags) =
     (if flag \<in> {''RTP/AVP'', ''RTP/AVPF'', ''RTP/SAVP'', ''RTP/SAVPF''} then Some flag else explicitProtocol flags)"

definition determineProtocol :: "parsedSDPInfo \<Rightarrow> string list \<Rightarrow> string" where
  "determineProtocol p flags =
     (case explicitProtocol flags of
        Some proto \<Rightarrow> proto
      | None \<Rightarrow> if sdp_HasDTLS p then ''UDP/TLS/RTP/SAVPF'' else if sdp_HasSRTP p then ''RTP/SAVP'' else sdp_Protocol p)"

definition codecLines :: "sdpCodecInfo \<Rightarrow> string list" where
  "codecLines c =
     (''a=rtpmap:'' @ intToString (uint (sc_PayloadType c)) @ '' '' @ sc_Name c @ ''/'' @
        intToString (uint (sc_ClockRate c)) @
        (if sc_Channels c > 1 then ''/'' @ intToString (sc_Channels c) else [])) #
     (if sc_Fmtp c \<noteq> [] then [''a=fmtp:'' @ intToString (uint (sc_PayloadType c)) @ '' '' @ sc_Fmtp c] else [])"

definition mediaLine :: "parsedSDPInfo \<Rightarrow> int \<Rightarrow> string list \<Rightarrow> string" where
  "mediaLine p rtpPort flags =
     ''m='' @ sdp_MediaType p @ '' '' @ intToString rtpPort @ '' '' @ determineProtocol p flags @
     concat (map (\<lambda>c. '' '' @ intToString (uint (sc_PayloadType c))) (sdp_Codecs p))"

definition connectionAddress :: "parsedSDPInfo \<Rightarrow> string \<Rightarrow> string list \<Rightarrow> string" where
  "connectionAddress p localIP flags =
     (if flagGiven flags ''replace-session-connection'' \<or> flagGiven flags ''replace-origin'' then localIP
      else if sdp_ConnectionIP p \<noteq> [] then sdp_ConnectionIP p
      else localIP)"

text \<open>The lines of the response in order; each ends with a carriage return and a line feed.\<close>

definition responseLines :: "parsedSDPInfo \<Rightarrow> string \<Rightarrow> int \<Rightarrow> string list \<Rightarrow> string list" where
  "responseLines p localIP rtpPort flags =
     [''v=0'', ''o=karl 1 1 IN IP4 '' @ localIP, ''s=Karl Media Server'',
      ''c=IN IP4 '' @ connectionAddress p localIP flags, ''t=0 0'', mediaLine p rtpPort flags] @
     concat (map codecLines (sdp_Codecs p)) @
     [''a='' @ sdp_Direction p] @
     (if sdp_RTCPMux p \<or> flagGiven flags ''rtcp-mux-offer'' then [''a=rtcp-mux''] else []) @
     (if \<not> flagGiven flags ''ICE=remove'' \<and> (sdp_HasICE p \<or> flagGiven flags ''ICE=force'')
      then (if sdp_ICEUfrag p \<noteq> [] then [''a=ice-ufrag:'' @ sdp_ICEUfrag p] else []) @
           (if sdp_ICEPwd p \<noteq> [] then [''a=ice-pwd:'' @ sdp_ICEPwd p] else [])
      else []) @
     (if sdp_HasDTLS p \<and> \<not> flagGiven flags ''DTLS=off''
      then (if sdp_Fingerprint p \<noteq> [] then [''a=fingerprint:'' @ sdp_Fingerprint p] else []) @
           (if sdp_Setup p \<noteq> [] then [''a=setup:'' @ sdp_Setup p] else [])
      else []) @
     (if sdp_HasSRTP p \<and> \<not> flagGiven flags ''SDES=off'' \<and> \<not> sdp_HasDTLS p
      then [''a=crypto:1 '' @ sdp_CryptoSuite p @ '' inline:'' @ sdp_CryptoKey p] else [])"

definition buildResponseSDP :: "parsedSDPInfo \<Rightarrow> string \<Rightarrow> int \<Rightarrow> string list \<Rightarrow> string" where
  "buildResponseSDP p localIP rtpPort flags = concat (map (\<lambda>l. l @ [CR, LF]) (responseLines p localIP rtpPort flags))"

section \<open>Splitting what was joined\<close>

definition plain :: "string \<Rightarrow> bool" where
  "plain s \<longleftrightarrow> list_all (\<lambda>c. \<not> isBlank c \<and> c \<noteq> LF) s"

abbreviation token :: "string \<Rightarrow> bool" where
  "token s \<equiv> s \<noteq> [] \<and> plain s"

lemma plain_append [simp]: "plain (s @ t) \<longleftrightarrow> plain s \<and> plain t"
  by (simp add: plain_def)

lemma plain_no_LF: "plain s \<Longrightarrow> LF \<notin> set s"
  by (auto simp: plain_def list_all_iff)

lemma emitLine_CR: "l \<noteq> [] \<Longrightarrow> emitLine (l @ [CR]) = [l]"
  by (simp add: emitLine_def)

lemma splitLinesLoop_line:
  "LF \<notin> set l \<Longrightarrow> splitLinesLoop acc (l @ LF # s) = emitLine (acc @ l) @ splitLinesLoop [] s"
  by (induction l arbitrary: acc) auto

lemma splitSDPLines_join:
  assumes "\<And>l. l \<in> set ls \<Longrightarrow> l \<noteq> [] \<and> LF \<notin> set l"
  shows "splitSDPLines (concat (map (\<lambda>l. l @ [CR, LF]) ls)) = ls"
  using assms
proof (induction ls)
  case Nil
  then show ?case by (simp add: splitSDPLines_def emitLine_def)
next
  case (Cons l ls)
  have "splitLinesLoop [] ((l @ [CR]) @ LF # concat (map (\<lambda>l. l @ [CR, LF]) ls)) = l # ls"
    using Cons by (subst splitLinesLoop_line) (auto simp: emitLine_CR splitSDPLines_def)
  then show ?case by (simp add: splitSDPLines_def)
qed

lemma splitFieldsLoop_plain: "plain w \<Longrightarrow> splitFieldsLoop acc (w @ s) = splitFieldsLoop (acc @ w) s"
  by (induction w arbitrary: acc) (auto simp: plain_def)

lemma splitFields_token: "token w \<Longrightarrow> splitFields w = [w]"
  using splitFieldsLoop_plain [of w "[]" "[]"] by (simp add: splitFields_def)

lemma splitFields_token_Cons: "token w \<Longrightarrow> splitFields (w @ CHR '' '' # s) = w # splitFields s"
  using splitFieldsLoop_plain [of w "[]" "CHR '' '' # s"] by (simp add: splitFields_def isBlank_def)

lemma splitFieldsLoop_nonempty: "field \<noteq> [] \<or> (\<exists>c\<in>set s. \<not> isBlank c) \<Longrightarrow> splitFieldsLoop field s \<noteq> []"
  by (induction s arbitrary: field) auto

lemma splitFields_tokens:
  "list_all token ws \<Longrightarrow> ws \<noteq> [] \<Longrightarrow> splitFields (hd ws @ concat (map (\<lambda>w. CHR '' '' # w) (tl ws))) = ws"
proof (induction ws)
  case (Cons w ws)
  show ?case
  proof (cases ws)
    case Nil
    then show ?thesis using Cons by (simp add: splitFields_token)
  next
    case (Cons w' ws')
    then show ?thesis using Cons.IH Cons.prems by (simp add: splitFields_token_Cons)
  qed
qed simp

lemma splitByLoop_last: "sep \<notin> set s \<Longrightarrow> splitByLoop part s sep = [part @ s]"
  by (induction s arbitrary: part) auto

lemma splitByLoop_Cons: "sep \<notin> set s \<Longrightarrow> splitByLoop part (s @ sep # t) sep = (part @ s) # splitByLoop [] t sep"
  by (induction s arbitrary: part) auto

lemma splitBy_simps:
  "sep \<notin> set s \<Longrightarrow> splitBy s sep = [s]"
  "sep \<notin> set s \<Longrightarrow> splitBy (s @ sep # t) sep = s # splitBy t sep"
  by (simp_all add: splitBy_def splitByLoop_last splitByLoop_Cons)

section \<open>Numbers\<close>

lemma intDigits_show_nat: "0 < n \<Longrightarrow> rev (intDigits n) = show_nat n"
proof (induction n rule: intDigits.induct)
  case (1 n)
  then show ?case by (cases "n < 10") (simp_all add: intDigits.simps [of n] intDigits.simps [of 0] show_nat.simps [of n])
qed

lemma intToString_show_nat: "intToString (int n) = show_nat n"
proof (cases "n = 0")
  case True
  have "digit_char 0 = CHR ''0''" by code_simp
  with True show ?thesis by (simp add: intToString_def show_nat.simps [of 0])
qed (simp add: intToString_def intDigits_show_nat)

lemma parseDigits_append:
  "list_all is_digit ds \<Longrightarrow> is_digit c \<Longrightarrow>
    parseDigits v (ds @ [c]) = wrap64 (wrap64 (parseDigits v ds * 10) + digit_val c)"
  by (induction ds arbitrary: v) auto

lemma parseDigits_show_nat: "int n < 2 ^ 63 \<Longrightarrow> parseDigits 0 (show_nat n) = int n"
proof (induction n rule: show_nat.induct)
  case (1 n)
  show ?case
  proof (cases "n < 10")
    case True
    then show ?thesis by (simp add: show_nat.simps [of n])
  next
    case False
    have d: "int n = 10 * int (n div 10) + int (n mod 10)" using div_mult_mod_eq [of n 10] by linarith
    then have "10 * int (n div 10) < 2 ^ 63" "int (n div 10) < 2 ^ 63" using 1(2) by linarith+
    moreover have "show_nat n = show_nat (n div 10) @ [digit_char (n mod 10)]" using False by (simp add: show_nat.simps [of n])
    ultimately show ?thesis
      using 1(1) [OF False] 1(2) d show_nat_digits [of "n div 10"]
      by (simp add: parseDigits_append mult.commute)
  qed
qed

lemma parseInt_intToString: "0 \<le> n \<Longrightarrow> n < 2 ^ 63 \<Longrightarrow> parseInt (intToString n) = n"
  using parseDigits_show_nat [of "nat n"] intToString_show_nat [of "nat n"] by (simp add: parseInt_def)

lemma intToString_chars:
  assumes "0 \<le> n"
  shows "intToString n \<noteq> []" "\<not> is_digit c \<Longrightarrow> c \<notin> set (intToString n)"
  using intToString_show_nat [of "nat n"] assms not_in_show_nat [of c "nat n"] by simp_all

lemma token_intToString: "0 \<le> n \<Longrightarrow> token (intToString n)"
proof -
  assume "0 \<le> n"
  then have "list_all is_digit (intToString n)" using intToString_show_nat [of "nat n"] show_nat_digits [of "nat n"] by simp
  then have "plain (intToString n)"
    by (auto simp: plain_def list_all_iff isBlank_def is_digit_iff)
  with intToString_chars(1) [OF \<open>0 \<le> n\<close>] show ?thesis by simp
qed

lemma parseInt_pt: "parseInt (intToString (uint (w :: u8))) = uint w"
  using uint_lt2p [of w] by (intro parseInt_intToString) simp_all

lemma parseInt_rate: "parseInt (intToString (uint (w :: u32))) = uint w"
  using uint_lt2p [of w] by (intro parseInt_intToString) simp_all

section \<open>Reading the response back\<close>

lemma indexOf_from_single:
  "c \<notin> set s \<Longrightarrow> indexOf_from i (s @ c # t) [c] = int (i + length s)"
proof (induction s arbitrary: i)
  case Nil
  then show ?case by (simp add: indexOf_from.simps [of i "c # t"])
next
  case (Cons a s)
  then have "a \<noteq> c" by auto
  then show ?case using Cons by (simp add: indexOf_from.simps [of i "a # s @ c # t"])
qed

lemma indexOf_single: "c \<notin> set s \<Longrightarrow> indexOf (s @ c # t) [c] = int (length s)"
  by (simp add: indexOf_def indexOf_from_single)

lemma indexOf_from_none: "c \<notin> set s \<Longrightarrow> indexOf_from i s [c] = -1"
proof (induction s arbitrary: i)
  case Nil
  then show ?case by (simp add: indexOf_from.simps [of i "[]"])
next
  case (Cons a s)
  then have "a \<noteq> c" by auto
  then show ?case using Cons by (simp add: indexOf_from.simps [of i "a # s"])
qed

lemma indexOf_none: "c \<notin> set s \<Longrightarrow> indexOf s [c] = -1"
  by (simp add: indexOf_def indexOf_from_none)

definition codec_ok :: "sdpCodecInfo \<Rightarrow> bool" where
  "codec_ok c \<longleftrightarrow> plain (sc_Name c) \<and> CHR ''/'' \<notin> set (sc_Name c) \<and> 1 \<le> sc_Channels c \<and> sc_Channels c < 2 ^ 63 \<and>
     LF \<notin> set (sc_Fmtp c) \<and> (sc_Fmtp c = [] \<or> list_ex (\<lambda>x. \<not> isBlank x) (sc_Fmtp c))"

lemma rtpmap_parts:
  assumes "codec_ok c"
  shows "rtpmapCodec (splitFields (intToString (uint (sc_PayloadType c)) @ '' '' @ sc_Name c @ ''/'' @
      intToString (uint (sc_ClockRate c)) @ (if sc_Channels c > 1 then ''/'' @ intToString (sc_Channels c) else [])))
    = Some (c\<lparr>sc_Fmtp := []\<rparr>)"
proof -
  let ?pt = "intToString (uint (sc_PayloadType c))" and ?rate = "intToString (uint (sc_ClockRate c))"
  let ?ch = "if sc_Channels c > 1 then CHR ''/'' # intToString (sc_Channels c) else []"
  let ?enc = "sc_Name c @ CHR ''/'' # ?rate @ ?ch"
  have slash: "plain ''/''" by code_simp
  have "plain ?ch" using slash token_intToString [of "sc_Channels c"] by (auto simp: plain_def)
  then have enc: "token ?enc"
    using assms slash token_intToString [of "uint (sc_ClockRate c)"] by (auto simp: codec_ok_def plain_def)
  have fields: "splitFields (?pt @ CHR '' '' # ?enc) = [?pt, ?enc]"
    by (simp only: splitFields_token_Cons [OF token_intToString [OF uint_ge_0]] splitFields_token [OF enc])
  have nd: "\<not> is_digit (CHR ''/'')" by code_simp
  have rate: "CHR ''/'' \<notin> set ?rate" using intToString_chars(2) [OF uint_ge_0 nd] .
  have parts: "splitBy ?enc (CHR ''/'') = sc_Name c # ?rate #
      (if sc_Channels c > 1 then [intToString (sc_Channels c)] else [])"
  proof (cases "sc_Channels c > 1")
    case True
    have "CHR ''/'' \<notin> set (intToString (sc_Channels c))" using True nd by (intro intToString_chars(2)) simp_all
    with True assms rate show ?thesis by (simp add: splitBy_simps codec_ok_def)
  next
    case False
    with assms rate show ?thesis by (simp add: splitBy_simps codec_ok_def)
  qed
  have ch: "sc_Channels c = 1" if "\<not> sc_Channels c > 1" using that assms by (simp add: codec_ok_def)
  have chp: "parseInt (intToString (sc_Channels c)) = sc_Channels c"
    using assms by (intro parseInt_intToString) (simp_all add: codec_ok_def)
  have "rtpmapCodec [?pt, ?enc] = Some (c\<lparr>sc_Fmtp := []\<rparr>)"
    using ch chp by (simp add: rtpmapCodec_def parts parseInt_pt parseInt_rate)
  then show ?thesis unfolding fields [symmetric] by (cases "sc_Channels c > 1") simp_all
qed

lemma setFmtp_append:
  "pt \<notin> (\<lambda>c. uint (sc_PayloadType c)) ` set cs \<Longrightarrow> setFmtp pt f (cs @ [c]) = cs @ setFmtp pt f [c]"
  by (induction cs) auto

text \<open>An attribute line, split at its first colon.\<close>

lemma parseLine_attr:
  assumes "CHR '':'' \<notin> set name"
  shows "parseLine (''a='' @ name @ '':'' @ v) st = (sdpAttribute name v (fst st), snd st)"
  using indexOf_single [OF assms, of v] by (simp add: parseLine_def parseSDPAttribute_def)

lemma parseLine_attr_name:
  assumes "CHR '':'' \<notin> set name"
  shows "parseLine (''a='' @ name) st = (sdpAttribute name [] (fst st), snd st)"
  using indexOf_none [OF assms] by (simp add: parseLine_def parseSDPAttribute_def)

lemma parse_rtpmap:
  assumes "codec_ok c"
  shows "parseLine (hd (codecLines c)) (p, pts) = (p\<lparr>sdp_Codecs := sdp_Codecs p @ [c\<lparr>sc_Fmtp := []\<rparr>]\<rparr>, pts)"
proof -
  let ?v = "intToString (uint (sc_PayloadType c)) @ '' '' @ sc_Name c @ ''/'' @ intToString (uint (sc_ClockRate c)) @
      (if sc_Channels c > 1 then ''/'' @ intToString (sc_Channels c) else [])"
  have l: "hd (codecLines c) = ''a='' @ ''rtpmap'' @ '':'' @ ?v" by (simp add: codecLines_def)
  have n: "CHR '':'' \<notin> set ''rtpmap''" by code_simp
  have "sdpAttribute ''rtpmap'' ?v p = p\<lparr>sdp_Codecs := sdp_Codecs p @ [c\<lparr>sc_Fmtp := []\<rparr>]\<rparr>"
    unfolding sdpAttribute_def Let_def rtpmap_parts [OF assms] by simp
  then show ?thesis unfolding l parseLine_attr [OF n] by simp
qed

lemma parse_fmtp:
  assumes "codec_ok c" "sc_Fmtp c \<noteq> []"
  shows "parseLine (''a=fmtp:'' @ intToString (uint (sc_PayloadType c)) @ '' '' @ sc_Fmtp c) (p, pts) =
    (p\<lparr>sdp_Codecs := setFmtp (uint (sc_PayloadType c)) (sc_Fmtp c) (sdp_Codecs p)\<rparr>, pts)"
proof -
  let ?pt = "intToString (uint (sc_PayloadType c))"
  have n: "CHR '':'' \<notin> set ''fmtp''" by code_simp
  have f: "splitFields (?pt @ '' '' @ sc_Fmtp c) = ?pt # splitFields (sc_Fmtp c)"
    using splitFields_token_Cons [OF token_intToString [OF uint_ge_0]] by simp
  have "splitFields (sc_Fmtp c) \<noteq> []"
    using assms unfolding splitFields_def by (intro splitFieldsLoop_nonempty) (auto simp: codec_ok_def list_ex_iff)
  then have "2 \<le> length (splitFields (?pt @ '' '' @ sc_Fmtp c))" unfolding f by (cases "splitFields (sc_Fmtp c)") simp_all
  then have "sdpAttribute ''fmtp'' (?pt @ '' '' @ sc_Fmtp c) p =
      p\<lparr>sdp_Codecs := setFmtp (uint (sc_PayloadType c)) (sc_Fmtp c) (sdp_Codecs p)\<rparr>"
    using f by (simp add: sdpAttribute_def Let_def parseInt_pt)
  then show ?thesis using parseLine_attr [OF n, of "?pt @ '' '' @ sc_Fmtp c" "(p, pts)"] by simp
qed

lemma parse_codecLines:
  assumes "codec_ok c" "sc_PayloadType c \<notin> sc_PayloadType ` set (sdp_Codecs p)"
  shows "fold parseLine (codecLines c) (p, pts) = (p\<lparr>sdp_Codecs := sdp_Codecs p @ [c]\<rparr>, pts)"
proof (cases "sc_Fmtp c = []")
  case True
  then have "codecLines c = [hd (codecLines c)]" "c\<lparr>sc_Fmtp := []\<rparr> = c" by (simp_all add: codecLines_def)
  with parse_rtpmap [OF assms(1), of p pts] show ?thesis by (metis fold_simps)
next
  case False
  then have l: "codecLines c = [hd (codecLines c), ''a=fmtp:'' @ intToString (uint (sc_PayloadType c)) @ '' '' @ sc_Fmtp c]"
    by (simp add: codecLines_def)
  have "uint (sc_PayloadType c) \<notin> (\<lambda>c. uint (sc_PayloadType c)) ` set (sdp_Codecs p)"
    using assms(2) by (auto simp: image_iff word_uint_eq_iff)
  then have "setFmtp (uint (sc_PayloadType c)) (sc_Fmtp c) (sdp_Codecs p @ [c\<lparr>sc_Fmtp := []\<rparr>]) = sdp_Codecs p @ [c]"
    by (simp add: setFmtp_append)
  then show ?thesis
    by (subst l) (simp only: fold_simps parse_rtpmap [OF assms(1)] parse_fmtp [OF assms(1) False], simp)
qed

lemma parse_all_codecs:
  assumes "list_all codec_ok cs" "distinct (map sc_PayloadType (sdp_Codecs p @ cs))"
  shows "fold parseLine (concat (map codecLines cs)) (p, pts) = (p\<lparr>sdp_Codecs := sdp_Codecs p @ cs\<rparr>, pts)"
  using assms
proof (induction cs arbitrary: p)
  case (Cons c cs)
  have "fold parseLine (codecLines c) (p, pts) = (p\<lparr>sdp_Codecs := sdp_Codecs p @ [c]\<rparr>, pts)"
    using Cons.prems by (intro parse_codecLines) auto
  then show ?case using Cons.IH [of "p\<lparr>sdp_Codecs := sdp_Codecs p @ [c]\<rparr>"] Cons.prems by simp
qed simp

lemma parse_mediaLine:
  assumes "token (sdp_MediaType p)" "token (determineProtocol p flags)" "sdp_Codecs p \<noteq> []" "0 \<le> port" "port < 2 ^ 63"
  shows "parseLine (mediaLine p port flags) (q, []) =
    (q\<lparr>sdp_MediaType := sdp_MediaType p, sdp_MediaPort := port, sdp_Protocol := determineProtocol p flags\<rparr>,
     map (\<lambda>c. uint (sc_PayloadType c)) (sdp_Codecs p))"
proof -
  let ?pts = "map (\<lambda>c. intToString (uint (sc_PayloadType c))) (sdp_Codecs p)"
  let ?ws = "sdp_MediaType p # intToString port # determineProtocol p flags # ?pts"
  have "token (intToString (uint (sc_PayloadType c)))" for c :: sdpCodecInfo by (rule token_intToString) simp
  then have "list_all token ?ws" using assms token_intToString [of port] by (simp add: list_all_iff)
  then have "splitFields (hd ?ws @ concat (map (\<lambda>w. CHR '' '' # w) (tl ?ws))) = ?ws" by (rule splitFields_tokens) simp
  moreover have "mediaLine p port flags = ''m='' @ hd ?ws @ concat (map (\<lambda>w. CHR '' '' # w) (tl ?ws))"
    by (simp add: mediaLine_def comp_def)
  moreover have "4 \<le> length ?ws" using assms(3) by (cases "sdp_Codecs p") simp_all
  moreover have "map parseInt ?pts = map (\<lambda>c. uint (sc_PayloadType c)) (sdp_Codecs p)" by (simp add: parseInt_pt)
  ultimately show ?thesis
    using parseInt_intToString [OF assms(4,5)] by (simp add: parseLine_def parseMedia_def Let_def comp_def parseInt_pt)
qed

lemma parse_connection:
  assumes "token ip" "CHR ''/'' \<notin> set ip"
  shows "parseLine (''c=IN IP4 '' @ ip) (q, pts) = (q\<lparr>sdp_ConnectionIP := ip\<rparr>, pts)"
proof -
  have in4: "token ''IN''" "token ''IP4''" by code_simp+
  have "splitFields (''IN'' @ CHR '' '' # (''IP4'' @ CHR '' '' # ip)) = [''IN'', ''IP4'', ip]"
    unfolding splitFields_token_Cons [OF in4(1)] splitFields_token_Cons [OF in4(2)] splitFields_token [OF assms(1)] ..
  then show ?thesis using indexOf_none [OF assms(2)] by (simp add: parseLine_def parseConnection_def)
qed

definition media_fields :: "parsedSDPInfo \<times> int list \<Rightarrow> string \<times> int \<times> string \<times> string \<times> string \<times> sdpCodecInfo list \<times> int list" where
  "media_fields st = (sdp_MediaType (fst st), sdp_MediaPort (fst st), sdp_Protocol (fst st), sdp_ConnectionIP (fst st),
     sdp_Direction (fst st), sdp_Codecs (fst st), snd st)"

definition other_attr :: "string \<Rightarrow> bool" where
  "other_attr l \<longleftrightarrow> (\<exists>name v. l = ''a='' @ name @ '':'' @ v \<and> name \<in> {''ice-ufrag'', ''ice-pwd'', ''fingerprint'', ''setup'', ''crypto''})"

lemma sdpAttribute_security:
  "sdpAttribute ''ice-ufrag'' v p = p\<lparr>sdp_HasICE := True, sdp_ICEUfrag := v\<rparr>"
  "sdpAttribute ''ice-pwd'' v p = p\<lparr>sdp_HasICE := True, sdp_ICEPwd := v\<rparr>"
  "sdpAttribute ''fingerprint'' v p = p\<lparr>sdp_HasDTLS := True, sdp_Fingerprint := v\<rparr>"
  "sdpAttribute ''setup'' v p = p\<lparr>sdp_Setup := v\<rparr>"
  by (simp_all add: sdpAttribute_def)

lemma sdpAttribute_crypto:
  "media_fields (sdpAttribute ''crypto'' v p, pts) = media_fields (p, pts)"
  "sdp_RTCPMux (sdpAttribute ''crypto'' v p) = sdp_RTCPMux p"
  by (simp_all add: sdpAttribute_def Let_def media_fields_def)

lemma parse_other_attr:
  assumes "other_attr l"
  shows "media_fields (parseLine l st) = media_fields st" "sdp_RTCPMux (fst (parseLine l st)) = sdp_RTCPMux (fst st)"
proof -
  obtain name v where l: "l = ''a='' @ name @ '':'' @ v"
    and name: "name \<in> {''ice-ufrag'', ''ice-pwd'', ''fingerprint'', ''setup'', ''crypto''}"
    using assms unfolding other_attr_def by (elim exE conjE) (rule that)
  have c: "CHR '':'' \<notin> set name" using name by (elim insertE emptyE; simp)
  have "media_fields (sdpAttribute name v p, pts) = media_fields (p, pts) \<and> sdp_RTCPMux (sdpAttribute name v p) = sdp_RTCPMux p" for p pts
    using name by (elim insertE emptyE; hypsubst) (simp_all add: sdpAttribute_security sdpAttribute_crypto, simp_all add: media_fields_def)
  then show "media_fields (parseLine l st) = media_fields st" "sdp_RTCPMux (fst (parseLine l st)) = sdp_RTCPMux (fst st)"
    unfolding l parseLine_attr [OF c] by simp_all
qed

lemma parse_other_attrs:
  assumes "list_all other_attr ls"
  shows "media_fields (fold parseLine ls st) = media_fields st \<and> sdp_RTCPMux (fst (fold parseLine ls st)) = sdp_RTCPMux (fst st)"
  using assms by (induction ls arbitrary: st) (simp_all add: parse_other_attr)

lemma parse_direction:
  assumes "d \<in> {''sendrecv'', ''sendonly'', ''recvonly'', ''inactive''}"
  shows "parseLine (''a='' @ d) (q, pts) = (q\<lparr>sdp_Direction := d\<rparr>, pts)"
proof -
  have "CHR '':'' \<notin> set d" using assms by (elim insertE emptyE; simp)
  moreover have "sdpAttribute d [] q = q\<lparr>sdp_Direction := d\<rparr>"
    using assms by (elim insertE emptyE; simp add: sdpAttribute_def Let_def)
  ultimately show ?thesis using parseLine_attr_name [of d "(q, pts)"] by (metis fst_conv snd_conv)
qed

lemma parse_rtcp_mux: "parseLine ''a=rtcp-mux'' (q, pts) = (q\<lparr>sdp_RTCPMux := True\<rparr>, pts)"
  using parseLine_attr_name [of "''rtcp-mux''" "(q, pts)"] by (simp add: sdpAttribute_def)

definition sdp_ok :: "parsedSDPInfo \<Rightarrow> bool" where
  "sdp_ok p \<longleftrightarrow> token (sdp_MediaType p) \<and> token (sdp_Protocol p) \<and> plain (sdp_ConnectionIP p) \<and>
     CHR ''/'' \<notin> set (sdp_ConnectionIP p) \<and> sdp_Codecs p \<noteq> [] \<and> list_all codec_ok (sdp_Codecs p) \<and>
     distinct (map sc_PayloadType (sdp_Codecs p)) \<and>
     sdp_Direction p \<in> {''sendrecv'', ''sendonly'', ''recvonly'', ''inactive''} \<and>
     list_all (\<lambda>s. LF \<notin> set s) [sdp_ICEUfrag p, sdp_ICEPwd p, sdp_Fingerprint p, sdp_Setup p, sdp_CryptoSuite p, sdp_CryptoKey p]"

text \<open>The lines after the direction and the multiplexing attribute.\<close>

definition securityLines :: "parsedSDPInfo \<Rightarrow> string list \<Rightarrow> string list" where
  "securityLines p flags =
     (if \<not> flagGiven flags ''ICE=remove'' \<and> (sdp_HasICE p \<or> flagGiven flags ''ICE=force'')
      then (if sdp_ICEUfrag p \<noteq> [] then [''a=ice-ufrag:'' @ sdp_ICEUfrag p] else []) @
           (if sdp_ICEPwd p \<noteq> [] then [''a=ice-pwd:'' @ sdp_ICEPwd p] else [])
      else []) @
     (if sdp_HasDTLS p \<and> \<not> flagGiven flags ''DTLS=off''
      then (if sdp_Fingerprint p \<noteq> [] then [''a=fingerprint:'' @ sdp_Fingerprint p] else []) @
           (if sdp_Setup p \<noteq> [] then [''a=setup:'' @ sdp_Setup p] else [])
      else []) @
     (if sdp_HasSRTP p \<and> \<not> flagGiven flags ''SDES=off'' \<and> \<not> sdp_HasDTLS p
      then [''a=crypto:1 '' @ sdp_CryptoSuite p @ '' inline:'' @ sdp_CryptoKey p] else [])"

lemma other_attr_intros:
  "other_attr (''a=ice-ufrag:'' @ v)" "other_attr (''a=ice-pwd:'' @ v)" "other_attr (''a=fingerprint:'' @ v)"
  "other_attr (''a=setup:'' @ v)" "other_attr (''a=crypto:'' @ v)"
  unfolding other_attr_def
  by (rule exI [of _ "''ice-ufrag''"] exI [of _ "''ice-pwd''"] exI [of _ "''fingerprint''"] exI [of _ "''setup''"]
      exI [of _ "''crypto''"], rule exI [of _ v], simp; fail)+

lemma securityLines_attr: "list_all other_attr (securityLines p flags)"
  using other_attr_intros(5) [of "''1 '' @ sdp_CryptoSuite p @ '' inline:'' @ sdp_CryptoKey p"]
    other_attr_intros(1) [of "sdp_ICEUfrag p"] other_attr_intros(2) [of "sdp_ICEPwd p"]
    other_attr_intros(3) [of "sdp_Fingerprint p"] other_attr_intros(4) [of "sdp_Setup p"]
  by (simp add: securityLines_def)

lemma determineProtocol_token: "sdp_ok p \<Longrightarrow> token (determineProtocol p flags)"
proof -
  assume ok: "sdp_ok p"
  have "token ''RTP/AVP''" "token ''RTP/AVPF''" "token ''RTP/SAVP''" "token ''RTP/SAVPF''" "token ''UDP/TLS/RTP/SAVPF''"
    by code_simp+
  moreover from this have "explicitProtocol flags = Some s \<Longrightarrow> token s" for s
    by (induction flags rule: explicitProtocol.induct) (auto split: if_splits)
  ultimately show ?thesis using ok by (auto simp: determineProtocol_def sdp_ok_def split: option.split)
qed

lemma responseLines_eq:
  "responseLines p localIP port flags =
     [''v=0'', ''o=karl 1 1 IN IP4 '' @ localIP, ''s=Karl Media Server'',
      ''c=IN IP4 '' @ connectionAddress p localIP flags, ''t=0 0'', mediaLine p port flags] @
     concat (map codecLines (sdp_Codecs p)) @ [''a='' @ sdp_Direction p] @
     (if sdp_RTCPMux p \<or> flagGiven flags ''rtcp-mux-offer'' then [''a=rtcp-mux''] else []) @ securityLines p flags"
  by (simp only: responseLines_def securityLines_def append_assoc)

definition line_ok :: "string \<Rightarrow> bool" where
  "line_ok l \<longleftrightarrow> l \<noteq> [] \<and> LF \<notin> set l"

lemma intToString_no_LF: "0 \<le> n \<Longrightarrow> LF \<notin> set (intToString n)"
  using token_intToString plain_no_LF by blast

lemma codecLines_ok: "codec_ok c \<Longrightarrow> list_all line_ok (codecLines c)"
  using intToString_no_LF [of "uint (sc_PayloadType c)"] intToString_no_LF [of "uint (sc_ClockRate c)"]
    intToString_no_LF [of "sc_Channels c"] plain_no_LF [of "sc_Name c"]
  by (simp add: codecLines_def line_ok_def codec_ok_def)

lemma securityLines_ok: "sdp_ok p \<Longrightarrow> list_all line_ok (securityLines p flags)"
  by (simp add: securityLines_def line_ok_def sdp_ok_def)

lemma connectionAddress_ok:
  "sdp_ok p \<Longrightarrow> token ip \<Longrightarrow> CHR ''/'' \<notin> set ip \<Longrightarrow>
    token (connectionAddress p ip flags) \<and> CHR ''/'' \<notin> set (connectionAddress p ip flags)"
  by (simp add: connectionAddress_def sdp_ok_def)

lemma mediaLine_ok:
  assumes "sdp_ok p" "0 \<le> port"
  shows "line_ok (mediaLine p port flags)"
  using assms plain_no_LF [of "sdp_MediaType p"] determineProtocol_token [OF assms(1), of flags]
    plain_no_LF [of "determineProtocol p flags"] intToString_no_LF [OF assms(2)]
    intToString_no_LF [OF uint_ge_0]
  by (auto simp: mediaLine_def line_ok_def sdp_ok_def)

lemma responseLines_ok:
  assumes "sdp_ok p" "token ip" "CHR ''/'' \<notin> set ip" "0 \<le> port"
  shows "list_all line_ok (responseLines p ip port flags)"
proof -
  have "line_ok (''o=karl 1 1 IN IP4 '' @ ip)" "line_ok (''c=IN IP4 '' @ connectionAddress p ip flags)"
    using plain_no_LF [of ip] plain_no_LF [of "connectionAddress p ip flags"] assms(2) connectionAddress_ok [OF assms(1-3), of flags]
    by (simp_all add: line_ok_def)
  moreover have "list_all line_ok (concat (map codecLines (sdp_Codecs p)))"
    using assms(1) codecLines_ok by (fastforce simp: sdp_ok_def list_all_iff)
  moreover have "line_ok (''a='' @ sdp_Direction p)"
    using assms(1) unfolding sdp_ok_def line_ok_def by (elim conjE insertE emptyE; simp)
  moreover have "line_ok ''v=0''" "line_ok ''s=Karl Media Server''" "line_ok ''t=0 0''" "line_ok ''a=rtcp-mux''" by code_simp+
  ultimately show ?thesis
    unfolding responseLines_eq using mediaLine_ok [OF assms(1,4)] securityLines_ok [OF assms(1)] by simp
qed

lemma parse_ignored: "parseLine (t # CHR ''='' # v) st = st" if "t \<notin> {CHR ''c'', CHR ''m'', CHR ''a''}"
  using that by (simp add: parseLine_def)

text \<open>What reading the response lines yields, before static codecs are filled in.\<close>

lemma parse_responseLines:
  fixes flags :: "string list"
  assumes ok: "sdp_ok p" and ip: "token ip" "CHR ''/'' \<notin> set ip" and port: "0 \<le> port" "port < 2 ^ 63"
  defines "st \<equiv> fold parseLine (responseLines p ip port flags) (parsedSDP0, [])"
  shows "media_fields st = (sdp_MediaType p, port, determineProtocol p flags, connectionAddress p ip flags, sdp_Direction p,
      sdp_Codecs p, map (\<lambda>c. uint (sc_PayloadType c)) (sdp_Codecs p)) \<and>
    sdp_RTCPMux (fst st) = (sdp_RTCPMux p \<or> flagGiven flags ''rtcp-mux-offer'')"
proof -
  let ?q = "parsedSDP0\<lparr>sdp_ConnectionIP := connectionAddress p ip flags, sdp_MediaType := sdp_MediaType p, sdp_MediaPort := port,
      sdp_Protocol := determineProtocol p flags\<rparr>"
  let ?pts = "map (\<lambda>c. uint (sc_PayloadType c)) (sdp_Codecs p)"
  let ?mux = "if sdp_RTCPMux p \<or> flagGiven flags ''rtcp-mux-offer'' then [''a=rtcp-mux''] else []"
  note c = connectionAddress_ok [OF ok ip, of flags]
  have m: "parseLine (mediaLine p port flags) (q, []) =
      (q\<lparr>sdp_MediaType := sdp_MediaType p, sdp_MediaPort := port, sdp_Protocol := determineProtocol p flags\<rparr>, ?pts)" for q
    using ok determineProtocol_token [OF ok, of flags] port by (intro parse_mediaLine) (simp_all add: sdp_ok_def)
  have cs: "fold parseLine (concat (map codecLines (sdp_Codecs p))) (?q, ?pts) = (?q\<lparr>sdp_Codecs := sdp_Codecs p\<rparr>, ?pts)"
    using parse_all_codecs [of "sdp_Codecs p" ?q ?pts] ok by (simp add: sdp_ok_def parsedSDP0_def)
  have d: "parseLine (''a='' @ sdp_Direction p) (q, ?pts) = (q\<lparr>sdp_Direction := sdp_Direction p\<rparr>, ?pts)" for q
    using ok by (intro parse_direction) (simp add: sdp_ok_def)
  have "fold parseLine [''v=0'', ''o=karl 1 1 IN IP4 '' @ ip, ''s=Karl Media Server'',
      ''c=IN IP4 '' @ connectionAddress p ip flags, ''t=0 0'', mediaLine p port flags] (parsedSDP0, []) = (?q, ?pts)"
    using parse_connection [of "connectionAddress p ip flags"] c m by (simp add: parse_ignored)
  then have st: "st = fold parseLine (securityLines p flags)
      (fold parseLine ?mux (?q\<lparr>sdp_Codecs := sdp_Codecs p, sdp_Direction := sdp_Direction p\<rparr>, ?pts))"
    unfolding st_def responseLines_eq fold_append comp_apply using cs d by simp
  have "media_fields (fold parseLine ?mux (?q\<lparr>sdp_Codecs := sdp_Codecs p, sdp_Direction := sdp_Direction p\<rparr>, ?pts)) =
      (sdp_MediaType p, port, determineProtocol p flags, connectionAddress p ip flags, sdp_Direction p, sdp_Codecs p, ?pts) \<and>
      sdp_RTCPMux (fst (fold parseLine ?mux (?q\<lparr>sdp_Codecs := sdp_Codecs p, sdp_Direction := sdp_Direction p\<rparr>, ?pts))) =
      (sdp_RTCPMux p \<or> flagGiven flags ''rtcp-mux-offer'')"
    by (simp add: media_fields_def parse_rtcp_mux parsedSDP0_def)
  with parse_other_attrs [OF securityLines_attr [of p flags]] show ?thesis unfolding st by simp
qed

section \<open>Properties\<close>

text \<open>C17. The response reads back. Parsing the description that the server writes gives the media type,
  the allocated port, the chosen protocol, the direction and exactly the codecs, with their
  parameters, that it was built from. The connection address is the server's own only when a replace
  flag is given or the peer named none; otherwise it is the address of the peer.\<close>

theorem sdp_roundtrip:
  assumes "sdp_ok p" "token ip" "CHR ''/'' \<notin> set ip" "0 \<le> port" "port < 2 ^ 63"
  shows "let q = parseSDP (buildResponseSDP p ip port flags) in
    sdp_MediaType q = sdp_MediaType p \<and> sdp_MediaPort q = port \<and> sdp_Protocol q = determineProtocol p flags \<and>
    sdp_Direction q = sdp_Direction p \<and> sdp_Codecs q = sdp_Codecs p \<and>
    sdp_RTCPMux q = (sdp_RTCPMux p \<or> flagGiven flags ''rtcp-mux-offer'') \<and>
    sdp_ConnectionIP q = (if flagGiven flags ''replace-session-connection'' \<or> flagGiven flags ''replace-origin'' \<or>
      sdp_ConnectionIP p = [] then ip else sdp_ConnectionIP p)"
proof -
  have lines: "splitSDPLines (buildResponseSDP p ip port flags) = responseLines p ip port flags"
    unfolding buildResponseSDP_def using responseLines_ok [OF assms(1-4), of flags]
    by (intro splitSDPLines_join) (simp add: list_all_iff line_ok_def)
  obtain r pts where st: "fold parseLine (responseLines p ip port flags) (parsedSDP0, []) = (r, pts)" by fastforce
  note f = parse_responseLines [OF assms(1-5), of flags, unfolded st]
  have none: "filter (\<lambda>pt. word_of_int pt \<notin> sc_PayloadType ` set (sdp_Codecs r)) pts = []"
    using f by (auto simp: media_fields_def filter_empty_conv)
  have "parseSDP (buildResponseSDP p ip port flags) = r\<lparr>sdp_Codecs := sdp_Codecs r\<rparr>"
    unfolding parseSDP_def lines st fillStaticCodecs_def prod.case none by (simp add: List.map_filter_simps)
  with f show ?thesis by (simp add: Let_def media_fields_def connectionAddress_def)
qed

definition sample_sdp :: parsedSDPInfo where
  "sample_sdp = parsedSDP0\<lparr>sdp_ConnectionIP := ''10.0.0.9'', sdp_Codecs :=
     [\<lparr>sc_PayloadType = 0, sc_Name = ''PCMU'', sc_ClockRate = 8000, sc_Channels = 1, sc_Fmtp = []\<rparr>,
      \<lparr>sc_PayloadType = 111, sc_Name = ''opus'', sc_ClockRate = 48000, sc_Channels = 2, sc_Fmtp = ''minptime=10''\<rparr>]\<rparr>"

theorem sdp_roundtrip_witness:
  "sdp_Codecs (parseSDP (buildResponseSDP sample_sdp ''192.0.2.1'' 30000 [])) = sdp_Codecs sample_sdp \<and>
   sdp_MediaPort (parseSDP (buildResponseSDP sample_sdp ''192.0.2.1'' 30000 [])) = 30000 \<and>
   sdp_ConnectionIP (parseSDP (buildResponseSDP sample_sdp ''192.0.2.1'' 30000 [])) = ''10.0.0.9''"
proof -
  have "sdp_ok sample_sdp" "token ''192.0.2.1''" "CHR ''/'' \<notin> set ''192.0.2.1''" by code_simp+
  from sdp_roundtrip [OF this, of 30000 "[]"] show ?thesis by (simp add: Let_def flagGiven_def sample_sdp_def)
qed

end
