(* ===== verification/Go_Heap.thy ===== *)
theory Go_Heap
  imports Karl_Prelude
begin

text \<open>
  Go's \<^verbatim>\<open>container/heap\<close>, which the jitter buffer uses through the methods of
  \<^verbatim>\<open>heap.Interface\<close>. The sift loops call \<^verbatim>\<open>Less\<close> and \<^verbatim>\<open>Swap\<close> on an abstract collection, so
  they are functions of those two methods; the contract \<open>heap_interface\<close> says what the
  methods must do, and the heap property is proved once from it. The comparison only has to
  be an order on the elements that are present: sequence numbers are compared modulo
  \<open>2 ^ 16\<close>, which is not an order on all of them.
\<close>

section \<open>The sift loops\<close>

function heap_up :: "('s \<Rightarrow> nat \<Rightarrow> nat \<Rightarrow> bool) \<Rightarrow> (nat \<Rightarrow> nat \<Rightarrow> 's \<Rightarrow> 's) \<Rightarrow> nat \<Rightarrow> 's \<Rightarrow> 's" where
  "heap_up Less Swap j s =
     (let i = (j - 1) div 2 in
      if i = j \<or> \<not> Less s j i then s else heap_up Less Swap i (Swap i j s))"
  by pat_completeness auto
termination heap_up by (relation "measure (\<lambda>(_, _, j, _). j)") auto

text \<open>\<open>heap_down\<close> returns the final position; \<^verbatim>\<open>down\<close> reports whether it differs from the first.\<close>

function heap_down ::
  "('s \<Rightarrow> nat \<Rightarrow> nat \<Rightarrow> bool) \<Rightarrow> (nat \<Rightarrow> nat \<Rightarrow> 's \<Rightarrow> 's) \<Rightarrow> nat \<Rightarrow> nat \<Rightarrow> 's \<Rightarrow> nat \<times> 's" where
  "heap_down Less Swap i n s =
     (let j1 = 2 * i + 1 in
      if j1 \<ge> n then (i, s)
      else let j2 = j1 + 1; j = (if j2 < n \<and> Less s j2 j1 then j2 else j1) in
        if \<not> Less s j i then (i, s) else heap_down Less Swap j n (Swap i j s))"
  by pat_completeness auto
termination heap_down by (relation "measure (\<lambda>(_, _, i, n, _). n - i)") (auto split: if_splits)

declare heap_up.simps [simp del] heap_down.simps [simp del]

text \<open>\<^verbatim>\<open>heap.Push\<close>, \<^verbatim>\<open>heap.Pop\<close> and \<^verbatim>\<open>heap.Remove\<close> before and after the calls of the collection's
  own \<^verbatim>\<open>Push\<close> and \<^verbatim>\<open>Pop\<close>, which append and remove the last element.\<close>

definition heap_fix_last :: "('s \<Rightarrow> nat \<Rightarrow> nat \<Rightarrow> bool) \<Rightarrow> (nat \<Rightarrow> nat \<Rightarrow> 's \<Rightarrow> 's) \<Rightarrow> nat \<Rightarrow> 's \<Rightarrow> 's" where
  "heap_fix_last Less Swap len s = heap_up Less Swap (len - 1) s"

definition heap_root_to_last :: "('s \<Rightarrow> nat \<Rightarrow> nat \<Rightarrow> bool) \<Rightarrow> (nat \<Rightarrow> nat \<Rightarrow> 's \<Rightarrow> 's) \<Rightarrow> nat \<Rightarrow> 's \<Rightarrow> 's" where
  "heap_root_to_last Less Swap len s =
     (let n = len - 1 in snd (heap_down Less Swap 0 n (Swap 0 n s)))"

definition heap_nth_to_last ::
  "('s \<Rightarrow> nat \<Rightarrow> nat \<Rightarrow> bool) \<Rightarrow> (nat \<Rightarrow> nat \<Rightarrow> 's \<Rightarrow> 's) \<Rightarrow> nat \<Rightarrow> nat \<Rightarrow> 's \<Rightarrow> 's" where
  "heap_nth_to_last Less Swap i len s =
     (let n = len - 1 in
      if n = i then s
      else let (i', s') = heap_down Less Swap i n (Swap i n s) in
        if i' > i then s' else heap_up Less Swap i s')"

section \<open>The heap property\<close>

abbreviation swapped :: "nat \<Rightarrow> nat \<Rightarrow> 'a list \<Rightarrow> 'a list" where
  "swapped i j xs \<equiv> xs[i := xs ! j, j := xs ! i]"

abbreviation par :: "nat \<Rightarrow> nat" where
  "par k \<equiv> (k - 1) div 2"

definition heap_edge :: "('a \<Rightarrow> 'a \<Rightarrow> bool) \<Rightarrow> 'a list \<Rightarrow> nat \<Rightarrow> bool" where
  "heap_edge lt xs k \<longleftrightarrow> \<not> lt (xs ! k) (xs ! par k)"

definition is_heap :: "('a \<Rightarrow> 'a \<Rightarrow> bool) \<Rightarrow> nat \<Rightarrow> 'a list \<Rightarrow> bool" where
  "is_heap lt n xs \<longleftrightarrow> (\<forall>k. 0 < k \<longrightarrow> k < n \<longrightarrow> heap_edge lt xs k)"

lemma is_heap_append: "n \<le> length xs \<Longrightarrow> is_heap lt n (xs @ ys) = is_heap lt n xs"
proof -
  assume n: "n \<le> length xs"
  have "heap_edge lt (xs @ ys) k = heap_edge lt xs k" if "0 < k" "k < n" for k
  proof -
    have "par k < length xs" "k < length xs" using that n by linarith+
    then show ?thesis by (simp add: heap_edge_def nth_append)
  qed
  then show ?thesis by (auto simp: is_heap_def)
qed

text \<open>The comparison orders the elements of a set: its converse complement is a total preorder.\<close>

definition orders :: "('a \<Rightarrow> 'a \<Rightarrow> bool) \<Rightarrow> 'a set \<Rightarrow> bool" where
  "orders lt A \<longleftrightarrow> (\<forall>x\<in>A. \<forall>y\<in>A. lt x y \<longrightarrow> \<not> lt y x) \<and>
     (\<forall>x\<in>A. \<forall>y\<in>A. \<forall>z\<in>A. \<not> lt y x \<longrightarrow> \<not> lt z y \<longrightarrow> \<not> lt z x)"

lemma orders_asym: "orders lt A \<Longrightarrow> x \<in> A \<Longrightarrow> y \<in> A \<Longrightarrow> lt x y \<Longrightarrow> \<not> lt y x"
  unfolding orders_def by blast

lemma orders_trans: "orders lt A \<Longrightarrow> x \<in> A \<Longrightarrow> y \<in> A \<Longrightarrow> z \<in> A \<Longrightarrow> \<not> lt y x \<Longrightarrow> \<not> lt z y \<Longrightarrow> \<not> lt z x"
  unfolding orders_def by blast

lemma is_heap_root:
  assumes "is_heap lt n xs" "orders lt (set xs)" "n \<le> length xs" "k < n"
  shows "\<not> lt (xs ! k) (xs ! 0)"
  using assms(4)
proof (induction k rule: less_induct)
  case (less k)
  show ?case
  proof (cases "k = 0")
    case True
    then have "xs ! 0 \<in> set xs" using less.prems assms(3) by (cases xs) auto
    with True show ?thesis
      using orders_asym [OF assms(2), of "xs ! 0" "xs ! 0"] by auto
  next
    case False
    then have "par k < k" by linarith
    with less False have "\<not> lt (xs ! par k) (xs ! 0)" "heap_edge lt xs k"
      using assms(1) by (auto simp: is_heap_def)
    moreover have "xs ! m \<in> set xs" if "m \<le> k" for m
      using that less.prems assms(3) by (intro nth_mem) simp
    ultimately show ?thesis
      using orders_trans [OF assms(2), of "xs ! 0" "xs ! par k" "xs ! k"] \<open>par k < k\<close>
      by (simp add: heap_edge_def)
  qed
qed

text \<open>
  \<open>hole_up\<close>: only the edge into \<open>i\<close> may be broken. \<open>hole_down\<close>: also the edges out of \<open>i\<close>.
  In both the parent of \<open>i\<close> is not above any child of \<open>i\<close>.
\<close>

definition bridge :: "('a \<Rightarrow> 'a \<Rightarrow> bool) \<Rightarrow> nat \<Rightarrow> 'a list \<Rightarrow> nat \<Rightarrow> bool" where
  "bridge lt n xs i \<longleftrightarrow> (0 < i \<longrightarrow> (\<forall>c. 0 < c \<longrightarrow> c < n \<longrightarrow> par c = i \<longrightarrow> \<not> lt (xs ! c) (xs ! par i)))"

definition hole_up :: "('a \<Rightarrow> 'a \<Rightarrow> bool) \<Rightarrow> nat \<Rightarrow> 'a list \<Rightarrow> nat \<Rightarrow> bool" where
  "hole_up lt n xs i \<longleftrightarrow> bridge lt n xs i \<and> (\<forall>k. 0 < k \<longrightarrow> k < n \<longrightarrow> k \<noteq> i \<longrightarrow> heap_edge lt xs k)"

definition hole_down :: "('a \<Rightarrow> 'a \<Rightarrow> bool) \<Rightarrow> nat \<Rightarrow> 'a list \<Rightarrow> nat \<Rightarrow> bool" where
  "hole_down lt n xs i \<longleftrightarrow> bridge lt n xs i \<and>
     (\<forall>k. 0 < k \<longrightarrow> k < n \<longrightarrow> k \<noteq> i \<longrightarrow> par k \<noteq> i \<longrightarrow> heap_edge lt xs k)"

lemma set_swapped: "i < length xs \<Longrightarrow> j < length xs \<Longrightarrow> set (swapped i j xs) = set xs"
  by (metis mset_swap set_mset_mset)

lemma nth_swapped:
  "i < length xs \<Longrightarrow> j < length xs \<Longrightarrow> swapped i j xs ! k = (if k = j then xs ! i else if k = i then xs ! j else xs ! k)"
  by (auto simp: nth_list_update)

lemma par_less: "0 < k \<Longrightarrow> par k < k"
  by linarith

text \<open>One step of each loop moves the hole.\<close>

lemma hole_up_step:
  assumes h: "hole_up lt n xs j" and ord: "orders lt (set xs)" and len: "n \<le> length xs"
    and j: "0 < j" "j < n" and lt: "lt (xs ! j) (xs ! par j)"
  shows "hole_up lt n (swapped (par j) j xs) (par j)"
proof -
  let ?i = "par j" and ?ys = "swapped (par j) j xs"
  have ij: "?i < j" using j by linarith
  have ys: "?ys ! k = (if k = j then xs ! ?i else if k = ?i then xs ! j else xs ! k)" for k
    using ij j len by (intro nth_swapped) auto
  have mem: "k < n \<Longrightarrow> xs ! k \<in> set xs" for k using len by simp
  have edge: "0 < k \<Longrightarrow> k < n \<Longrightarrow> k \<noteq> j \<Longrightarrow> \<not> lt (xs ! k) (xs ! par k)" for k
    using h by (simp add: hole_up_def heap_edge_def)
  have br: "0 < c \<Longrightarrow> c < n \<Longrightarrow> par c = j \<Longrightarrow> \<not> lt (xs ! c) (xs ! ?i)" for c
    using h j by (simp add: hole_up_def bridge_def)
  have as: "\<not> lt (xs ! ?i) (xs ! j)"
    using orders_asym [OF ord mem mem lt] ij j by simp
  have over: "\<not> lt (xs ! k) (xs ! j)" if "0 < k" "k < n" "k \<noteq> j" "par k = ?i" for k
    using orders_trans [OF ord mem mem mem as, of k] edge [of k] that ij j by simp
  have "heap_edge lt ?ys k" if k: "0 < k" "k < n" "k \<noteq> ?i" for k
  proof -
    have "par k < k" using k by linarith
    then show ?thesis
      using k as br [of k] over [of k] edge [of k] ij unfolding heap_edge_def ys by auto
  qed
  moreover have "bridge lt n ?ys ?i"
    unfolding bridge_def
  proof (intro impI allI)
    fix c assume c: "0 < ?i" "0 < c" "c < n" "par c = ?i"
    have p: "par ?i < ?i" using c by linarith
    have e: "\<not> lt (xs ! ?i) (xs ! par ?i)" using edge [of ?i] c ij j by simp
    have "\<not> lt (xs ! c) (xs ! par ?i)" if "c \<noteq> j"
      using orders_trans [OF ord mem mem mem e, of c] edge [of c] that c ij j p by simp
    moreover have "c \<noteq> ?i" using c by linarith
    ultimately show "\<not> lt (?ys ! c) (?ys ! par ?i)" unfolding ys using e p ij by auto
  qed
  ultimately show ?thesis by (simp add: hole_up_def)
qed

lemma hole_down_step:
  assumes h: "hole_down lt n xs i" and ord: "orders lt (set xs)" and len: "n \<le> length xs"
    and j: "0 < j" "j < n" "par j = i" and lt: "lt (xs ! j) (xs ! i)"
    and least: "\<And>c. 0 < c \<Longrightarrow> c < n \<Longrightarrow> par c = i \<Longrightarrow> \<not> lt (xs ! c) (xs ! j)"
  shows "hole_down lt n (swapped i j xs) j" "heap_edge lt (swapped i j xs) j"
    "0 < i \<Longrightarrow> heap_edge lt (swapped i j xs) i"
proof -
  let ?ys = "swapped i j xs"
  have ij: "i < j" using j by linarith
  have ys: "?ys ! k = (if k = j then xs ! i else if k = i then xs ! j else xs ! k)" for k
    using ij j len by (intro nth_swapped) auto
  have mem: "k < n \<Longrightarrow> xs ! k \<in> set xs" for k using len by simp
  have edge: "0 < k \<Longrightarrow> k < n \<Longrightarrow> k \<noteq> i \<Longrightarrow> par k \<noteq> i \<Longrightarrow> \<not> lt (xs ! k) (xs ! par k)" for k
    using h by (simp add: hole_down_def heap_edge_def)
  have as: "\<not> lt (xs ! i) (xs ! j)" using orders_asym [OF ord mem mem lt] ij j by simp
  then show "heap_edge lt ?ys j" unfolding heap_edge_def ys using j ij by simp
  show e: "heap_edge lt ?ys i" if "0 < i"
  proof -
    have "par i < i" using that by linarith
    then show ?thesis using that h j ij unfolding heap_edge_def ys
      by (simp add: hole_down_def bridge_def)
  qed
  have "heap_edge lt ?ys k" if k: "0 < k" "k < n" "k \<noteq> j" "par k \<noteq> j" for k
  proof -
    have "par k < k" using k by linarith
    then show ?thesis
      using k e least [of k] edge [of k] ij by (cases "k = i") (auto simp: heap_edge_def ys)
  qed
  moreover have "bridge lt n ?ys j"
    unfolding bridge_def
  proof (intro impI allI)
    fix c assume c: "0 < c" "c < n" "par c = j"
    have "j < c" using c j by linarith
    then show "\<not> lt (?ys ! c) (?ys ! par j)" unfolding ys using edge [of c] c j ij by simp
  qed
  ultimately show "hole_down lt n ?ys j" by (simp add: hole_down_def)
qed

text \<open>The child that \<^verbatim>\<open>down\<close> compares with.\<close>

definition small_child :: "('s \<Rightarrow> nat \<Rightarrow> nat \<Rightarrow> bool) \<Rightarrow> 's \<Rightarrow> nat \<Rightarrow> nat \<Rightarrow> nat" where
  "small_child Less s i n = (if 2 * i + 2 < n \<and> Less s (2 * i + 2) (2 * i + 1) then 2 * i + 2 else 2 * i + 1)"

lemma small_child_bounds:
  assumes "\<not> n \<le> 2 * i + 1"
  shows "i < small_child Less s i n" "small_child Less s i n < n" "par (small_child Less s i n) = i"
  using assms by (auto simp: small_child_def)

section \<open>The contract\<close>

locale heap_interface =
  fixes Less :: "'s \<Rightarrow> nat \<Rightarrow> nat \<Rightarrow> bool" and Swap :: "nat \<Rightarrow> nat \<Rightarrow> 's \<Rightarrow> 's"
    and elems :: "'s \<Rightarrow> 'a list" and lt :: "'a \<Rightarrow> 'a \<Rightarrow> bool" and inv :: "'s \<Rightarrow> bool"
  assumes Less_elems: "inv s \<Longrightarrow> i < length (elems s) \<Longrightarrow> j < length (elems s) \<Longrightarrow>
      Less s i j \<longleftrightarrow> lt (elems s ! i) (elems s ! j)"
    and elems_Swap: "inv s \<Longrightarrow> i < length (elems s) \<Longrightarrow> j < length (elems s) \<Longrightarrow>
      elems (Swap i j s) = swapped i j (elems s)"
    and inv_Swap: "inv s \<Longrightarrow> i < length (elems s) \<Longrightarrow> j < length (elems s) \<Longrightarrow> inv (Swap i j s)"
begin

lemma up_keeps:
  "inv s \<Longrightarrow> j < length (elems s) \<Longrightarrow>
     inv (heap_up Less Swap j s) \<and> mset (elems (heap_up Less Swap j s)) = mset (elems s) \<and>
     (\<forall>k>j. elems (heap_up Less Swap j s) ! k = elems s ! k)"
proof (induction j arbitrary: s rule: less_induct)
  case (less j)
  show ?case
  proof (cases "par j = j \<or> \<not> Less s j (par j)")
    case False
    then have "par j < j" by linarith
    with less False show ?thesis
      by (simp add: heap_up.simps [of Less Swap j s] Let_def elems_Swap inv_Swap mset_swap)
  qed (use less in \<open>auto simp: heap_up.simps [of Less Swap j s]\<close>)
qed

lemma up_heap:
  "inv s \<Longrightarrow> orders lt (set (elems s)) \<Longrightarrow> n \<le> length (elems s) \<Longrightarrow> j < n \<Longrightarrow>
     hole_up lt n (elems s) j \<Longrightarrow> is_heap lt n (elems (heap_up Less Swap j s))"
proof (induction j arbitrary: s rule: less_induct)
  case (less j)
  have len: "j < length (elems s)" "par j < length (elems s)" using less.prems by auto
  show ?case
  proof (cases "par j = j \<or> \<not> Less s j (par j)")
    case True
    moreover have "par j = j \<longleftrightarrow> j = 0" by linarith
    ultimately show ?thesis
      using less.prems len Less_elems [OF less.prems(1) len]
      by (auto simp: heap_up.simps [of Less Swap j s] is_heap_def hole_up_def heap_edge_def)
  next
    case False
    then have j: "par j < j" "0 < j" by linarith+
    have lt: "lt (elems s ! j) (elems s ! par j)"
      using False Less_elems [OF less.prems(1) len] by simp
    have "is_heap lt n (elems (heap_up Less Swap (par j) (Swap (par j) j s)))"
    proof (rule less.IH [OF j(1)])
      show "orders lt (set (elems (Swap (par j) j s)))" "n \<le> length (elems (Swap (par j) j s))"
        using less.prems len by (simp_all add: elems_Swap set_swapped)
      show "hole_up lt n (elems (Swap (par j) j s)) (par j)"
        using hole_up_step [OF less.prems(5,2,3) j(2) less.prems(4) lt] less.prems len
        by (simp add: elems_Swap)
    qed (use less.prems len j in \<open>simp_all add: inv_Swap\<close>)
    with False show ?thesis by (simp add: heap_up.simps [of Less Swap j s] Let_def)
  qed
qed

lemma down_unfold:
  "heap_down Less Swap i n s =
     (if n \<le> 2 * i + 1 \<or> \<not> Less s (small_child Less s i n) i then (i, s)
      else heap_down Less Swap (small_child Less s i n) n (Swap i (small_child Less s i n) s))"
  by (subst heap_down.simps) (auto simp: Let_def small_child_def)

lemma small_child_least:
  assumes "inv s" "orders lt (set (elems s))" "n \<le> length (elems s)" "0 < c" "c < n" "par c = i"
  shows "\<not> lt (elems s ! c) (elems s ! small_child Less s i n)"
proof -
  have c: "c = 2 * i + 1 \<or> c = 2 * i + 2" using assms(4,6) by presburger
  have mem: "k < n \<Longrightarrow> elems s ! k \<in> set (elems s)" for k using assms(3) by simp
  have refl: "k < n \<Longrightarrow> \<not> lt (elems s ! k) (elems s ! k)" for k
    using orders_asym [OF assms(2) mem mem] by blast
  show ?thesis
    using c assms(3,5) refl orders_asym [OF assms(2) mem mem, of "2 * i + 2" "2 * i + 1"]
    by (auto simp: small_child_def Less_elems [OF assms(1)])
qed

lemma down_keeps:
  "inv s \<Longrightarrow> n \<le> length (elems s) \<Longrightarrow> heap_down Less Swap i n s = (i', s') \<Longrightarrow>
     inv s' \<and> mset (elems s') = mset (elems s) \<and> (\<forall>k\<ge>n. elems s' ! k = elems s ! k) \<and> i \<le> i'"
proof (induction "n - i" arbitrary: i s rule: less_induct)
  case less
  let ?j = "small_child Less s i n"
  show ?case
  proof (cases "n \<le> 2 * i + 1 \<or> \<not> Less s ?j i")
    case False
    then have b: "i < ?j" "?j < n" using small_child_bounds [of n i Less s] by auto
    then have len: "i < length (elems s)" "?j < length (elems s)" using less.prems by auto
    have "inv s' \<and> mset (elems s') = mset (elems (Swap i ?j s)) \<and>
        (\<forall>k\<ge>n. elems s' ! k = elems (Swap i ?j s) ! k) \<and> ?j \<le> i'"
      using less.prems len b False
      by (intro less.hyps) (auto simp: down_unfold [of i n s] inv_Swap elems_Swap)
    then show ?thesis using b len less.prems by (auto simp: elems_Swap mset_swap)
  qed (use less.prems in \<open>auto simp: down_unfold [of i n s]\<close>)
qed

lemma down_swap:
  assumes "inv s" "orders lt (set (elems s))" "n \<le> length (elems s)" "hole_down lt n (elems s) i"
    and move: "\<not> (n \<le> 2 * i + 1 \<or> \<not> Less s (small_child Less s i n) i)"
  shows "hole_down lt n (elems (Swap i (small_child Less s i n) s)) (small_child Less s i n)"
    "heap_edge lt (elems (Swap i (small_child Less s i n) s)) (small_child Less s i n)"
    "orders lt (set (elems (Swap i (small_child Less s i n) s)))"
    "n \<le> length (elems (Swap i (small_child Less s i n) s))" "inv (Swap i (small_child Less s i n) s)"
proof -
  let ?j = "small_child Less s i n"
  have b: "i < ?j" "?j < n" "par ?j = i" using move small_child_bounds [of n i Less s] by auto
  then have len: "i < length (elems s)" "?j < length (elems s)" using assms(3) by auto
  have lt: "lt (elems s ! ?j) (elems s ! i)" using move Less_elems [OF assms(1) len(2,1)] by simp
  note st = hole_down_step [OF assms(4,2,3) _ b(2,3) lt small_child_least [OF assms(1,2,3)]]
  show "hole_down lt n (elems (Swap i ?j s)) ?j" "heap_edge lt (elems (Swap i ?j s)) ?j"
    using st(1,2) b len assms(1) by (simp_all add: elems_Swap)
  show "orders lt (set (elems (Swap i ?j s)))" "n \<le> length (elems (Swap i ?j s))" "inv (Swap i ?j s)"
    using assms len by (simp_all add: elems_Swap inv_Swap set_swapped)
qed

lemma down_stay:
  assumes "inv s" "orders lt (set (elems s))" "n \<le> length (elems s)" "hole_down lt n (elems s) i"
    and stay: "n \<le> 2 * i + 1 \<or> \<not> Less s (small_child Less s i n) i"
  shows "hole_up lt n (elems s) i"
proof -
  have "heap_edge lt (elems s) k" if k: "0 < k" "k < n" "par k = i" for k
  proof -
    have i: "i < n" "\<not> n \<le> 2 * i + 1" using k by auto
    let ?j = "small_child Less s i n"
    have b: "?j < n" using small_child_bounds [OF i(2)] by simp
    have mem: "m < n \<Longrightarrow> elems s ! m \<in> set (elems s)" for m using assms(3) by simp
    have "\<not> lt (elems s ! ?j) (elems s ! i)"
      using stay i b Less_elems [OF assms(1), of ?j i] assms(3) by simp
    then have "\<not> lt (elems s ! k) (elems s ! i)"
      using orders_trans [OF assms(2) mem mem mem] small_child_least [OF assms(1,2,3) k] i b k by blast
    then show ?thesis unfolding heap_edge_def k(3) .
  qed
  then show ?thesis using assms(4) by (auto simp: hole_up_def hole_down_def)
qed

lemma down_heap:
  "inv s \<Longrightarrow> orders lt (set (elems s)) \<Longrightarrow> n \<le> length (elems s) \<Longrightarrow> hole_down lt n (elems s) i \<Longrightarrow>
     (0 < i \<Longrightarrow> heap_edge lt (elems s) i) \<Longrightarrow> is_heap lt n (elems (snd (heap_down Less Swap i n s)))"
proof (induction "n - i" arbitrary: i s rule: less_induct)
  case less
  let ?j = "small_child Less s i n"
  show ?case
  proof (cases "n \<le> 2 * i + 1 \<or> \<not> Less s ?j i")
    case True
    with less.prems show ?thesis
      using down_stay [OF less.prems(1-4) True]
      by (auto simp: down_unfold [of i n s] is_heap_def hole_up_def)
  next
    case False
    then have "i < ?j" "?j < n" using small_child_bounds [of n i Less s] by auto
    then have "is_heap lt n (elems (snd (heap_down Less Swap ?j n (Swap i ?j s))))"
      using down_swap [OF less.prems(1-4) False] by (intro less.hyps) auto
    with False show ?thesis by (simp add: down_unfold [of i n s])
  qed
qed

lemma down_or_up:
  assumes "inv s" "orders lt (set (elems s))" "n \<le> length (elems s)" "hole_down lt n (elems s) i"
    and d: "heap_down Less Swap i n s = (i', s')"
  shows "if i < i' then is_heap lt n (elems s') else hole_up lt n (elems s') i"
proof (cases "n \<le> 2 * i + 1 \<or> \<not> Less s (small_child Less s i n) i")
  case True
  with d down_stay [OF assms(1-4) True] show ?thesis by (simp add: down_unfold [of i n s])
next
  case False
  let ?j = "small_child Less s i n"
  note sw = down_swap [OF assms(1-4) False]
  have dj: "heap_down Less Swap ?j n (Swap i ?j s) = (i', s')"
    using d False by (simp add: down_unfold [of i n s])
  have "i < ?j" using False small_child_bounds [of n i Less s] by auto
  then have "i < i'" using down_keeps [OF sw(5,4) dj] by simp
  moreover have "is_heap lt n (elems s')" using down_heap [OF sw(5,3,4,1,2)] dj by simp
  ultimately show ?thesis by simp
qed

lemma fix_last:
  assumes "inv s" "orders lt (set (elems s))" "0 < length (elems s)"
    and "is_heap lt (length (elems s) - 1) (elems s)"
  shows "inv (heap_fix_last Less Swap (length (elems s)) s)"
    "mset (elems (heap_fix_last Less Swap (length (elems s)) s)) = mset (elems s)"
    "is_heap lt (length (elems s)) (elems (heap_fix_last Less Swap (length (elems s)) s))"
proof -
  let ?n = "length (elems s)"
  show "inv (heap_fix_last Less Swap ?n s)" "mset (elems (heap_fix_last Less Swap ?n s)) = mset (elems s)"
    using up_keeps [OF assms(1), of "?n - 1"] assms(3) by (simp_all add: heap_fix_last_def)
  have "hole_up lt ?n (elems s) (?n - 1)"
    using assms(4) by (auto simp: hole_up_def bridge_def is_heap_def)
  then show "is_heap lt ?n (elems (heap_fix_last Less Swap ?n s))"
    using up_heap [OF assms(1,2), of ?n "?n - 1"] assms(3) by (simp add: heap_fix_last_def)
qed

lemma is_heap_hole_down:
  assumes "is_heap lt (Suc n) xs" "orders lt (set xs)" "n < length xs" "i < n"
  shows "hole_down lt n (swapped i n xs) i"
proof -
  have ys: "swapped i n xs ! k = (if k = n then xs ! i else if k = i then xs ! n else xs ! k)" for k
    using assms(3,4) by (intro nth_swapped) auto
  have edge: "0 < k \<Longrightarrow> k < n \<Longrightarrow> \<not> lt (xs ! k) (xs ! par k)" for k
    using assms(1) by (simp add: is_heap_def heap_edge_def)
  have mem: "k < n \<Longrightarrow> xs ! k \<in> set xs" for k using assms(3) by simp
  have "\<not> lt (xs ! c) (xs ! par i)" if "0 < i" "0 < c" "c < n" "par c = i" for c
  proof -
    have "par i < i" "i < c" using that by linarith+
    then show ?thesis
      using orders_trans [OF assms(2) mem mem mem, of "par i" i c] edge [of i] edge [of c] that assms(4)
      by auto
  qed
  moreover have "k < n \<Longrightarrow> par k \<noteq> n" "0 < k \<Longrightarrow> par k = i \<Longrightarrow> k \<noteq> i" for k by linarith+
  moreover have "0 < i \<Longrightarrow> par i \<noteq> i" by linarith
  ultimately show ?thesis
    using edge assms(4) unfolding hole_down_def bridge_def heap_edge_def ys by auto
qed

lemma root_to_last:
  assumes "inv s" "orders lt (set (elems s))" "length (elems s) = Suc n" "is_heap lt (Suc n) (elems s)"
  shows "inv (heap_root_to_last Less Swap (Suc n) s)"
    "mset (elems (heap_root_to_last Less Swap (Suc n) s)) = mset (elems s)"
    "elems (heap_root_to_last Less Swap (Suc n) s) ! n = elems s ! 0"
    "is_heap lt n (elems (heap_root_to_last Less Swap (Suc n) s))"
proof -
  let ?s = "Swap 0 n s"
  have e: "elems ?s = swapped 0 n (elems s)" "inv ?s" using assms by (simp_all add: elems_Swap inv_Swap)
  have o: "orders lt (set (elems ?s))" using assms(2,3) by (simp add: e set_swapped)
  obtain i' s' where d: "heap_down Less Swap 0 n ?s = (i', s')" by fastforce
  have k: "inv s' \<and> mset (elems s') = mset (elems ?s) \<and> (\<forall>k\<ge>n. elems s' ! k = elems ?s ! k)"
    using down_keeps [OF e(2) _ d] assms(3) by (simp add: e)
  then show "inv (heap_root_to_last Less Swap (Suc n) s)"
    "mset (elems (heap_root_to_last Less Swap (Suc n) s)) = mset (elems s)"
    "elems (heap_root_to_last Less Swap (Suc n) s) ! n = elems s ! 0"
    using assms(3) by (simp_all add: heap_root_to_last_def d e mset_swap)
  show "is_heap lt n (elems (heap_root_to_last Less Swap (Suc n) s))"
  proof (cases "n = 0")
    case False
    then have "hole_down lt n (elems ?s) 0"
      using is_heap_hole_down [OF assms(4,2), of 0] assms(3) by (simp add: e)
    then show ?thesis
      using down_heap [OF e(2) o, of n 0] assms(3) by (simp add: heap_root_to_last_def e)
  qed (simp add: is_heap_def)
qed

lemma nth_to_last:
  assumes "inv s" "orders lt (set (elems s))" "length (elems s) = Suc n" "is_heap lt (Suc n) (elems s)"
    and i: "i < Suc n"
  shows "inv (heap_nth_to_last Less Swap i (Suc n) s) \<and>
    mset (elems (heap_nth_to_last Less Swap i (Suc n) s)) = mset (elems s) \<and>
    elems (heap_nth_to_last Less Swap i (Suc n) s) ! n = elems s ! i \<and>
    is_heap lt n (elems (heap_nth_to_last Less Swap i (Suc n) s))"
proof (cases "n = i")
  case True
  then show ?thesis using assms by (simp add: heap_nth_to_last_def is_heap_def)
next
  case False
  then have "i < n" using i by simp
  let ?s = "Swap i n s"
  have e: "elems ?s = swapped i n (elems s)" "inv ?s"
    using assms by (simp_all add: elems_Swap inv_Swap)
  have o: "orders lt (set (elems ?s))" using assms(2,3) i by (simp add: e set_swapped)
  obtain i' s' where d: "heap_down Less Swap i n ?s = (i', s')" by fastforce
  have k: "inv s'" "mset (elems s') = mset (elems s)" "elems s' ! n = elems s ! i"
    using down_keeps [OF e(2) _ d] assms(3) i by (simp_all add: e mset_swap)
  then have l: "length (elems s') = Suc n" using assms(3) by (metis size_mset)
  have o': "orders lt (set (elems s'))" using assms(2) k(2) by (metis set_mset_mset)
  have "hole_down lt n (elems ?s) i"
    using is_heap_hole_down [OF assms(4,2) _ \<open>i < n\<close>] assms(3) by (simp add: e)
  then have h: "if i < i' then is_heap lt n (elems s') else hole_up lt n (elems s') i"
    using assms(3) by (intro down_or_up [OF e(2) o _ _ d]) (simp_all add: e)
  show ?thesis
  proof (cases "i < i'")
    case True
    with h k False show ?thesis by (simp add: heap_nth_to_last_def d)
  next
    case up: False
    have "is_heap lt n (elems (heap_up Less Swap i s'))"
      using up_heap [OF k(1) o', of n i] l \<open>i < n\<close> h up by simp
    moreover note up_keeps [OF k(1), of i]
    ultimately show ?thesis
      using up k l \<open>i < n\<close> False by (simp add: heap_nth_to_last_def d)
  qed
qed

end

end
