(* ===== verification/Jitter_Buffer.thy ===== *)
theory Jitter_Buffer
  imports Go_Heap Go_Float
begin

text \<open>
  The jitter buffer, \<^verbatim>\<open>internal/jitter_buffer.go\<close>: packets wait in a heap ordered by sequence
  number until their playout time, a map finds the packet with a given number, and the
  playout delay follows the observed arrival delay.

  The heap and the map hold pointers to the same packets, and \<^verbatim>\<open>Swap\<close> writes the position of
  a packet into the packet, so the packets live in a store (\<open>jb_objs\<close>; an address is a
  position of that list) and the heap and the map hold addresses. \<open>None\<close> is a panic. The
  clock readings are arguments; the Prometheus metrics are left out. Floating point is
  \<^const>\<open>fl\<close> after each operation.
\<close>

section \<open>Types\<close>

record JitterBufferConfig =
  jc_Enabled :: bool
  jc_MinDelay :: int
  jc_MaxDelay :: int
  jc_TargetDelay :: int
  jc_AdaptiveMode :: bool
  jc_MaxSize :: int

record JitterBufferInternalConfig =
  MinDelay :: duration
  MaxDelay :: duration
  TargetDelay :: duration
  AdaptiveMode :: bool
  MaxSize :: int

definition DefaultJitterBufferInternalConfig :: JitterBufferInternalConfig where
  "DefaultJitterBufferInternalConfig = \<lparr>MinDelay = 20 * millisecond, MaxDelay = 200 * millisecond,
     TargetDelay = 50 * millisecond, AdaptiveMode = True, MaxSize = 100\<rparr>"

definition ToJitterBufferInternalConfig :: "JitterBufferConfig option \<Rightarrow> JitterBufferInternalConfig" where
  "ToJitterBufferInternalConfig cfg =
     (case cfg of
        None \<Rightarrow> DefaultJitterBufferInternalConfig
      | Some c \<Rightarrow> \<lparr>MinDelay = wrap64 (jc_MinDelay c * millisecond), MaxDelay = wrap64 (jc_MaxDelay c * millisecond),
          TargetDelay = wrap64 (jc_TargetDelay c * millisecond), AdaptiveMode = jc_AdaptiveMode c,
          MaxSize = jc_MaxSize c\<rparr>)"

record BufferedPacket =
  bp_SequenceNumber :: u16
  bp_Timestamp :: u32
  bp_Payload :: "u8 list"
  bp_ReceivedAt :: gtime
  bp_index :: int

section \<open>The packet heap\<close>

text \<open>A \<^verbatim>\<open>PacketHeap\<close> with the store its pointers point into.\<close>

type_synonym PacketHeap = "BufferedPacket list \<times> nat list"

text \<open>\<^verbatim>\<open>int16(a - b) < 0\<close>.\<close>

definition seqLess :: "u16 \<Rightarrow> u16 \<Rightarrow> bool" where
  "seqLess a b \<longleftrightarrow> sint (a - b) < 0"

definition set_index :: "nat \<Rightarrow> int \<Rightarrow> BufferedPacket list \<Rightarrow> BufferedPacket list" where
  "set_index a i objs = objs[a := (objs ! a)\<lparr>bp_index := i\<rparr>]"

definition PacketHeap_Less :: "PacketHeap \<Rightarrow> nat \<Rightarrow> nat \<Rightarrow> bool" where
  "PacketHeap_Less ph i j = (case ph of (objs, h) \<Rightarrow>
     seqLess (bp_SequenceNumber (objs ! (h ! i))) (bp_SequenceNumber (objs ! (h ! j))))"

definition PacketHeap_Swap :: "nat \<Rightarrow> nat \<Rightarrow> PacketHeap \<Rightarrow> PacketHeap" where
  "PacketHeap_Swap i j ph = (case ph of (objs, h) \<Rightarrow>
     let h' = h[i := h ! j, j := h ! i]
     in (set_index (h' ! j) (int j) (set_index (h' ! i) (int i) objs), h'))"

definition PacketHeap_Push :: "nat \<Rightarrow> PacketHeap \<Rightarrow> PacketHeap" where
  "PacketHeap_Push a ph = (case ph of (objs, h) \<Rightarrow> (set_index a (int (length h)) objs, h @ [a]))"

definition PacketHeap_Pop :: "PacketHeap \<Rightarrow> nat \<times> PacketHeap" where
  "PacketHeap_Pop ph = (case ph of (objs, h) \<Rightarrow> (last h, (set_index (last h) (- 1) objs, butlast h)))"

text \<open>\<^verbatim>\<open>heap.Push\<close>, \<^verbatim>\<open>heap.Pop\<close> and \<^verbatim>\<open>heap.Remove\<close> on a packet heap; an index out of range panics.\<close>

definition heap_Push :: "nat \<Rightarrow> PacketHeap \<Rightarrow> PacketHeap" where
  "heap_Push a ph = (let ph1 = PacketHeap_Push a ph in
     heap_fix_last PacketHeap_Less PacketHeap_Swap (length (snd ph1)) ph1)"

definition heap_Pop :: "PacketHeap \<Rightarrow> (nat \<times> PacketHeap) option" where
  "heap_Pop ph =
     (if snd ph = [] then None
      else Some (PacketHeap_Pop (heap_root_to_last PacketHeap_Less PacketHeap_Swap (length (snd ph)) ph)))"

definition heap_Remove :: "int \<Rightarrow> PacketHeap \<Rightarrow> (nat \<times> PacketHeap) option" where
  "heap_Remove i ph =
     (if i < 0 \<or> int (length (snd ph)) \<le> i then None
      else Some (PacketHeap_Pop (heap_nth_to_last PacketHeap_Less PacketHeap_Swap (nat i) (length (snd ph)) ph)))"

section \<open>The buffer\<close>

record JitterBuffer =
  jb_config :: JitterBufferInternalConfig
  jb_sessionID :: string
  jb_clockRate :: u32
  jb_objs :: "BufferedPacket list"
  jb_packets :: "nat list"
  jb_packetMap :: "u16 \<rightharpoonup> nat"
  jb_nextExpected :: u16
  jb_initialized :: bool
  jb_currentDelay :: duration
  jb_lastPlayTime :: gtime
  jb_packetsIn :: u64
  jb_packetsOut :: u64
  jb_packetsDropped :: u64
  jb_packetsLate :: u64
  jb_reordered :: u64
  jb_jitterEstimate :: rat
  jb_avgDelay :: rat

text \<open>A negative capacity makes \<^verbatim>\<open>make\<close> panic. Initialising an empty heap does nothing.\<close>

definition NewJitterBuffer :: "string \<Rightarrow> u32 \<Rightarrow> JitterBufferInternalConfig option \<Rightarrow> JitterBuffer option" where
  "NewJitterBuffer sessionID clockRate config =
     (let c = (case config of None \<Rightarrow> DefaultJitterBufferInternalConfig | Some c \<Rightarrow> c) in
      if MaxSize c < 0 then None
      else Some \<lparr>jb_config = c, jb_sessionID = sessionID, jb_clockRate = clockRate, jb_objs = [],
        jb_packets = [], jb_packetMap = Map.empty, jb_nextExpected = 0, jb_initialized = False,
        jb_currentDelay = TargetDelay c, jb_lastPlayTime = 0, jb_packetsIn = 0, jb_packetsOut = 0,
        jb_packetsDropped = 0, jb_packetsLate = 0, jb_reordered = 0, jb_jitterEstimate = 0, jb_avgDelay = 0\<rparr>)"

definition NewJitterBufferFromConfig :: "string \<Rightarrow> u32 \<Rightarrow> JitterBufferConfig option \<Rightarrow> JitterBuffer option" where
  "NewJitterBufferFromConfig sessionID clockRate config =
     NewJitterBuffer sessionID clockRate (Some (ToJitterBufferInternalConfig config))"

definition clampDelay :: "JitterBufferInternalConfig \<Rightarrow> duration \<Rightarrow> duration" where
  "clampDelay c delay =
     (let d = (if delay < MinDelay c then MinDelay c else delay) in
      if d > MaxDelay c then MaxDelay c else d)"

definition updateAdaptiveDelay :: "gtime \<Rightarrow> BufferedPacket \<Rightarrow> JitterBuffer \<Rightarrow> JitterBuffer" where
  "updateAdaptiveDelay now pkt jb =
     (if jb_packetsIn jb < 2 then jb
      else
        let delay = Seconds (now - bp_ReceivedAt pkt);
            avgDelay = fl (fl (jb_avgDelay jb * fl (9 / 10)) + fl (delay * fl (1 / 10)));
            diff = fl (delay - avgDelay);
            diff' = (if diff < 0 then - diff else diff);
            jitterEstimate = fl (fl (jb_jitterEstimate jb * fl (9 / 10)) + fl (diff' * fl (1 / 10)));
            targetDelay = clampDelay (jb_config jb)
              (trunc (fl (fl (avgDelay + fl (2 * jitterEstimate)) * of_int second)));
            diff2 = fl (of_int (targetDelay - jb_currentDelay jb));
            adjustment = trunc (fl (diff2 * fl (1 / 10)))
        in jb\<lparr>jb_avgDelay := avgDelay, jb_jitterEstimate := jitterEstimate,
              jb_currentDelay := jb_currentDelay jb + adjustment\<rparr>)"

text \<open>Dropping the packet at the root of the heap, when the buffer is full.\<close>

definition dropOldest :: "JitterBuffer \<Rightarrow> JitterBuffer option" where
  "dropOldest jb =
     map_option (\<lambda>(oldest, (objs, h)).
       jb\<lparr>jb_objs := objs, jb_packets := h,
          jb_packetMap := (jb_packetMap jb)(bp_SequenceNumber (objs ! oldest) := None),
          jb_packetsDropped := jb_packetsDropped jb + 1\<rparr>)
       (heap_Pop (jb_objs jb, jb_packets jb))"

definition insertPacket :: "BufferedPacket \<Rightarrow> JitterBuffer \<Rightarrow> JitterBuffer" where
  "insertPacket pkt jb =
     (let a = length (jb_objs jb); (objs, h) = heap_Push a (jb_objs jb @ [pkt], jb_packets jb)
      in jb\<lparr>jb_objs := objs, jb_packets := h,
            jb_packetMap := (jb_packetMap jb)(bp_SequenceNumber pkt \<mapsto> a)\<rparr>)"

text \<open>\<open>now\<close> is the clock at the start of \<^verbatim>\<open>Push\<close>, \<open>now'\<close> the clock that \<^verbatim>\<open>updateAdaptiveDelay\<close> reads.\<close>

definition Push ::
  "gtime \<Rightarrow> gtime \<Rightarrow> u16 \<Rightarrow> u32 \<Rightarrow> u8 list \<Rightarrow> JitterBuffer \<Rightarrow> (bool \<times> JitterBuffer) option" where
  "Push now now' seq timestamp payload jb0 =
     (let jb1 = jb0\<lparr>jb_packetsIn := jb_packetsIn jb0 + 1\<rparr>;
          jb = (if \<not> jb_initialized jb1
                then jb1\<lparr>jb_nextExpected := seq, jb_initialized := True,
                         jb_lastPlayTime := now + jb_currentDelay jb1\<rparr>
                else jb1) in
      if jb_packetMap jb seq \<noteq> None then Some (False, jb)
      else if seqLess seq (jb_nextExpected jb) then Some (False, jb\<lparr>jb_packetsLate := jb_packetsLate jb + 1\<rparr>)
      else case (if int (length (jb_packets jb)) \<ge> MaxSize (jb_config jb) then dropOldest jb else Some jb) of
        None \<Rightarrow> None
      | Some jb2 \<Rightarrow>
          let pkt = \<lparr>bp_SequenceNumber = seq, bp_Timestamp = timestamp, bp_Payload = payload,
                     bp_ReceivedAt = now, bp_index = 0\<rparr>;
              jb3 = insertPacket pkt jb2;
              jb4 = (if seq \<noteq> jb_nextExpected jb3 \<and> seqLess (jb_nextExpected jb3) seq
                     then jb3\<lparr>jb_reordered := jb_reordered jb3 + 1\<rparr> else jb3);
              jb5 = (if AdaptiveMode (jb_config jb4) then updateAdaptiveDelay now' pkt jb4 else jb4)
          in Some (True, jb5))"

text \<open>Handing out a packet: what both branches of \<^verbatim>\<open>Pop\<close> do after the packet left the heap.\<close>

definition playTime :: "gtime \<Rightarrow> u32 \<Rightarrow> gtime" where
  "playTime now clockRate =
     (if clockRate > 0 then now + trunc (fl (of_int second / of_int (uint clockRate)))
      else now + 20 * millisecond)"

definition deliver :: "gtime \<Rightarrow> nat \<Rightarrow> PacketHeap \<Rightarrow> JitterBuffer \<Rightarrow> BufferedPacket option \<times> JitterBuffer" where
  "deliver now a ph jb = (case ph of (objs, h) \<Rightarrow>
     (Some (objs ! a),
      jb\<lparr>jb_objs := objs, jb_packets := h,
         jb_packetMap := (jb_packetMap jb)(bp_SequenceNumber (objs ! a) := None),
         jb_nextExpected := jb_nextExpected jb + 1, jb_packetsOut := jb_packetsOut jb + 1,
         jb_lastPlayTime := playTime now (jb_clockRate jb)\<rparr>))"

definition Pop :: "gtime \<Rightarrow> JitterBuffer \<Rightarrow> (BufferedPacket option \<times> JitterBuffer) option" where
  "Pop now jb =
     (if jb_packets jb = [] then Some (None, jb)
      else if now < jb_lastPlayTime jb then Some (None, jb)
      else case jb_packetMap jb (jb_nextExpected jb) of
        Some a \<Rightarrow>
          map_option (\<lambda>(_, ph). deliver now a ph jb)
            (heap_Remove (bp_index (jb_objs jb ! a)) (jb_objs jb, jb_packets jb))
      | None \<Rightarrow>
          if now - jb_lastPlayTime jb > MaxDelay (jb_config jb)
          then let jb1 = jb\<lparr>jb_nextExpected := bp_SequenceNumber (jb_objs jb ! hd (jb_packets jb))\<rparr>
               in map_option (\<lambda>(a, ph). deliver now a ph jb1) (heap_Pop (jb_objs jb, jb_packets jb))
          else Some (None, jb))"



fun popBatchLoop :: "(nat \<Rightarrow> gtime) \<Rightarrow> nat \<Rightarrow> nat \<Rightarrow> JitterBuffer \<Rightarrow> (BufferedPacket list \<times> JitterBuffer) option" where
  "popBatchLoop clock k 0 jb = Some ([], jb)"
| "popBatchLoop clock k (Suc n) jb =
     Option.bind (Pop (clock k) jb) (\<lambda>(r, jb').
       case r of None \<Rightarrow> Some ([], jb')
       | Some pkt \<Rightarrow> map_option (\<lambda>(pkts, jb''). (pkt # pkts, jb'')) (popBatchLoop clock (k + 1) n jb'))"

text \<open>A negative capacity of the result slice panics.\<close>

definition PopBatch :: "(nat \<Rightarrow> gtime) \<Rightarrow> int \<Rightarrow> JitterBuffer \<Rightarrow> (BufferedPacket list \<times> JitterBuffer) option" where
  "PopBatch clock maxPackets jb = (if maxPackets < 0 then None else popBatchLoop clock 0 (nat maxPackets) jb)"

text \<open>\<^verbatim>\<open>Flush\<close> adds the length of the heap after it has been emptied.\<close>

definition Flush :: "JitterBuffer \<Rightarrow> JitterBuffer" where
  "Flush jb = (let jb1 = jb\<lparr>jb_packets := [], jb_packetMap := Map.empty\<rparr>
     in jb1\<lparr>jb_packetsDropped := jb_packetsDropped jb1 + of_nat (length (jb_packets jb1))\<rparr>)"

definition Reset :: "JitterBuffer \<Rightarrow> JitterBuffer" where
  "Reset jb = jb\<lparr>jb_packets := [], jb_packetMap := Map.empty, jb_initialized := False, jb_packetsIn := 0,
     jb_packetsOut := 0, jb_packetsDropped := 0, jb_packetsLate := 0, jb_reordered := 0,
     jb_jitterEstimate := 0, jb_avgDelay := 0, jb_currentDelay := TargetDelay (jb_config jb)\<rparr>"

definition Size :: "JitterBuffer \<Rightarrow> nat" where
  "Size jb = length (jb_packets jb)"

record JitterBufferStats =
  js_PacketsIn :: u64
  js_PacketsOut :: u64
  js_PacketsDropped :: u64
  js_PacketsLate :: u64
  js_Reordered :: u64
  js_CurrentSize :: nat
  js_CurrentDelay :: duration
  js_JitterEstimate :: rat

definition GetStats :: "JitterBuffer \<Rightarrow> JitterBufferStats" where
  "GetStats jb = \<lparr>js_PacketsIn = jb_packetsIn jb, js_PacketsOut = jb_packetsOut jb,
     js_PacketsDropped = jb_packetsDropped jb, js_PacketsLate = jb_packetsLate jb,
     js_Reordered = jb_reordered jb, js_CurrentSize = length (jb_packets jb),
     js_CurrentDelay = jb_currentDelay jb, js_JitterEstimate = jb_jitterEstimate jb\<rparr>"

definition SetTargetDelay :: "duration \<Rightarrow> JitterBuffer \<Rightarrow> JitterBuffer" where
  "SetTargetDelay delay jb =
     jb\<lparr>jb_config := (jb_config jb)\<lparr>TargetDelay := clampDelay (jb_config jb) delay\<rparr>\<rparr>"

definition SetAdaptiveMode :: "bool \<Rightarrow> JitterBuffer \<Rightarrow> JitterBuffer" where
  "SetAdaptiveMode enabled jb = jb\<lparr>jb_config := (jb_config jb)\<lparr>AdaptiveMode := enabled\<rparr>\<rparr>"

definition HasPacket :: "u16 \<Rightarrow> JitterBuffer \<Rightarrow> bool" where
  "HasPacket seq jb \<longleftrightarrow> jb_packetMap jb seq \<noteq> None"

definition PeekNext :: "JitterBuffer \<Rightarrow> BufferedPacket option" where
  "PeekNext jb = map_option (\<lambda>a. jb_objs jb ! a) (jb_packetMap jb (jb_nextExpected jb))"

section \<open>The packet heap implements the contract\<close>

definition pkt_data :: "BufferedPacket list \<Rightarrow> nat \<Rightarrow> nat \<times> BufferedPacket" where
  "pkt_data objs a = (a, (objs ! a)\<lparr>bp_index := 0\<rparr>)"

definition ph_elems :: "PacketHeap \<Rightarrow> (nat \<times> BufferedPacket) list" where
  "ph_elems ph = map (pkt_data (fst ph)) (snd ph)"

definition ph_lt :: "nat \<times> BufferedPacket \<Rightarrow> nat \<times> BufferedPacket \<Rightarrow> bool" where
  "ph_lt x y = seqLess (bp_SequenceNumber (snd x)) (bp_SequenceNumber (snd y))"

text \<open>The pointers are valid and distinct, and every packet knows its position.\<close>

definition ph_inv :: "PacketHeap \<Rightarrow> bool" where
  "ph_inv ph \<longleftrightarrow> distinct (snd ph) \<and> (\<forall>a\<in>set (snd ph). a < length (fst ph)) \<and>
     (\<forall>i<length (snd ph). bp_index (fst ph ! (snd ph ! i)) = int i)"

lemma pkt_data_set_index [simp]: "pkt_data (set_index a i objs) = pkt_data objs"
proof
  show "pkt_data (set_index a i objs) b = pkt_data objs b" for b
    by (cases "a = b"; cases "a < length objs") (simp_all add: set_index_def pkt_data_def list_update_beyond)
qed

lemma set_index_simps [simp]:
  "length (set_index a i objs) = length objs"
  "b \<noteq> a \<Longrightarrow> set_index a i objs ! b = objs ! b"
  "a < length objs \<Longrightarrow> bp_index (set_index a i objs ! a) = i"
  by (simp_all add: set_index_def)

lemma length_ph_elems [simp]: "length (ph_elems ph) = length (snd ph)"
  by (simp add: ph_elems_def)

lemma ph_elems_nth: "i < length (snd ph) \<Longrightarrow> ph_elems ph ! i = pkt_data (fst ph) (snd ph ! i)"
  by (simp add: ph_elems_def)

lemma seq_pkt_data [simp]: "bp_SequenceNumber (snd (pkt_data objs a)) = bp_SequenceNumber (objs ! a)"
  "fst (pkt_data objs a) = a"
  by (simp_all add: pkt_data_def)

lemma swap_inv:
  assumes "ph_inv ph" "i < length (snd ph)" "j < length (snd ph)"
  shows "ph_inv (PacketHeap_Swap i j ph)"
proof -
  obtain objs h where ph: "ph = (objs, h)" by fastforce
  let ?h = "swapped i j h"
  let ?o = "set_index (?h ! j) (int j) (set_index (?h ! i) (int i) objs)"
  have d: "distinct ?h" "set ?h = set h" using assms by (auto simp: ph ph_inv_def set_swapped)
  have nth: "k < length h \<Longrightarrow> ?h ! k = (if k = j then h ! i else if k = i then h ! j else h ! k)" for k
    using assms by (intro nth_swapped) (auto simp: ph)
  have "bp_index (?o ! (?h ! k)) = int k" if k: "k < length h" for k
  proof -
    have "?h ! m \<in> set h" if "m < length h" for m
      using that assms nth [of m] by (simp add: ph)
    then have "?h ! k \<in> set h" "?h ! i \<in> set h" "?h ! j \<in> set h" using k assms by (simp_all add: ph)
    then have "?h ! k < length objs" "?h ! i < length objs" "?h ! j < length objs"
      using assms by (auto simp: ph ph_inv_def)
    moreover have "?h ! k = ?h ! i \<longleftrightarrow> k = i" "?h ! k = ?h ! j \<longleftrightarrow> k = j"
      using k assms(2,3) nth_eq_iff_index_eq [OF d(1)] by (simp_all add: ph del: nth_list_update nth_list_update_eq)
    ultimately show ?thesis
      using assms k nth [of k] by (cases "k = j"; cases "k = i") (auto simp: ph ph_inv_def)
  qed
  then show ?thesis
    using d assms by (simp add: ph PacketHeap_Swap_def ph_inv_def Let_def)
qed

interpretation ph: heap_interface PacketHeap_Less PacketHeap_Swap ph_elems ph_lt ph_inv
proof unfold_locales
  fix ph :: PacketHeap and i j
  assume a: "ph_inv ph" "i < length (ph_elems ph)" "j < length (ph_elems ph)"
  then show "PacketHeap_Less ph i j \<longleftrightarrow> ph_lt (ph_elems ph ! i) (ph_elems ph ! j)"
    by (simp add: PacketHeap_Less_def ph_lt_def ph_elems_nth split: prod.split)
  show "ph_elems (PacketHeap_Swap i j ph) = swapped i j (ph_elems ph)"
    using a by (simp add: PacketHeap_Swap_def ph_elems_def Let_def map_update split: prod.split)
  show "ph_inv (PacketHeap_Swap i j ph)" using a by (intro swap_inv) simp_all
qed

section \<open>Heap operations on the elements\<close>

lemma PacketHeap_Pop_spec:
  assumes "ph_inv ph" "snd ph = h @ [a]"
  shows "PacketHeap_Pop ph = (a, (set_index a (- 1) (fst ph), h))"
    "ph_inv (set_index a (- 1) (fst ph), h)"
    "ph_elems ph = ph_elems (set_index a (- 1) (fst ph), h) @ [pkt_data (fst ph) a]"
proof -
  obtain objs where ph: "ph = (objs, h @ [a])" using assms(2) by (cases ph) auto
  show "PacketHeap_Pop ph = (a, (set_index a (- 1) (fst ph), h))" by (simp add: ph PacketHeap_Pop_def)
  have "i < length h \<Longrightarrow> h ! i \<noteq> a" "i < length h \<Longrightarrow> bp_index (objs ! (h ! i)) = int i" for i
    using assms(1) nth_mem [of i h] by (auto simp: ph ph_inv_def nth_append split: if_splits)
  then show "ph_inv (set_index a (- 1) (fst ph), h)" using assms(1) by (simp add: ph ph_inv_def)
  show "ph_elems ph = ph_elems (set_index a (- 1) (fst ph), h) @ [pkt_data (fst ph) a]"
    by (simp add: ph ph_elems_def)
qed

text \<open>Taking out the element at position \<open>i\<close>, with \<^verbatim>\<open>heap.Remove\<close> or, at the root, with \<^verbatim>\<open>heap.Pop\<close>.\<close>

lemma take_out:
  assumes ph: "ph_inv ph'" "mset (ph_elems ph') = mset (ph_elems ph)" "ph_elems ph' ! n = x"
    "is_heap ph_lt n (ph_elems ph')" and len: "length (snd ph) = Suc n"
  obtains qh where "PacketHeap_Pop ph' = (fst x, qh)" "ph_inv qh"
    "mset (ph_elems ph) = add_mset x (mset (ph_elems qh))" "is_heap ph_lt n (ph_elems qh)"
    "pkt_data (fst qh) (fst x) = x" "length (snd qh) = n"
proof -
  have l: "length (snd ph') = Suc n" using ph(2) len by (metis length_ph_elems size_mset)
  then obtain h a where h: "snd ph' = h @ [a]" by (metis append_butlast_last_id length_greater_0_conv zero_less_Suc)
  then have n: "length h = n" using l by simp
  have x: "x = pkt_data (fst ph') a" using ph(3) l h n by (simp add: ph_elems_nth nth_append)
  note sp = PacketHeap_Pop_spec [OF ph(1) h]
  let ?q = "(set_index a (- 1) (fst ph'), h)"
  have "is_heap ph_lt n (ph_elems ?q)"
    using ph(4) n unfolding sp(3) by (simp add: is_heap_append)
  then show ?thesis
    using sp ph(2) n by (intro that [of ?q]) (auto simp: x)
qed

lemma heap_Pop_spec:
  assumes "ph_inv ph" "orders ph_lt (set (ph_elems ph))" "is_heap ph_lt (length (snd ph)) (ph_elems ph)"
    and ne: "snd ph \<noteq> []"
  obtains qh where "heap_Pop ph = Some (hd (snd ph), qh)" "ph_inv qh"
    "mset (ph_elems ph) = add_mset (pkt_data (fst ph) (hd (snd ph))) (mset (ph_elems qh))"
    "is_heap ph_lt (length (snd qh)) (ph_elems qh)"
    "pkt_data (fst qh) (hd (snd ph)) = pkt_data (fst ph) (hd (snd ph))"
    "Suc (length (snd qh)) = length (snd ph)"
proof -
  obtain n where n: "length (snd ph) = Suc n" using ne by (cases "snd ph") auto
  let ?x = "pkt_data (fst ph) (hd (snd ph))"
  have x: "ph_elems ph ! 0 = ?x" using ne by (simp add: ph_elems_nth hd_conv_nth)
  note r = ph.root_to_last [OF assms(1,2), of n, unfolded length_ph_elems, OF n assms(3) [unfolded n]]
  obtain qh where "PacketHeap_Pop (heap_root_to_last PacketHeap_Less PacketHeap_Swap (Suc n) ph) = (fst ?x, qh)"
    "ph_inv qh" "mset (ph_elems ph) = add_mset ?x (mset (ph_elems qh))" "is_heap ph_lt n (ph_elems qh)"
    "pkt_data (fst qh) (fst ?x) = ?x" "length (snd qh) = n"
    using take_out [OF r(1,2,3,4) n] by (metis x)
  then show ?thesis using ne n by (intro that [of qh]) (auto simp: heap_Pop_def)
qed

lemma heap_Remove_spec:
  assumes "ph_inv ph" "orders ph_lt (set (ph_elems ph))" "is_heap ph_lt (length (snd ph)) (ph_elems ph)"
    and a: "a \<in> set (snd ph)"
  obtains qh where "heap_Remove (bp_index (fst ph ! a)) ph = Some (a, qh)" "ph_inv qh"
    "mset (ph_elems ph) = add_mset (pkt_data (fst ph) a) (mset (ph_elems qh))"
    "is_heap ph_lt (length (snd qh)) (ph_elems qh)"
    "pkt_data (fst qh) a = pkt_data (fst ph) a" "Suc (length (snd qh)) = length (snd ph)"
proof -
  obtain i where i: "i < length (snd ph)" "snd ph ! i = a" using a by (auto simp: in_set_conv_nth)
  then obtain n where n: "length (snd ph) = Suc n" by (cases "length (snd ph)") auto
  let ?x = "pkt_data (fst ph) a"
  have x: "ph_elems ph ! i = ?x" "bp_index (fst ph ! a) = int i"
    using i assms(1) by (auto simp: ph_elems_nth ph_inv_def)
  note r = ph.nth_to_last [OF assms(1,2), of n i, unfolded length_ph_elems, OF n assms(3) [unfolded n] i(1) [unfolded n]]
  obtain qh where "PacketHeap_Pop (heap_nth_to_last PacketHeap_Less PacketHeap_Swap i (Suc n) ph) = (fst ?x, qh)"
    "ph_inv qh" "mset (ph_elems ph) = add_mset ?x (mset (ph_elems qh))" "is_heap ph_lt n (ph_elems qh)"
    "pkt_data (fst qh) (fst ?x) = ?x" "length (snd qh) = n"
    using r take_out [OF _ _ _ _ n] by (metis x(1))
  then show ?thesis using i n by (intro that [of qh]) (auto simp: heap_Remove_def x(2))
qed

lemma heap_Push_spec:
  assumes "ph_inv (objs, h)" "a < length objs" "a \<notin> set h"
    and "orders ph_lt (insert (pkt_data objs a) (set (ph_elems (objs, h))))"
    and "is_heap ph_lt (length h) (ph_elems (objs, h))"
  shows "ph_inv (heap_Push a (objs, h))"
    "mset (ph_elems (heap_Push a (objs, h))) = add_mset (pkt_data objs a) (mset (ph_elems (objs, h)))"
    "is_heap ph_lt (length (snd (heap_Push a (objs, h)))) (ph_elems (heap_Push a (objs, h)))"
proof -
  let ?p = "PacketHeap_Push a (objs, h)"
  have "i < length h \<Longrightarrow> h ! i \<noteq> a" for i using assms(3) nth_mem [of i h] by auto
  then have inv: "ph_inv ?p"
    using assms(1-3) by (simp add: PacketHeap_Push_def ph_inv_def nth_append less_Suc_eq)
  have e: "ph_elems ?p = ph_elems (objs, h) @ [pkt_data objs a]"
    by (simp add: PacketHeap_Push_def ph_elems_def)
  have h: "is_heap ph_lt (length (ph_elems ?p) - 1) (ph_elems ?p)"
    using assms(5) unfolding e by (simp add: is_heap_append)
  have o: "orders ph_lt (set (ph_elems ?p))" using assms(4) by (simp add: e)
  have l: "0 < length (ph_elems ?p)" by (simp add: e)
  note f = ph.fix_last [OF inv o l h]
  show "ph_inv (heap_Push a (objs, h))"
    "mset (ph_elems (heap_Push a (objs, h))) = add_mset (pkt_data objs a) (mset (ph_elems (objs, h)))"
    using f(1,2) unfolding heap_Push_def Let_def length_ph_elems by (simp_all add: e)
  moreover have "length (ph_elems (heap_Push a (objs, h))) = length (ph_elems ?p)"
    using f(2) by (metis heap_Push_def length_ph_elems size_mset)
  ultimately show "is_heap ph_lt (length (snd (heap_Push a (objs, h)))) (ph_elems (heap_Push a (objs, h)))"
    using f(3) by (simp add: heap_Push_def Let_def)
qed

section \<open>Sequence numbers in the window\<close>

text \<open>How far a sequence number is ahead of the next expected one.\<close>

definition ahead :: "u16 \<Rightarrow> u16 \<Rightarrow> nat" where
  "ahead base q = unat (q - base)"

lemma mod_shift_less:
  assumes "0 < H" "0 \<le> u" "u < 2 * (H :: int)"
  shows "(u + H) mod (2 * H) < H \<longleftrightarrow> H \<le> u"
proof (cases "u < H")
  case False
  then have "(u + H) mod (2 * H) = u - H" using assms by (simp add: mod_pos_geq)
  then show ?thesis using assms False by simp
qed (use assms in \<open>simp add: mod_pos_pos_trivial\<close>)

lemma length_u16: "LENGTH(16) = 16" "16 - 1 = (15 :: nat)"
  by simp_all

lemma half_le_int: "2 ^ 15 \<le> int n \<longleftrightarrow> 2 ^ 15 \<le> n"
  by simp

lemma sint_neg_iff: "sint (w :: u16) < 0 \<longleftrightarrow> 2 ^ 15 \<le> unat w"
proof -
  have e: "(2 :: int) ^ 16 = 2 * 2 ^ 15" by simp
  have s: "sint w = (uint w + 2 ^ 15) mod (2 * 2 ^ 15) - 2 ^ 15"
    using int_word_sint [of "uint w", where 'a = 16] unfolding word_of_int_uint length_u16 e .
  have "uint w < 2 * 2 ^ 15" using uint_lt2p [of w] by simp
  then have "(uint w + 2 ^ 15) mod (2 * 2 ^ 15) < 2 ^ 15 \<longleftrightarrow> 2 ^ 15 \<le> uint w"
    by (intro mod_shift_less) simp_all
  then have "sint w < 0 \<longleftrightarrow> 2 ^ 15 \<le> uint w" unfolding s by linarith
  also have "\<dots> \<longleftrightarrow> 2 ^ 15 \<le> unat w"
    unfolding uint_nat by (rule half_le_int)
  finally show ?thesis .
qed

lemma not_seqLess_iff: "\<not> seqLess q base \<longleftrightarrow> ahead base q < 2 ^ 15"
  unfolding seqLess_def sint_neg_iff ahead_def by (rule not_le)

lemma unat_sub_wrap: "unat (x - y :: u16) = (if y \<le> x then unat x - unat y else unat x + 2 ^ 16 - unat y)"
  by (simp only: unat_sub_if' word_le_nat_alt length_u16)

lemma seqLess_window:
  assumes "ahead base a < 2 ^ 15" "ahead base b < 2 ^ 15"
  shows "seqLess a b \<longleftrightarrow> ahead base a < ahead base b"
proof -
  have "unat (a - b) = unat ((a - base) - (b - base))" by simp
  also have "\<dots> = (if ahead base b \<le> ahead base a then ahead base a - ahead base b
      else ahead base a + 2 ^ 16 - ahead base b)"
    unfolding ahead_def by (subst unat_sub_wrap) (simp add: word_le_nat_alt)
  finally show ?thesis using assms by (auto simp: seqLess_def sint_neg_iff split: if_splits)
qed

lemma ahead_inject [simp]: "ahead base a = ahead base b \<longleftrightarrow> a = b"
  unfolding ahead_def by (metis diff_add_cancel word_unat_eq_iff)

lemma ahead_self [simp]: "ahead base base = 0"
  by (simp add: ahead_def)

text \<open>Advancing past \<open>p\<close> shifts the distances of the numbers behind it in the order.\<close>

lemma ahead_advance:
  assumes "ahead base p < ahead base q"
  shows "ahead (p + 1) q = ahead base q - ahead base p - 1"
proof -
  have eq: "q - (p + 1) = (q - base) - (p - base) - 1" by simp
  have "p - base < q - base" using assms by (simp add: ahead_def word_less_nat_alt)
  then have d: "unat ((q - base) - (p - base)) = unat (q - base) - unat (p - base)"
    by (subst unat_sub_wrap) (simp add: less_imp_le)
  then have "1 \<le> unat ((q - base) - (p - base))" using assms unfolding ahead_def by linarith
  then have "unat ((q - base) - (p - base) - 1) = unat ((q - base) - (p - base)) - 1"
    by (subst unat_sub_wrap) (simp add: word_le_nat_alt)
  then show ?thesis unfolding ahead_def eq d .
qed

lemma orders_window:
  assumes "\<And>x. x \<in> A \<Longrightarrow> ahead base (bp_SequenceNumber (snd x)) < 2 ^ 15"
  shows "orders ph_lt A"
  using assms unfolding orders_def ph_lt_def by (auto simp: seqLess_window [of base])

section \<open>Invariant and abstract queue\<close>

definition jb_elems :: "JitterBuffer \<Rightarrow> (nat \<times> BufferedPacket) list" where
  "jb_elems jb = ph_elems (jb_objs jb, jb_packets jb)"

definition jb_inv :: "JitterBuffer \<Rightarrow> bool" where
  "jb_inv jb \<longleftrightarrow> ph_inv (jb_objs jb, jb_packets jb) \<and>
     is_heap ph_lt (length (jb_packets jb)) (jb_elems jb) \<and>
     (\<forall>q a. jb_packetMap jb q = Some a \<longleftrightarrow> (\<exists>d. (a, d) \<in> set (jb_elems jb) \<and> bp_SequenceNumber d = q)) \<and>
     (\<forall>x\<in>set (jb_elems jb). ahead (jb_nextExpected jb) (bp_SequenceNumber (snd x)) < 2 ^ 15) \<and>
     (\<not> jb_initialized jb \<longrightarrow> jb_packets jb = []) \<and>
     0 < MaxSize (jb_config jb) \<and> int (length (jb_packets jb)) \<le> MaxSize (jb_config jb)"

text \<open>What a buffer promises: a queue of packets in the order of their distance from the next
  expected sequence number.\<close>

definition jb_queue :: "JitterBuffer \<Rightarrow> BufferedPacket list" where
  "jb_queue jb = sort_key (\<lambda>p. ahead (jb_nextExpected jb) (bp_SequenceNumber p)) (map snd (jb_elems jb))"

lemma jb_elems_distinct: "jb_inv jb \<Longrightarrow> distinct (map fst (jb_elems jb))"
  by (simp add: jb_inv_def ph_inv_def jb_elems_def ph_elems_def comp_def)

lemma jb_seq_inj:
  assumes "jb_inv jb" "x \<in> set (jb_elems jb)" "y \<in> set (jb_elems jb)"
    and "bp_SequenceNumber (snd x) = bp_SequenceNumber (snd y)"
  shows "x = y"
proof -
  have "jb_packetMap jb (bp_SequenceNumber (snd z)) = Some (fst z)" if "z \<in> set (jb_elems jb)" for z
    using assms(1) that by (cases z) (auto simp: jb_inv_def)
  then have "fst x = fst y" using assms by (metis option.inject)
  with assms show ?thesis using jb_elems_distinct by (metis eq_key_imp_eq_value prod.collapse)
qed

lemma jb_key_inj: "jb_inv jb \<Longrightarrow> inj_on (\<lambda>p. ahead n (bp_SequenceNumber p)) (snd ` set (jb_elems jb))"
  by (auto simp: inj_on_def dest: jb_seq_inj)

lemma take_out_inv:
  assumes inv: "jb_inv jb" and x: "mset (jb_elems jb) = add_mset x (mset (ph_elems (objs, h)))"
    and ph: "ph_inv (objs, h)" "is_heap ph_lt (length h) (ph_elems (objs, h))"
    and len: "Suc (length h) = length (jb_packets jb)"
    and win: "\<And>y. y \<in> set (ph_elems (objs, h)) \<Longrightarrow> ahead n (bp_SequenceNumber (snd y)) < 2 ^ 15"
  shows "jb_inv (jb\<lparr>jb_objs := objs, jb_packets := h,
    jb_packetMap := (jb_packetMap jb)(bp_SequenceNumber (snd x) := None), jb_nextExpected := n\<rparr>)"
proof -
  have set: "set (jb_elems jb) = insert x (set (ph_elems (objs, h)))"
    using x by (metis set_mset_add_mset_insert set_mset_mset)
  have "mset (map fst (jb_elems jb)) = add_mset (fst x) (mset (map fst (ph_elems (objs, h))))"
    using x by (metis image_mset_add_mset mset_map)
  then have "distinct (fst x # map fst (ph_elems (objs, h)))"
    using jb_elems_distinct [OF inv] by (metis mset.simps(2) mset_eq_imp_distinct_iff)
  then have new: "y \<in> set (ph_elems (objs, h)) \<Longrightarrow> y \<noteq> x" for y by auto
  have other: "bp_SequenceNumber (snd y) \<noteq> bp_SequenceNumber (snd x)"
    if "y \<in> set (ph_elems (objs, h))" for y
    using jb_seq_inj [OF inv, of y x] new [OF that] that by (auto simp: set)
  have "((jb_packetMap jb)(bp_SequenceNumber (snd x) := None)) q = Some a \<longleftrightarrow>
      (\<exists>d. (a, d) \<in> set (ph_elems (objs, h)) \<and> bp_SequenceNumber d = q)" for q a
  proof -
    have "jb_packetMap jb q = Some a \<longleftrightarrow> (\<exists>d. (a, d) \<in> set (jb_elems jb) \<and> bp_SequenceNumber d = q)"
      using inv by (simp add: jb_inv_def)
    then show ?thesis using other by (cases x; cases "q = bp_SequenceNumber (snd x)") (auto simp: set)
  qed
  moreover have "jb_initialized jb" using inv len by (auto simp: jb_inv_def)
  ultimately show ?thesis
    using inv ph len win by (simp add: jb_inv_def jb_elems_def)
qed

lemma sort_key_first:
  assumes "mset xs = add_mset p (mset ys)" "inj_on f (set xs)" "\<And>y. y \<in> set ys \<Longrightarrow> f p \<le> f y"
  shows "sort_key f xs = p # sort_key f ys"
  using assms by (intro sort_key_inj_key_eq) simp_all

lemma sort_key_insert:
  assumes "mset xs = add_mset p (mset ys)" "inj_on f (set xs)"
  shows "sort_key f xs = insort_key f p (sort_key f ys)"
  using assms by (intro sort_key_inj_key_eq) (simp_all add: sorted_insort_key)

lemma sort_key_same_order:
  assumes "inj_on g (set xs)" "\<And>x y. x \<in> set xs \<Longrightarrow> y \<in> set xs \<Longrightarrow> f x \<le> f y \<Longrightarrow> g x \<le> g y"
  shows "sort_key g xs = sort_key f xs"
proof (rule sort_key_inj_key_eq [OF _ assms(1)])
  have "sorted_wrt (\<lambda>x y. f x \<le> f y) (sort_key f xs)"
    using sorted_sort_key [of f xs] by (simp add: sorted_map)
  then have "sorted_wrt (\<lambda>x y. g x \<le> g y) (sort_key f xs)"
    by (rule sorted_wrt_mono_rel [rotated]) (use assms(2) in auto)
  then show "sorted (map g (sort_key f xs))" by (simp add: sorted_map)
qed simp

text \<open>Taking out the packet that is least ahead leaves the rest of the queue, whether the next
  expected number stays (overflow) or moves past the packet (playout).\<close>

lemma take_out_first:
  assumes inv: "jb_inv jb" and x: "mset (jb_elems jb) = add_mset x (mset (ph_elems (objs, h)))"
    and ph: "ph_inv (objs, h)" "is_heap ph_lt (length h) (ph_elems (objs, h))"
    and len: "Suc (length h) = length (jb_packets jb)"
    and least: "\<And>y. y \<in> set (jb_elems jb) \<Longrightarrow>
      ahead (jb_nextExpected jb) (bp_SequenceNumber (snd x)) \<le> ahead (jb_nextExpected jb) (bp_SequenceNumber (snd y))"
    and n: "n = jb_nextExpected jb \<or> n = bp_SequenceNumber (snd x) + 1"
    and jb': "jb' = jb\<lparr>jb_objs := objs, jb_packets := h,
      jb_packetMap := (jb_packetMap jb)(bp_SequenceNumber (snd x) := None), jb_nextExpected := n\<rparr>"
  shows "jb_inv jb'" "jb_queue jb = snd x # jb_queue jb'"
proof -
  let ?k = "\<lambda>p. ahead (jb_nextExpected jb) (bp_SequenceNumber p)"
  let ?k' = "\<lambda>p. ahead n (bp_SequenceNumber p)"
  let ?E = "ph_elems (objs, h)"
  have set: "set (jb_elems jb) = insert x (set ?E)"
    using x by (metis set_mset_add_mset_insert set_mset_mset)
  have "distinct (jb_elems jb)" using jb_elems_distinct [OF inv] by (simp add: distinct_map)
  then have new: "x \<notin> set ?E" using x by (metis distinct.simps(2) mset.simps(2) mset_eq_imp_distinct_iff)
  have lt: "?k (snd x) < ?k (snd y)" if "y \<in> set ?E" for y
  proof -
    have "bp_SequenceNumber (snd y) \<noteq> bp_SequenceNumber (snd x)"
      using jb_seq_inj [OF inv, of y x] that new by (auto simp: set)
    then have "?k (snd x) \<noteq> ?k (snd y)" by simp
    moreover have "?k (snd x) \<le> ?k (snd y)" using least [of y] that by (simp add: set)
    ultimately show ?thesis by (intro le_neq_implies_less)
  qed
  have k': "?k' (snd y) = (if n = jb_nextExpected jb then ?k (snd y) else ?k (snd y) - ?k (snd x) - 1)"
    if "y \<in> set ?E" for y
    using n ahead_advance [OF lt [OF that]] by auto
  have win: "?k (snd y) < 2 ^ 15" if "y \<in> set ?E" for y
    using inv that by (simp add: jb_inv_def set)
  have "?k' (snd y) < 2 ^ 15" if "y \<in> set ?E" for y
    unfolding k' [OF that] using win [OF that] by (auto intro: le_less_trans)
  then show "jb_inv jb'" unfolding jb' using take_out_inv [OF inv x ph len] by blast
  have "jb_queue jb = snd x # sort_key ?k (map snd ?E)"
    unfolding jb_queue_def
  proof (rule sort_key_first)
    show "mset (map snd (jb_elems jb)) = add_mset (snd x) (mset (map snd ?E))"
      using x by (metis image_mset_add_mset mset_map)
    show "inj_on ?k (set (map snd (jb_elems jb)))" using jb_key_inj [OF inv] by simp
    show "?k (snd x) \<le> ?k p" if "p \<in> set (map snd ?E)" for p using lt that by fastforce
  qed
  also have "sort_key ?k (map snd ?E) = sort_key ?k' (map snd ?E)"
  proof (rule sort_key_same_order [symmetric])
    show "inj_on ?k' (set (map snd ?E))"
      using jb_key_inj [OF inv, of n] by (auto simp: set intro: inj_on_subset)
    show "?k' p \<le> ?k' q" if "p \<in> set (map snd ?E)" "q \<in> set (map snd ?E)" "?k p \<le> ?k q" for p q
      using that k' by fastforce
  qed
  also have "\<dots> = jb_queue jb'" by (simp add: jb_queue_def jb' jb_elems_def)
  finally show "jb_queue jb = snd x # jb_queue jb'" .
qed

lemma jb_orders: "jb_inv jb \<Longrightarrow> orders ph_lt (set (jb_elems jb))"
  by (rule orders_window [of _ "jb_nextExpected jb"]) (simp add: jb_inv_def)

lemma jb_root_least:
  assumes inv: "jb_inv jb" and "jb_packets jb \<noteq> []" and y: "y \<in> set (jb_elems jb)"
  shows "ahead (jb_nextExpected jb) (bp_SequenceNumber (jb_objs jb ! hd (jb_packets jb)))
    \<le> ahead (jb_nextExpected jb) (bp_SequenceNumber (snd y))"
proof -
  let ?r = "jb_elems jb ! 0"
  have "0 < length (jb_elems jb)" using assms(2) by (simp add: jb_elems_def)
  then have r: "?r = pkt_data (jb_objs jb) (hd (jb_packets jb))" "?r \<in> set (jb_elems jb)"
    using assms(2) by (simp add: jb_elems_def ph_elems_nth hd_conv_nth, simp)
  obtain i where i: "i < length (jb_packets jb)" "y = jb_elems jb ! i"
    using y by (auto simp: in_set_conv_nth jb_elems_def)
  have "is_heap ph_lt (length (jb_packets jb)) (jb_elems jb)" using inv by (simp add: jb_inv_def)
  then have "\<not> ph_lt y ?r"
    using is_heap_root [OF _ jb_orders [OF inv]] i by (simp add: jb_elems_def)
  moreover have "z \<in> set (jb_elems jb) \<Longrightarrow> ahead (jb_nextExpected jb) (bp_SequenceNumber (snd z)) < 2 ^ 15" for z
    using inv by (simp add: jb_inv_def)
  ultimately have "\<not> ahead (jb_nextExpected jb) (bp_SequenceNumber (snd y))
      < ahead (jb_nextExpected jb) (bp_SequenceNumber (snd ?r))"
    unfolding ph_lt_def using seqLess_window r(2) y by blast
  then show ?thesis by (simp add: r(1))
qed

text \<open>The fields that do not matter for the contents of the buffer.\<close>

lemma jb_frame [simp]:
  "jb_inv (jb\<lparr>jb_packetsIn := a\<rparr>) = jb_inv jb" "jb_queue (jb\<lparr>jb_packetsIn := a\<rparr>) = jb_queue jb"
  "jb_inv (jb\<lparr>jb_packetsOut := a\<rparr>) = jb_inv jb" "jb_queue (jb\<lparr>jb_packetsOut := a\<rparr>) = jb_queue jb"
  "jb_inv (jb\<lparr>jb_packetsDropped := a\<rparr>) = jb_inv jb" "jb_queue (jb\<lparr>jb_packetsDropped := a\<rparr>) = jb_queue jb"
  "jb_inv (jb\<lparr>jb_packetsLate := a\<rparr>) = jb_inv jb" "jb_queue (jb\<lparr>jb_packetsLate := a\<rparr>) = jb_queue jb"
  "jb_inv (jb\<lparr>jb_reordered := a\<rparr>) = jb_inv jb" "jb_queue (jb\<lparr>jb_reordered := a\<rparr>) = jb_queue jb"
  "jb_inv (jb\<lparr>jb_lastPlayTime := t\<rparr>) = jb_inv jb" "jb_queue (jb\<lparr>jb_lastPlayTime := t\<rparr>) = jb_queue jb"
  "jb_inv (jb\<lparr>jb_avgDelay := r\<rparr>) = jb_inv jb" "jb_queue (jb\<lparr>jb_avgDelay := r\<rparr>) = jb_queue jb"
  "jb_inv (jb\<lparr>jb_jitterEstimate := r\<rparr>) = jb_inv jb" "jb_queue (jb\<lparr>jb_jitterEstimate := r\<rparr>) = jb_queue jb"
  "jb_inv (jb\<lparr>jb_currentDelay := t\<rparr>) = jb_inv jb" "jb_queue (jb\<lparr>jb_currentDelay := t\<rparr>) = jb_queue jb"
  by (simp_all add: jb_inv_def jb_queue_def jb_elems_def)

lemma updateAdaptiveDelay_frame [simp]:
  "jb_inv (updateAdaptiveDelay now pkt jb) = jb_inv jb"
  "jb_queue (updateAdaptiveDelay now pkt jb) = jb_queue jb"
  "jb_nextExpected (updateAdaptiveDelay now pkt jb) = jb_nextExpected jb"
  "jb_config (updateAdaptiveDelay now pkt jb) = jb_config jb"
  by (simp_all add: updateAdaptiveDelay_def Let_def)

lemma dropOldest_spec:
  assumes inv: "jb_inv jb" and ne: "jb_packets jb \<noteq> []"
  obtains jb' where "dropOldest jb = Some jb'" "jb_inv jb'" "jb_queue jb' = tl (jb_queue jb)"
    "jb_nextExpected jb' = jb_nextExpected jb" "jb_config jb' = jb_config jb" "jb_initialized jb' = jb_initialized jb"
    "Suc (length (jb_packets jb')) = length (jb_packets jb)"
    "\<And>q. jb_packetMap jb q = None \<Longrightarrow> jb_packetMap jb' q = None"
proof -
  let ?ph = "(jb_objs jb, jb_packets jb)"
  have h: "ph_inv ?ph" "is_heap ph_lt (length (jb_packets jb)) (ph_elems ?ph)"
    "orders ph_lt (set (ph_elems ?ph))"
    using inv jb_orders [OF inv] by (simp_all add: jb_inv_def jb_elems_def)
  obtain objs h where q: "heap_Pop ?ph = Some (hd (jb_packets jb), (objs, h))" "ph_inv (objs, h)"
    "mset (ph_elems ?ph) = add_mset (pkt_data (jb_objs jb) (hd (jb_packets jb))) (mset (ph_elems (objs, h)))"
    "is_heap ph_lt (length h) (ph_elems (objs, h))"
    "pkt_data objs (hd (jb_packets jb)) = pkt_data (jb_objs jb) (hd (jb_packets jb))"
    "Suc (length h) = length (jb_packets jb)"
    using heap_Pop_spec [OF h(1,3)] h(2) ne by (metis fst_conv snd_conv surj_pair)
  have seq: "bp_SequenceNumber (objs ! hd (jb_packets jb)) = bp_SequenceNumber (jb_objs jb ! hd (jb_packets jb))"
    using arg_cong [OF q(5), of "\<lambda>x. bp_SequenceNumber (snd x)"] by simp
  note t = take_out_first [OF inv q(3) [folded jb_elems_def] q(2,4,6) _ disjI1 [OF refl] refl]
  show ?thesis
    by (rule that, simp add: dropOldest_def q(1) seq, use t jb_root_least [OF inv ne] q(6) in simp_all)
qed

lemma insertPacket_spec:
  assumes inv: "jb_inv jb" and init: "jb_initialized jb"
    and fresh: "jb_packetMap jb (bp_SequenceNumber pkt) = None"
    and win: "ahead (jb_nextExpected jb) (bp_SequenceNumber pkt) < 2 ^ 15" and idx: "bp_index pkt = 0"
    and room: "int (length (jb_packets jb)) < MaxSize (jb_config jb)"
  shows "jb_inv (insertPacket pkt jb)"
    "jb_queue (insertPacket pkt jb) =
       insort_key (\<lambda>p. ahead (jb_nextExpected jb) (bp_SequenceNumber p)) pkt (jb_queue jb)"
    "jb_nextExpected (insertPacket pkt jb) = jb_nextExpected jb" "jb_config (insertPacket pkt jb) = jb_config jb"
proof -
  let ?a = "length (jb_objs jb)" and ?objs = "jb_objs jb @ [pkt]" and ?h = "jb_packets jb"
  let ?p = "heap_Push ?a (?objs, ?h)" and ?jb = "insertPacket pkt jb"
  have a: "\<And>b. b \<in> set ?h \<Longrightarrow> b < ?a" using inv by (simp add: jb_inv_def ph_inv_def)
  have data: "pkt_data ?objs ?a = (?a, pkt)" "\<And>b. b \<in> set ?h \<Longrightarrow> pkt_data ?objs b = pkt_data (jb_objs jb) b"
    using a idx by (auto simp: pkt_data_def nth_append)
  have el: "ph_elems (?objs, ?h) = jb_elems jb" using data(2) by (simp add: ph_elems_def jb_elems_def)
  have "jb_objs jb ! b = ?objs ! b" if "b \<in> set ?h" for b using a that by (simp add: nth_append)
  then have "ph_inv (?objs, ?h)" using inv a by (auto simp: jb_inv_def ph_inv_def less_Suc_eq)
  moreover have "?a \<notin> set ?h" using a by blast
  moreover have "orders ph_lt (insert (?a, pkt) (set (jb_elems jb)))"
    using inv win by (intro orders_window [of _ "jb_nextExpected jb"]) (auto simp: jb_inv_def)
  ultimately have P: "ph_inv ?p" "mset (ph_elems ?p) = add_mset (?a, pkt) (mset (jb_elems jb))"
    "is_heap ph_lt (length (snd ?p)) (ph_elems ?p)"
    using heap_Push_spec [of ?objs ?h ?a] inv by (simp_all add: el data(1) jb_inv_def)
  have J: "?jb = jb\<lparr>jb_objs := fst ?p, jb_packets := snd ?p,
      jb_packetMap := (jb_packetMap jb)(bp_SequenceNumber pkt \<mapsto> ?a)\<rparr>"
    by (simp add: insertPacket_def Let_def split_beta)
  have E: "jb_elems ?jb = ph_elems ?p" by (simp add: J jb_elems_def)
  have set: "set (ph_elems ?p) = insert (?a, pkt) (set (jb_elems jb))"
    using P(2) by (metis set_mset_add_mset_insert set_mset_mset)
  have len: "length (snd ?p) = Suc (length ?h)"
    using arg_cong [OF P(2), of size] by (simp add: jb_elems_def)
  have "((jb_packetMap jb)(bp_SequenceNumber pkt \<mapsto> ?a)) q = Some b \<longleftrightarrow>
      (\<exists>d. (b, d) \<in> set (ph_elems ?p) \<and> bp_SequenceNumber d = q)" for q b
  proof -
    have "jb_packetMap jb q = Some b \<longleftrightarrow> (\<exists>d. (b, d) \<in> set (jb_elems jb) \<and> bp_SequenceNumber d = q)" for q b
      using inv by (simp add: jb_inv_def)
    moreover from this have "(c, d) \<in> set (jb_elems jb) \<Longrightarrow> bp_SequenceNumber d \<noteq> bp_SequenceNumber pkt" for c d
      using fresh by (metis option.distinct(1))
    ultimately show ?thesis by (cases "q = bp_SequenceNumber pkt") (auto simp: set)
  qed
  moreover have "\<forall>x\<in>set (ph_elems ?p). ahead (jb_nextExpected jb) (bp_SequenceNumber (snd x)) < 2 ^ 15"
    using inv win by (simp add: set jb_inv_def)
  ultimately show J': "jb_inv ?jb"
    unfolding jb_inv_def E unfolding J using inv init P(1,3) room len by (simp add: jb_inv_def)
  show n: "jb_nextExpected ?jb = jb_nextExpected jb" "jb_config ?jb = jb_config jb" by (simp_all add: J)
  show "jb_queue ?jb = insort_key (\<lambda>p. ahead (jb_nextExpected jb) (bp_SequenceNumber p)) pkt (jb_queue jb)"
    unfolding jb_queue_def n
    using P(2) jb_key_inj [OF J', of "jb_nextExpected jb"] by (intro sort_key_insert) (simp_all add: E)
qed

text \<open>The state of a buffer in which a packet with number \<open>seq\<close> may be the first.\<close>

lemma jb_first_packet:
  assumes "jb_inv jb" and "jb' = (if \<not> jb_initialized jb
      then jb\<lparr>jb_nextExpected := seq, jb_initialized := True, jb_lastPlayTime := t\<rparr> else jb)"
  shows "jb_inv jb'" "jb_queue jb' = jb_queue jb" "jb_config jb' = jb_config jb" "jb_initialized jb'"
    "jb_packets jb' = jb_packets jb" "jb_packetMap jb' = jb_packetMap jb"
  using assms by (auto simp: jb_inv_def jb_queue_def jb_elems_def ph_elems_def)

lemma Push_spec:
  assumes inv: "jb_inv jb"
  obtains jb' where "Push now now' seq ts payload jb = Some (False, jb')" "jb_inv jb'" "jb_queue jb' = jb_queue jb"
    "seqLess seq (jb_nextExpected jb') \<or> jb_packetMap jb seq \<noteq> None" "jb_config jb' = jb_config jb"
  | jb' where "Push now now' seq ts payload jb = Some (True, jb')" "jb_inv jb'" "jb_config jb' = jb_config jb"
    "jb_queue jb' = insort_key (\<lambda>p. ahead (jb_nextExpected jb') (bp_SequenceNumber p))
       \<lparr>bp_SequenceNumber = seq, bp_Timestamp = ts, bp_Payload = payload, bp_ReceivedAt = now, bp_index = 0\<rparr>
       (if MaxSize (jb_config jb) \<le> int (length (jb_packets jb)) then tl (jb_queue jb) else jb_queue jb)"
proof -
  define jb0 where "jb0 = jb\<lparr>jb_packetsIn := jb_packetsIn jb + 1\<rparr>"
  define jb1 where "jb1 = (if \<not> jb_initialized jb0
    then jb0\<lparr>jb_nextExpected := seq, jb_initialized := True, jb_lastPlayTime := now + jb_currentDelay jb0\<rparr> else jb0)"
  define pkt where "pkt = \<lparr>bp_SequenceNumber = seq, bp_Timestamp = ts, bp_Payload = payload,
    bp_ReceivedAt = now, bp_index = 0\<rparr>"
  have "jb_inv jb0" using inv by (simp add: jb0_def)
  note f = jb_first_packet [OF this jb1_def]
  have j: "jb_queue jb1 = jb_queue jb" "jb_config jb1 = jb_config jb" "jb_packets jb1 = jb_packets jb"
    "jb_packetMap jb1 = jb_packetMap jb" using f by (simp_all add: jb0_def)
  consider (dup) "jb_packetMap jb1 seq \<noteq> None" | (late) "jb_packetMap jb1 seq = None" "seqLess seq (jb_nextExpected jb1)"
    | (new) "jb_packetMap jb1 seq = None" "\<not> seqLess seq (jb_nextExpected jb1)" by blast
  then show ?thesis
  proof cases
    case dup
    then show ?thesis
      using f j by (intro that(1) [of jb1]) (simp_all add: Push_def Let_def flip: jb0_def jb1_def)
  next
    case late
    then show ?thesis
      using f j by (intro that(1) [of "jb1\<lparr>jb_packetsLate := jb_packetsLate jb1 + 1\<rparr>"])
        (simp_all add: Push_def Let_def flip: jb0_def jb1_def)
  next
    case new
    let ?full = "MaxSize (jb_config jb) \<le> int (length (jb_packets jb))"
    obtain jb2 where 2: "(if int (length (jb_packets jb1)) \<ge> MaxSize (jb_config jb1) then dropOldest jb1 else Some jb1) = Some jb2"
      "jb_inv jb2" "jb_queue jb2 = (if ?full then tl (jb_queue jb) else jb_queue jb)"
      "jb_nextExpected jb2 = jb_nextExpected jb1" "jb_config jb2 = jb_config jb" "jb_initialized jb2"
      "int (length (jb_packets jb2)) < MaxSize (jb_config jb)" "jb_packetMap jb2 seq = None"
    proof (cases ?full)
      case True
      then have ne: "jb_packets jb1 \<noteq> []" using f(1) by (auto simp: j jb_inv_def)
      have "int (length (jb_packets jb1)) \<le> MaxSize (jb_config jb)" using f(1) j by (simp add: jb_inv_def)
      with True show ?thesis
        using dropOldest_spec [OF f(1) ne] f j new that by (smt (verit, best) of_nat_Suc)
    next
      case False
      then show ?thesis using f j new by (intro that [of jb1]) simp_all
    qed
    have "ahead (jb_nextExpected jb2) seq < 2 ^ 15" using new 2 by (simp only: not_seqLess_iff)
    then have i: "jb_inv (insertPacket pkt jb2)" "jb_nextExpected (insertPacket pkt jb2) = jb_nextExpected jb1"
      "jb_config (insertPacket pkt jb2) = jb_config jb"
      "jb_queue (insertPacket pkt jb2) = insort_key (\<lambda>p. ahead (jb_nextExpected jb1) (bp_SequenceNumber p)) pkt (jb_queue jb2)"
      using insertPacket_spec [OF 2(2,6), of pkt] 2 by (simp_all add: pkt_def)
    define jb3 where "jb3 = insertPacket pkt jb2"
    define jb4 where "jb4 = (if seq \<noteq> jb_nextExpected jb3 \<and> seqLess (jb_nextExpected jb3) seq
      then jb3\<lparr>jb_reordered := jb_reordered jb3 + 1\<rparr> else jb3)"
    define jb5 where "jb5 = (if AdaptiveMode (jb_config jb4) then updateAdaptiveDelay now' pkt jb4 else jb4)"
    have "Push now now' seq ts payload jb = Some (True, jb5)"
      unfolding Push_def Let_def jb0_def [symmetric] jb1_def [symmetric] pkt_def [symmetric]
      using new 2(1) by (simp only: option.case if_False not_not simp_thms jb3_def [symmetric] jb4_def [symmetric] jb5_def)
    moreover have "jb_inv jb5" "jb_config jb5 = jb_config jb" "jb_queue jb5 = jb_queue jb3" "jb_nextExpected jb5 = jb_nextExpected jb1"
      using i by (simp_all add: jb5_def jb4_def flip: jb3_def)
    ultimately show ?thesis using i(4) 2(3) by (intro that(2) [of jb5]) (simp_all add: jb3_def pkt_def)
  qed
qed

lemma Pop_spec:
  assumes inv: "jb_inv jb"
  obtains jb' p where "Pop now jb = Some (Some p, jb')" "jb_inv jb'" "jb_queue jb = p\<lparr>bp_index := 0\<rparr> # jb_queue jb'"
    "jb_nextExpected jb' = bp_SequenceNumber p + 1" "jb_config jb' = jb_config jb" "jb_currentDelay jb' = jb_currentDelay jb"
    "jb_lastPlayTime jb \<le> now"
  | "Pop now jb = Some (None, jb)"
    "jb_packets jb = [] \<or> now < jb_lastPlayTime jb \<or>
       (jb_packetMap jb (jb_nextExpected jb) = None \<and> now - jb_lastPlayTime jb \<le> MaxDelay (jb_config jb))"
proof -
  let ?ph = "(jb_objs jb, jb_packets jb)"
  have h: "ph_inv ?ph" "is_heap ph_lt (length (jb_packets jb)) (ph_elems ?ph)" "orders ph_lt (set (ph_elems ?ph))"
    using inv jb_orders [OF inv] by (simp_all add: jb_inv_def jb_elems_def)
  have seq: "bp_SequenceNumber (objs ! a) = bp_SequenceNumber (jb_objs jb ! a)"
    "(objs ! a)\<lparr>bp_index := 0\<rparr> = snd (pkt_data (jb_objs jb) a)"
    if "pkt_data objs a = pkt_data (jb_objs jb) a" for objs a
    using arg_cong [OF that, of "\<lambda>x. bp_SequenceNumber (snd x)"] arg_cong [OF that, of snd]
    by (simp_all add: pkt_data_def)
  consider (no) "jb_packets jb = [] \<or> now < jb_lastPlayTime jb \<or>
       (jb_packetMap jb (jb_nextExpected jb) = None \<and> now - jb_lastPlayTime jb \<le> MaxDelay (jb_config jb))"
    | (next_one) a where "jb_packets jb \<noteq> []" "jb_lastPlayTime jb \<le> now" "jb_packetMap jb (jb_nextExpected jb) = Some a"
    | (skip) "jb_packets jb \<noteq> []" "jb_lastPlayTime jb \<le> now" "jb_packetMap jb (jb_nextExpected jb) = None"
        "MaxDelay (jb_config jb) < now - jb_lastPlayTime jb"
    by (metis not_le option.exhaust)
  then show ?thesis
  proof cases
    case no
    then show ?thesis by (intro that(2)) (auto simp: Pop_def split: option.splits)
  next
    case next_one
    then obtain d where d: "(a, d) \<in> set (jb_elems jb)" "bp_SequenceNumber d = jb_nextExpected jb"
      using inv by (auto simp: jb_inv_def)
    then have a: "a \<in> set (snd ?ph)" and seqa: "bp_SequenceNumber (jb_objs jb ! a) = jb_nextExpected jb"
      by (auto simp: jb_elems_def ph_elems_def pkt_data_def)
    obtain objs h where q: "heap_Remove (bp_index (jb_objs jb ! a)) ?ph = Some (a, (objs, h))" "ph_inv (objs, h)"
      "mset (ph_elems ?ph) = add_mset (pkt_data (jb_objs jb) a) (mset (ph_elems (objs, h)))"
      "is_heap ph_lt (length h) (ph_elems (objs, h))" "pkt_data objs a = pkt_data (jb_objs jb) a"
      "Suc (length h) = length (jb_packets jb)"
      using heap_Remove_spec [OF h(1,3) _ a] h(2) by (metis fst_conv snd_conv surj_pair)
    note t = take_out_first [OF inv q(3) [folded jb_elems_def] q(2,4,6) _ disjI2 [OF refl] refl]
    show ?thesis
      using next_one t q(1,5) seqa
      by (intro that(1) [of "objs ! a" "snd (deliver now a (objs, h) jb)"]) (simp_all add: Pop_def deliver_def seq [OF q(5)])
  next
    case skip
    let ?a = "hd (jb_packets jb)"
    obtain objs h where q: "heap_Pop ?ph = Some (?a, (objs, h))" "ph_inv (objs, h)"
      "mset (ph_elems ?ph) = add_mset (pkt_data (jb_objs jb) ?a) (mset (ph_elems (objs, h)))"
      "is_heap ph_lt (length h) (ph_elems (objs, h))" "pkt_data objs ?a = pkt_data (jb_objs jb) ?a"
      "Suc (length h) = length (jb_packets jb)"
      using heap_Pop_spec [OF h(1,3)] h(2) skip(1) by (metis fst_conv snd_conv surj_pair)
    note t = take_out_first [OF inv q(3) [folded jb_elems_def] q(2,4,6) _ disjI2 [OF refl] refl]
    show ?thesis
      using skip t jb_root_least [OF inv skip(1)] q(1,5)
      by (intro that(1) [of "objs ! ?a" "snd (deliver now ?a (objs, h) (jb\<lparr>jb_nextExpected := bp_SequenceNumber (jb_objs jb ! ?a)\<rparr>))"]) (simp_all add: Pop_def deliver_def seq [OF q(5)] Let_def)
  qed
qed

section \<open>Runs\<close>

inductive jb_step :: "JitterBuffer \<Rightarrow> JitterBuffer \<Rightarrow> bool" where
  push: "Push now now' seq ts payload jb = Some (b, jb') \<Longrightarrow> jb_step jb jb'"
| pop: "Pop now jb = Some (r, jb') \<Longrightarrow> jb_step jb jb'"
| flush: "jb_step jb (Flush jb)"
| reset: "jb_step jb (Reset jb)"
| target: "jb_step jb (SetTargetDelay delay jb)"
| adaptive: "jb_step jb (SetAdaptiveMode enabled jb)"

text \<open>A configuration with room for a packet and with its target delay inside its limits.\<close>

definition config_ok :: "JitterBufferInternalConfig \<Rightarrow> bool" where
  "config_ok c \<longleftrightarrow> 0 < MaxSize c \<and> MinDelay c \<le> TargetDelay c \<and> TargetDelay c \<le> MaxDelay c"

inductive jb_reach :: "JitterBuffer \<Rightarrow> bool" where
  new: "NewJitterBuffer sessionID clockRate (Some c) = Some jb \<Longrightarrow> config_ok c \<Longrightarrow> jb_reach jb"
| step: "jb_reach jb \<Longrightarrow> jb_step jb jb' \<Longrightarrow> jb_reach jb'"

lemma jb_inv_empty:
  assumes "jb_packets jb = []" "jb_packetMap jb = Map.empty" "0 < MaxSize (jb_config jb)"
  shows "jb_inv jb" "jb_queue jb = []"
  using assms by (auto simp: jb_inv_def jb_queue_def jb_elems_def ph_elems_def ph_inv_def is_heap_def)

lemma jb_inv_step:
  assumes "jb_step jb jb'" "jb_inv jb"
  shows "jb_inv jb'"
  using assms
proof (induction rule: jb_step.induct)
  case (push now now' seq ts payload jb b jb')
  then show ?case
    by (cases rule: Push_spec [OF push(2), of now now' seq ts payload]) auto
next
  case (pop now jb r jb')
  then show ?case by (cases rule: Pop_spec [OF pop(2), of now]) auto
next
  case (flush jb)
  then show ?case by (intro jb_inv_empty(1)) (auto simp: Flush_def Let_def jb_inv_def)
next
  case (reset jb)
  then show ?case by (intro jb_inv_empty(1)) (auto simp: Reset_def jb_inv_def)
qed (auto simp: SetTargetDelay_def SetAdaptiveMode_def Let_def jb_inv_def jb_elems_def)

lemma jb_reach_inv: "jb_reach jb \<Longrightarrow> jb_inv jb"
proof (induction rule: jb_reach.induct)
  case (new sessionID clockRate c jb)
  then show ?case
    by (intro jb_inv_empty(1)) (auto simp: NewJitterBuffer_def config_ok_def Let_def split: if_splits)
qed (rule jb_inv_step)

text \<open>The playout delay.\<close>

definition delay_ok :: "JitterBuffer \<Rightarrow> bool" where
  "delay_ok jb \<longleftrightarrow> config_ok (jb_config jb) \<and> MinDelay (jb_config jb) \<le> jb_currentDelay jb \<and>
     jb_currentDelay jb \<le> MaxDelay (jb_config jb)"

text \<open>Moving a tenth of the way towards a point inside an interval stays inside it.\<close>

lemma tenth_step_bounds:
  assumes "lo \<le> c" "c \<le> hi" "lo \<le> t" "t \<le> hi"
  shows "lo \<le> c + trunc (fl (fl (of_int (t - c)) * fl (1 / 10)))"
    "c + trunc (fl (fl (of_int (t - c)) * fl (1 / 10))) \<le> hi"
proof -
  let ?a = "\<lambda>d. trunc (fl (fl (of_int d) * fl (1 / 10)))"
  have "lo \<le> c + ?a (t - c) \<and> c + ?a (t - c) \<le> hi"
  proof (cases "c \<le> t")
    case True
    then show ?thesis using assms fl_tenth_bounds [of "t - c"] by simp
  next
    case False
    have "(of_int (t - c) :: rat) = - of_int (c - t)" by simp
    then have "?a (t - c) = - ?a (c - t)" by (simp only: fl_minus mult_minus_left trunc_minus)
    then show ?thesis using assms False fl_tenth_bounds [of "c - t"] by simp
  qed
  then show "lo \<le> c + ?a (t - c)" "c + ?a (t - c) \<le> hi" by simp_all
qed

lemma clampDelay_bounds:
  "MinDelay c \<le> MaxDelay c \<Longrightarrow> MinDelay c \<le> clampDelay c d" "clampDelay c d \<le> MaxDelay c"
  by (simp_all add: clampDelay_def Let_def)

lemma delay_ok_update: "delay_ok jb \<Longrightarrow> delay_ok (updateAdaptiveDelay now pkt jb)"
  unfolding updateAdaptiveDelay_def delay_ok_def config_ok_def Let_def
  by (auto intro!: tenth_step_bounds clampDelay_bounds simp del: of_int_diff)

lemma delay_ok_frame [simp]:
  "delay_ok (jb\<lparr>jb_packetsIn := a\<rparr>) = delay_ok jb" "delay_ok (jb\<lparr>jb_packetsLate := a\<rparr>) = delay_ok jb"
  "delay_ok (jb\<lparr>jb_nextExpected := q\<rparr>) = delay_ok jb" "delay_ok (jb\<lparr>jb_reordered := a\<rparr>) = delay_ok jb"
  "delay_ok (jb\<lparr>jb_nextExpected := q, jb_initialized := b, jb_lastPlayTime := t\<rparr>) = delay_ok jb"
  "delay_ok (insertPacket pkt jb) = delay_ok jb" "delay_ok (snd (deliver now x ph jb)) = delay_ok jb"
  by (simp_all add: delay_ok_def insertPacket_def deliver_def Let_def split: prod.splits)

lemma delay_ok_drop: "dropOldest jb = Some jb' \<Longrightarrow> delay_ok jb' = delay_ok jb"
  by (auto simp: dropOldest_def delay_ok_def)

lemma delay_ok_Push:
  assumes "Push now now' seq ts payload jb = Some (b, jb')" "delay_ok jb"
  shows "delay_ok jb'"
  using assms unfolding Push_def Let_def
  by (auto split: if_splits option.splits simp: delay_ok_drop intro!: delay_ok_update)

lemma delay_ok_Pop:
  assumes "Pop now jb = Some (r, jb')" "delay_ok jb"
  shows "delay_ok jb'"
proof -
  have "jb' = jb \<or> (\<exists>a ph q. jb' = snd (deliver now a ph (jb\<lparr>jb_nextExpected := q\<rparr>))) \<or>
      (\<exists>a ph. jb' = snd (deliver now a ph jb))"
    using assms(1) by (auto simp: Pop_def Let_def split: if_splits option.splits) (metis snd_conv)+
  then show ?thesis using assms(2) by auto
qed

lemma delay_ok_step:
  assumes "jb_step jb jb'" "delay_ok jb"
  shows "delay_ok jb'"
  using assms
proof (induction rule: jb_step.induct)
  case (target jb delay)
  then show ?case
    using clampDelay_bounds [of "jb_config jb" delay] by (simp add: SetTargetDelay_def delay_ok_def config_ok_def)
next
  case push
  then show ?case by (rule delay_ok_Push)
next
  case pop
  then show ?case by (rule delay_ok_Pop)
qed (auto simp: Flush_def Reset_def SetAdaptiveMode_def delay_ok_def config_ok_def Let_def)

lemma jb_reach_delay: "jb_reach jb \<Longrightarrow> delay_ok jb"
proof (induction rule: jb_reach.induct)
  case (new sessionID clockRate c jb)
  then show ?case by (auto simp: NewJitterBuffer_def delay_ok_def config_ok_def Let_def split: if_splits)
qed (rule delay_ok_step)

text \<open>A buffer that has received the packet with number 65535.\<close>

definition sample_new :: JitterBuffer where
  "sample_new = the (NewJitterBuffer ''s'' 8000 None)"

definition sample_jb :: JitterBuffer where
  "sample_jb = snd (the (Push 0 0 65535 160 [1, 2] sample_new))"

lemma sample_jb_simps [simp]:
  "Size sample_jb = 1" "jb_lastPlayTime sample_jb = 50000000" "jb_config sample_jb = DefaultJitterBufferInternalConfig"
  by code_simp+

lemma sample_jb_reach: "jb_reach sample_jb"
proof -
  have new: "jb_reach sample_new"
    by (rule jb_reach.new [of "''s''" 8000 DefaultJitterBufferInternalConfig])
      (simp_all add: sample_new_def NewJitterBuffer_def DefaultJitterBufferInternalConfig_def config_ok_def)
  obtain b jb' where "Push 0 0 65535 160 [1, 2] sample_new = Some (b, jb')"
    using Push_spec [OF jb_reach_inv [OF new]] by metis
  then have "jb_step sample_new sample_jb" by (simp add: sample_jb_def jb_step.push)
  with new show ?thesis by (rule jb_reach.step)
qed

section \<open>Properties of the jitter buffer\<close>

text \<open>C18. The buffer implements the abstract queue. In every reachable state neither operation
  panics. A refused packet leaves the queue alone; an accepted one is inserted at the place its
  sequence number has modulo \<open>2 ^ 16\<close>, after the head has been dropped when the buffer was full.
  \<^verbatim>\<open>Pop\<close> hands out the head of the queue or nothing, so packets leave in sequence order.\<close>

theorem buffer_refines_queue:
  assumes "jb_reach jb"
  shows "(\<exists>b jb'. Push now now' seq ts payload jb = Some (b, jb') \<and>
      jb_queue jb' = (if b then insort_key (\<lambda>p. ahead (jb_nextExpected jb') (bp_SequenceNumber p))
          \<lparr>bp_SequenceNumber = seq, bp_Timestamp = ts, bp_Payload = payload, bp_ReceivedAt = now, bp_index = 0\<rparr>
          (if MaxSize (jb_config jb) \<le> int (Size jb) then tl (jb_queue jb) else jb_queue jb)
        else jb_queue jb)) \<and>
    (\<exists>r jb'. Pop now jb = Some (r, jb') \<and>
      (case r of None \<Rightarrow> jb_queue jb' = jb_queue jb
       | Some p \<Rightarrow> jb_queue jb = p\<lparr>bp_index := 0\<rparr> # jb_queue jb' \<and>
                    jb_nextExpected jb' = bp_SequenceNumber p + 1))"
  (is "?push \<and> ?pop")
proof
  have inv: "jb_inv jb" using assms by (rule jb_reach_inv)
  show ?push by (cases rule: Push_spec [OF inv, of now now' seq ts payload]) (auto simp: Size_def)
  show ?pop by (cases rule: Pop_spec [OF inv, of now]) auto
qed

theorem buffer_refines_queue_witness:
  "\<exists>r jb'. Pop 60000000 sample_jb = Some (r, jb') \<and>
     (case r of None \<Rightarrow> jb_queue jb' = jb_queue sample_jb
      | Some p \<Rightarrow> jb_queue sample_jb = p\<lparr>bp_index := 0\<rparr> # jb_queue jb' \<and>
                   jb_nextExpected jb' = bp_SequenceNumber p + 1)"
  using buffer_refines_queue [OF sample_jb_reach, of 60000000 60000000 0 320 "[]"] by (rule conjunct2)

text \<open>The queue never exceeds the configured size, and the playout delay stays between the
  configured limits, whatever the measured delays are.\<close>

lemma buffer_bounds:
  assumes "jb_reach jb"
  shows "int (Size jb) \<le> MaxSize (jb_config jb) \<and> MinDelay (jb_config jb) \<le> jb_currentDelay jb \<and>
    jb_currentDelay jb \<le> MaxDelay (jb_config jb)"
  using jb_reach_inv [OF assms] jb_reach_delay [OF assms] by (simp add: jb_inv_def Size_def delay_ok_def)

text \<open>No packet waits for ever: once the playout time is more than the maximal delay ago,
  \<^verbatim>\<open>Pop\<close> hands out a packet, also when the expected one was lost.\<close>

lemma overdue_packet_played:
  assumes "jb_reach jb" and "0 < Size jb" and "MaxDelay (jb_config jb) < now - jb_lastPlayTime jb"
    and "jb_lastPlayTime jb \<le> now"
  shows "\<exists>p jb'. Pop now jb = Some (Some p, jb') \<and> p\<lparr>bp_index := 0\<rparr> = hd (jb_queue jb)"
  using assms(2-)
  by (cases rule: Pop_spec [OF jb_reach_inv [OF assms(1)], of now]) (auto simp: Size_def)




end
