(* ===== verification/FEC.thy ===== *)
theory FEC
  imports Go_Float
begin

text \<open>
  Forward error correction for RTP, \<^verbatim>\<open>internal/fec_handler.go\<close>: one XOR parity packet per
  block of media packets, recovery of a single lost packet, the packet window, the wire
  format of parity packets and the adaptive block size.

  The \<^verbatim>\<open>uint16\<close>-keyed maps are association lists. The order in which \<^verbatim>\<open>tryCompleteBlocks\<close>
  visits the pending blocks is Go's map order, so it is an argument; the order in which the
  packets of a block are combined does not matter (\<open>recover_fields_order\<close>). A slice or index out
  of range is the error \<open>FECPanic\<close>. The Prometheus counters are left out. Floating point is
  \<^const>\<open>fl\<close> after each operation.
\<close>

section \<open>Types\<close>

record RTPPacketData =
  pkt_SequenceNumber :: u16
  pkt_Timestamp :: u32
  pkt_PayloadType :: u8
  pkt_Marker :: bool
  pkt_Payload :: "u8 list"

record FECPacket =
  fec_SequenceBase :: u16
  fec_ProtectedSeq :: "u16 list"
  fec_PayloadXOR :: "u8 list"
  fec_LengthXOR :: u16
  fec_TimestampXOR :: u32
  fec_PTMarkerXOR :: u8

record FECConfig =
  cfg_Enabled :: bool
  cfg_BlockSize :: int
  cfg_Redundancy :: rat
  cfg_AdaptiveMode :: bool
  cfg_MaxRedundancy :: rat
  cfg_MinRedundancy :: rat

record FECDecodingBlock =
  blk_FECPacket :: FECPacket
  blk_ReceivedPackets :: "(u16 \<times> RTPPacketData) list"
  blk_MissingPackets :: "u16 list"
  blk_Complete :: bool

record FECHandler =
  fh_config :: FECConfig
  fh_encodingBlock :: "RTPPacketData list"
  fh_encodingBlockSeq :: u16
  fh_fecSeqNum :: u16
  fh_decodingBlocks :: "(u16 \<times> FECDecodingBlock) list"
  fh_receivedPackets :: "(u16 \<times> RTPPacketData) list"
  fh_lossHistory :: "rat list"
  fh_currentLossRate :: rat

datatype fec_error = ErrInvalidPacket | FECPanic

definition DefaultFECConfig :: FECConfig where
  "DefaultFECConfig = \<lparr>cfg_Enabled = True, cfg_BlockSize = 48, cfg_Redundancy = fl (30 / 100),
     cfg_AdaptiveMode = True, cfg_MaxRedundancy = fl (50 / 100), cfg_MinRedundancy = fl (10 / 100)\<rparr>"

definition NewFECHandler :: "FECConfig option \<Rightarrow> FECHandler" where
  "NewFECHandler config =
     \<lparr>fh_config = (case config of None \<Rightarrow> DefaultFECConfig | Some c \<Rightarrow> c),
      fh_encodingBlock = [], fh_encodingBlockSeq = 0, fh_fecSeqNum = 0,
      fh_decodingBlocks = [], fh_receivedPackets = [], fh_lossHistory = [], fh_currentLossRate = 0\<rparr>"

section \<open>The sender: parity of a block\<close>

definition ptMarker :: "RTPPacketData \<Rightarrow> u8" where
  "ptMarker p = (if pkt_Marker p then pkt_PayloadType p OR 0x80 else pkt_PayloadType p)"

text \<open>The loop over a payload: \<^verbatim>\<open>acc[j] ^= p[j]\<close> while \<open>j\<close> is inside both slices.\<close>

fun xor_bytes :: "u8 list \<Rightarrow> u8 list \<Rightarrow> u8 list" where
  "xor_bytes [] p = []"
| "xor_bytes acc [] = acc"
| "xor_bytes (a # acc) (b # p) = (a XOR b) # xor_bytes acc p"

definition maxPayloadLen :: "RTPPacketData list \<Rightarrow> nat" where
  "maxPayloadLen ps = fold (\<lambda>p m. if length (pkt_Payload p) > m then length (pkt_Payload p) else m) ps 0"

definition addParity :: "RTPPacketData \<Rightarrow> FECPacket \<Rightarrow> FECPacket" where
  "addParity p fec = fec\<lparr>
     fec_ProtectedSeq := fec_ProtectedSeq fec @ [pkt_SequenceNumber p],
     fec_LengthXOR := fec_LengthXOR fec XOR of_nat (length (pkt_Payload p)),
     fec_TimestampXOR := fec_TimestampXOR fec XOR pkt_Timestamp p,
     fec_PTMarkerXOR := fec_PTMarkerXOR fec XOR ptMarker p,
     fec_PayloadXOR := xor_bytes (fec_PayloadXOR fec) (pkt_Payload p)\<rparr>"

definition generateFECPacket :: "FECHandler \<Rightarrow> FECPacket option \<times> FECHandler" where
  "generateFECPacket h =
     (if fh_encodingBlock h = [] then (None, h)
      else let fec0 = \<lparr>fec_SequenceBase = fh_encodingBlockSeq h, fec_ProtectedSeq = [],
                       fec_PayloadXOR = replicate (maxPayloadLen (fh_encodingBlock h)) 0,
                       fec_LengthXOR = 0, fec_TimestampXOR = 0, fec_PTMarkerXOR = 0\<rparr>
           in (Some (fold addParity (fh_encodingBlock h) fec0),
               h\<lparr>fh_fecSeqNum := fh_fecSeqNum h + 1\<rparr>))"

definition AddMediaPacket :: "FECHandler \<Rightarrow> RTPPacketData \<Rightarrow> FECPacket option \<times> FECHandler" where
  "AddMediaPacket h p =
     (if \<not> cfg_Enabled (fh_config h) then (None, h)
      else let h1 = (if fh_encodingBlock h = [] then h\<lparr>fh_encodingBlockSeq := pkt_SequenceNumber p\<rparr> else h);
               h2 = h1\<lparr>fh_encodingBlock := fh_encodingBlock h1 @ [p]\<rparr>
           in if int (length (fh_encodingBlock h2)) \<ge> cfg_BlockSize (fh_config h2)
              then let (fec, h3) = generateFECPacket h2 in (fec, h3\<lparr>fh_encodingBlock := []\<rparr>)
              else (None, h2))"

section \<open>The receiver\<close>

definition seqDistance :: "u16 \<Rightarrow> u16 \<Rightarrow> u16" where
  "seqDistance a b =
     (if b \<ge> a then b - a else ucast ((65536 :: u32) - ucast a + ucast b))"

definition cleanupOldPackets :: "u16 \<Rightarrow> FECHandler \<Rightarrow> FECHandler" where
  "cleanupOldPackets currentSeq h =
     h\<lparr>fh_receivedPackets := filter (\<lambda>(seq, _). \<not> seqDistance seq currentSeq > 256) (fh_receivedPackets h)\<rparr>"

text \<open>The four running parities of the recovery loop: length, timestamp, PT/marker, payload.\<close>

type_synonym parities = "u16 \<times> u32 \<times> u8 \<times> u8 list"

definition removeParity :: "RTPPacketData \<Rightarrow> parities \<Rightarrow> parities" where
  "removeParity p x = (case x of (len, ts, pt, payload) \<Rightarrow>
     (len XOR of_nat (length (pkt_Payload p)), ts XOR pkt_Timestamp p, pt XOR ptMarker p,
      xor_bytes payload (pkt_Payload p)))"

definition recover_fields :: "FECPacket \<Rightarrow> RTPPacketData list \<Rightarrow> parities" where
  "recover_fields fec ps =
     fold removeParity ps (fec_LengthXOR fec, fec_TimestampXOR fec, fec_PTMarkerXOR fec, fec_PayloadXOR fec)"

definition tryRecoverPackets ::
  "FECHandler \<Rightarrow> FECDecodingBlock \<Rightarrow> fec_error + (RTPPacketData list \<times> FECHandler \<times> FECDecodingBlock)" where
  "tryRecoverPackets h block =
     (case blk_MissingPackets block of
        [missingSeq] \<Rightarrow>
          (let received = filter (\<lambda>(seq, _). seq \<noteq> missingSeq) (blk_ReceivedPackets block);
               (len, ts, pt, payload) = recover_fields (blk_FECPacket block) (map snd received) in
           if unat len > length payload then Inl FECPanic
           else let p = \<lparr>pkt_SequenceNumber = missingSeq, pkt_Timestamp = ts,
                         pkt_PayloadType = pt AND 0x7F, pkt_Marker = (pt AND 0x80 \<noteq> 0),
                         pkt_Payload = take (unat len) payload\<rparr>
                in Inr ([p],
                   h\<lparr>fh_receivedPackets := AList.update missingSeq p (fh_receivedPackets h)\<rparr>,
                   block\<lparr>blk_ReceivedPackets := AList.update missingSeq p (blk_ReceivedPackets block),
                         blk_MissingPackets := [], blk_Complete := True\<rparr>))
      | _ \<Rightarrow> Inr ([], h, block))"

definition classify ::
  "(u16 \<times> RTPPacketData) list \<Rightarrow> u16 \<Rightarrow> (u16 \<times> RTPPacketData) list \<times> u16 list
     \<Rightarrow> (u16 \<times> RTPPacketData) list \<times> u16 list" where
  "classify stored seq = (\<lambda>(received, missing).
     case map_of stored seq of
       Some p \<Rightarrow> (AList.update seq p received, missing)
     | None \<Rightarrow> (received, missing @ [seq]))"

definition newBlock :: "FECHandler \<Rightarrow> FECPacket \<Rightarrow> FECDecodingBlock" where
  "newBlock h fec =
     (let (received, missing) = fold (classify (fh_receivedPackets h)) (fec_ProtectedSeq fec) ([], [])
      in \<lparr>blk_FECPacket = fec, blk_ReceivedPackets = received, blk_MissingPackets = missing,
          blk_Complete = False\<rparr>)"

text \<open>The block is stored by reference before the recovery, which then updates the stored one.\<close>

definition ReceiveFECPacket ::
  "FECHandler \<Rightarrow> FECPacket option \<Rightarrow> fec_error + (RTPPacketData list \<times> FECHandler)" where
  "ReceiveFECPacket h fec =
     (case fec of
        None \<Rightarrow> Inr ([], h)
      | Some fec \<Rightarrow>
          if \<not> cfg_Enabled (fh_config h) then Inr ([], h)
          else (case tryRecoverPackets h (newBlock h fec) of
                  Inl e \<Rightarrow> Inl e
                | Inr (ps, h', block) \<Rightarrow>
                    Inr (ps, h'\<lparr>fh_decodingBlocks :=
                           AList.update (fec_SequenceBase fec) block (fh_decodingBlocks h')\<rparr>)))"

definition completeBlock :: "u16 \<Rightarrow> u16 \<Rightarrow> FECHandler \<Rightarrow> fec_error + FECHandler" where
  "completeBlock newSeq baseSeq h =
     (case map_of (fh_decodingBlocks h) baseSeq of
        None \<Rightarrow> Inr h
      | Some block \<Rightarrow>
          if blk_Complete block then Inr h
          else
            let (received, newMissing) =
                  fold (classify (fh_receivedPackets h)) (blk_MissingPackets block)
                    (blk_ReceivedPackets block, []);
                block1 = block\<lparr>blk_ReceivedPackets := received, blk_MissingPackets := newMissing\<rparr>
            in case (if length newMissing = 1 then tryRecoverPackets h block1
                     else if length newMissing = 0 then Inr ([], h, block1\<lparr>blk_Complete := True\<rparr>)
                     else Inr ([], h, block1)) of
                 Inl e \<Rightarrow> Inl e
               | Inr (_, h1, block2) \<Rightarrow>
                   Inr (h1\<lparr>fh_decodingBlocks :=
                          (if seqDistance baseSeq newSeq > 256
                           then AList.delete baseSeq (fh_decodingBlocks h1)
                           else AList.update baseSeq block2 (fh_decodingBlocks h1))\<rparr>))"

fun tryCompleteBlocks :: "u16 \<Rightarrow> u16 list \<Rightarrow> FECHandler \<Rightarrow> fec_error + FECHandler" where
  "tryCompleteBlocks newSeq [] h = Inr h"
| "tryCompleteBlocks newSeq (baseSeq # order) h =
     (case completeBlock newSeq baseSeq h of
        Inl e \<Rightarrow> Inl e
      | Inr h' \<Rightarrow> tryCompleteBlocks newSeq order h')"

definition ReceiveMediaPacket ::
  "u16 list \<Rightarrow> FECHandler \<Rightarrow> RTPPacketData \<Rightarrow> fec_error + FECHandler" where
  "ReceiveMediaPacket order h p =
     (let seq = pkt_SequenceNumber p;
          h1 = h\<lparr>fh_receivedPackets := AList.update seq p (fh_receivedPackets h)\<rparr>;
          h2 = cleanupOldPackets seq h1
      in tryCompleteBlocks seq order h2)"

section \<open>Adaptive redundancy\<close>

text \<open>
  \<^verbatim>\<open>int(1.0 / targetRedundancy)\<close> with a zero target is \<^verbatim>\<open>int(+Inf)\<close>, which Go leaves to the
  platform; every outcome is clamped to the range that follows.
\<close>

definition averageLoss :: "rat list \<Rightarrow> rat" where
  "averageLoss history = fl (fold (\<lambda>loss sum. fl (sum + loss)) history 0 / of_nat (length history))"

definition clampBlockSize :: "int \<Rightarrow> int" where
  "clampBlockSize n = (let n1 = (if n < 2 then 2 else n) in if n1 > 100 then 100 else n1)"

definition adjustRedundancy :: "FECHandler \<Rightarrow> FECHandler" where
  "adjustRedundancy h =
     (if length (fh_lossHistory h) < 10 then h
      else let c = fh_config h; lo = cfg_MinRedundancy c; hi = cfg_MaxRedundancy c;
               avgLoss = averageLoss (fh_lossHistory h);
               target0 = fl (lo + fl (avgLoss * fl (hi - lo)));
               target1 = (if target0 < lo then lo else target0);
               target2 = (if target1 > hi then hi else target1)
           in h\<lparr>fh_config := c\<lparr>cfg_BlockSize := clampBlockSize (trunc (fl (1 / target2))),
                                cfg_Redundancy := target2\<rparr>\<rparr>)"

definition UpdateLossRate :: "FECHandler \<Rightarrow> rat \<Rightarrow> FECHandler" where
  "UpdateLossRate h lossRate =
     (let history = fh_lossHistory h @ [lossRate];
          h1 = h\<lparr>fh_currentLossRate := lossRate,
                 fh_lossHistory := (if length history > 100 then drop 1 history else history)\<rparr>
      in if cfg_AdaptiveMode (fh_config h1) then adjustRedundancy h1 else h1)"

definition SetEnabled :: "FECHandler \<Rightarrow> bool \<Rightarrow> FECHandler" where
  "SetEnabled h enabled = h\<lparr>fh_config := (fh_config h)\<lparr>cfg_Enabled := enabled\<rparr>\<rparr>"

definition SetBlockSize :: "FECHandler \<Rightarrow> int \<Rightarrow> FECHandler" where
  "SetBlockSize h blockSize =
     (let n = clampBlockSize blockSize in
      h\<lparr>fh_config := (fh_config h)\<lparr>cfg_BlockSize := n, cfg_Redundancy := fl (1 / of_int n)\<rparr>\<rparr>)"

definition Reset :: "FECHandler \<Rightarrow> FECHandler" where
  "Reset h = h\<lparr>fh_encodingBlock := [], fh_decodingBlocks := [], fh_receivedPackets := [],
     fh_lossHistory := [], fh_currentLossRate := 0\<rparr>"

record FECStats =
  fst_Enabled :: bool
  fst_BlockSize :: int
  fst_Redundancy :: rat
  fst_CurrentLossRate :: rat
  fst_PendingBlocks :: nat
  fst_ReceivedPackets :: nat

definition GetStats :: "FECHandler \<Rightarrow> FECStats" where
  "GetStats h = \<lparr>fst_Enabled = cfg_Enabled (fh_config h), fst_BlockSize = cfg_BlockSize (fh_config h),
     fst_Redundancy = cfg_Redundancy (fh_config h), fst_CurrentLossRate = fh_currentLossRate h,
     fst_PendingBlocks = length (fh_decodingBlocks h), fst_ReceivedPackets = length (fh_receivedPackets h)\<rparr>"

section \<open>The wire format\<close>

text \<open>
  \<^verbatim>\<open>SerializeFECPacket\<close> fills a buffer of exactly the needed size from left to right, which is
  the concatenation of the fields. Reading a field beyond the data panics.
\<close>

definition SerializeFECPacket :: "FECPacket \<Rightarrow> u8 list" where
  "SerializeFECPacket fec =
     be16 (fec_SequenceBase fec) @ be16 (of_nat (length (fec_ProtectedSeq fec))) @
     concat (map be16 (fec_ProtectedSeq fec)) @ be16 (fec_LengthXOR fec) @ be32 (fec_TimestampXOR fec) @
     [fec_PTMarkerXOR fec] @ be16 (of_nat (length (fec_PayloadXOR fec))) @ fec_PayloadXOR fec"

definition read16 :: "u8 list \<Rightarrow> nat \<Rightarrow> fec_error + u16" where
  "read16 data off = (case get16 (drop off data) of None \<Rightarrow> Inl FECPanic | Some w \<Rightarrow> Inr w)"

definition read32 :: "u8 list \<Rightarrow> nat \<Rightarrow> fec_error + u32" where
  "read32 data off = (case get32 (drop off data) of None \<Rightarrow> Inl FECPanic | Some w \<Rightarrow> Inr w)"

fun readSeqs :: "u8 list \<Rightarrow> nat \<Rightarrow> nat \<Rightarrow> fec_error + u16 list" where
  "readSeqs data off 0 = Inr []"
| "readSeqs data off (Suc n) =
     bindE (read16 data off) (\<lambda>s. bindE (readSeqs data (off + 2) n) (\<lambda>ss. Inr (s # ss)))"

definition DeserializeFECPacket :: "u8 list \<Rightarrow> fec_error + FECPacket" where
  "DeserializeFECPacket data =
     (if length data < 11 then Inl ErrInvalidPacket
      else bindE (read16 data 0) (\<lambda>base.
        bindE (read16 data 2) (\<lambda>num. let n = unat num in
          if length data < 4 + n * 2 + 9 then Inl ErrInvalidPacket
          else bindE (readSeqs data 4 n) (\<lambda>seqs. let off = 4 + n * 2 in
            bindE (read16 data off) (\<lambda>len.
            bindE (read32 data (off + 2)) (\<lambda>ts.
            if length data \<le> off + 6 then Inl FECPanic
            else let pt = data ! (off + 6) in
            bindE (read16 data (off + 7)) (\<lambda>plen. let m = unat plen in
              if length data < off + 9 + m then Inl ErrInvalidPacket
              else Inr \<lparr>fec_SequenceBase = base, fec_ProtectedSeq = seqs,
                        fec_PayloadXOR = take m (drop (off + 9) data), fec_LengthXOR = len,
                        fec_TimestampXOR = ts, fec_PTMarkerXOR = pt\<rparr>)))))))"

section \<open>Sequence numbers and the PT/marker byte\<close>

lemma mod_wrap_diff: "(M - a mod M + b) mod M = (b - a) mod (M :: int)"
proof -
  have "(M - a mod M + b) mod M = (b - a mod M + M) mod M" by (simp add: algebra_simps)
  also have "\<dots> = (b - a) mod M" by (simp add: mod_diff_right_eq)
  finally show ?thesis .
qed

lemma seqDistance_eq: "seqDistance a b = b - a"
  unfolding seqDistance_def
  by (auto, transfer) (simp add: take_bit_eq_mod mod_simps mod_wrap_diff)

lemma mask_bits: "bit (0x7F :: u8) n \<longleftrightarrow> n < 7" "bit (0x80 :: u8) n \<longleftrightarrow> n = 7"
proof -
  have "(0x7F :: u8) = mask 7" by (simp add: mask_eq_exp_minus_1)
  then show "bit (0x7F :: u8) n \<longleftrightarrow> n < 7" by (simp only: bit_mask_iff) auto
  have "(0x80 :: u8) = 2 ^ 7" by simp
  then show "bit (0x80 :: u8) n \<longleftrightarrow> n = 7" by (simp only: bit_exp_iff) auto
qed

lemma payload_type_bits:
  assumes "pt < 0x80"
  shows "(pt OR 0x80) AND 0x7F = (pt :: u8)" "pt AND 0x7F = pt" "pt AND 0x80 = 0"
    "(pt OR 0x80) AND 0x80 = 0x80"
proof -
  have 7: "\<not> bit pt 7" using assms by (simp add: bit_iff_odd div_word_less)
  have *: "bit pt n \<and> n < 7 \<longleftrightarrow> bit pt n" if "n < 8" for n
    using that 7 by (cases "n = 7") auto
  show "(pt OR 0x80) AND 0x80 = 0x80"
    by (rule bit_word_eqI, unfold bit_and_iff bit_or_iff mask_bits) blast
  show "(pt OR 0x80) AND 0x7F = (pt :: u8)"
    by (rule bit_word_eqI, unfold bit_and_iff bit_or_iff mask_bits) (use * 7 in auto)
  show "pt AND 0x7F = pt"
    by (rule bit_word_eqI, unfold bit_and_iff mask_bits) (use * in auto)
  show "pt AND 0x80 = 0"
    by (rule bit_word_eqI, unfold bit_and_iff mask_bits) (use 7 in auto)
qed

lemma ptMarker_split:
  "pkt_PayloadType p < 0x80 \<Longrightarrow>
     ptMarker p AND 0x7F = pkt_PayloadType p \<and> (ptMarker p AND 0x80 \<noteq> 0 \<longleftrightarrow> pkt_Marker p)"
  by (simp add: ptMarker_def payload_type_bits)

section \<open>Parity\<close>

text \<open>The XOR of a field over a list of packets: order does not matter and equal terms cancel.\<close>

definition xor_over :: "('p \<Rightarrow> 'a :: len word) \<Rightarrow> 'p list \<Rightarrow> 'a word \<Rightarrow> 'a word" where
  "xor_over f ps a = fold (\<lambda>p a. a XOR f p) ps a"

lemma xor_over_simps [simp]:
  "xor_over f [] a = a" "xor_over f (p # ps) a = xor_over f ps (a XOR f p)"
  by (simp_all add: xor_over_def)

lemma xor_over_base: "xor_over f ps (a XOR b) = a XOR xor_over f ps b"
  by (induction ps arbitrary: b) (simp_all add: xor.assoc)

lemma xor_over_mset: "mset ps = mset qs \<Longrightarrow> xor_over f ps a = xor_over f qs a"
  unfolding xor_over_def
  by (rule fun_cong [OF fold_multiset_equiv]) (simp_all add: fun_eq_iff xor.commute xor.left_commute)

lemma xor_over_cancel:
  assumes "mset ps = add_mset p (mset qs)"
  shows "xor_over f qs (xor_over f ps 0) = f p"
proof -
  have "xor_over f ps 0 = xor_over f (p # qs) 0" using assms by (intro xor_over_mset) simp
  also have "\<dots> = f p XOR xor_over f qs 0" using xor_over_base [of f qs "f p" 0] by simp
  finally have "xor_over f qs (xor_over f ps 0) = f p XOR xor_over f qs (xor_over f qs 0)"
    by (simp add: xor_over_base)
  moreover have "xor_over f qs (xor_over f qs 0) = xor_over f qs 0 XOR xor_over f qs 0"
    using xor_over_base [of f qs "xor_over f qs 0" 0] by simp
  ultimately show ?thesis by simp
qed

text \<open>A payload as an infinite, zero-padded sequence of bytes.\<close>

definition pad :: "u8 list \<Rightarrow> nat \<Rightarrow> u8" where
  "pad p j = (if j < length p then p ! j else 0)"

lemma length_xor_bytes [simp]: "length (xor_bytes acc p) = length acc"
  by (induction acc p rule: xor_bytes.induct) auto

lemma nth_xor_bytes: "j < length acc \<Longrightarrow> xor_bytes acc p ! j = acc ! j XOR pad p j"
proof (induction acc p arbitrary: j rule: xor_bytes.induct)
  case (3 a acc b p)
  then show ?case by (cases j) (auto simp: pad_def)
qed (auto simp: pad_def)

definition xor_payloads :: "RTPPacketData list \<Rightarrow> u8 list \<Rightarrow> u8 list" where
  "xor_payloads ps acc = fold (\<lambda>p a. xor_bytes a (pkt_Payload p)) ps acc"

lemma length_xor_payloads [simp]: "length (xor_payloads ps acc) = length acc"
  unfolding xor_payloads_def by (induction ps arbitrary: acc) auto

lemma nth_xor_payloads:
  "j < length acc \<Longrightarrow> xor_payloads ps acc ! j = xor_over (\<lambda>p. pad (pkt_Payload p) j) ps (acc ! j)"
  unfolding xor_payloads_def
  by (induction ps arbitrary: acc) (auto simp: nth_xor_bytes)

lemma fold_addParity:
  "fold addParity ps fec =
     \<lparr>fec_SequenceBase = fec_SequenceBase fec,
      fec_ProtectedSeq = fec_ProtectedSeq fec @ map pkt_SequenceNumber ps,
      fec_PayloadXOR = xor_payloads ps (fec_PayloadXOR fec),
      fec_LengthXOR = xor_over (\<lambda>p. of_nat (length (pkt_Payload p))) ps (fec_LengthXOR fec),
      fec_TimestampXOR = xor_over pkt_Timestamp ps (fec_TimestampXOR fec),
      fec_PTMarkerXOR = xor_over ptMarker ps (fec_PTMarkerXOR fec)\<rparr>"
  by (induction ps arbitrary: fec) (simp_all add: addParity_def xor_payloads_def)

lemma recover_fields_eq:
  "recover_fields fec ps =
     (xor_over (\<lambda>p. of_nat (length (pkt_Payload p))) ps (fec_LengthXOR fec),
      xor_over pkt_Timestamp ps (fec_TimestampXOR fec), xor_over ptMarker ps (fec_PTMarkerXOR fec),
      xor_payloads ps (fec_PayloadXOR fec))"
proof -
  have "fold removeParity ps (l, t, m, b) =
     (xor_over (\<lambda>p. of_nat (length (pkt_Payload p))) ps l, xor_over pkt_Timestamp ps t,
      xor_over ptMarker ps m, xor_payloads ps b)" for l t m b
    by (induction ps arbitrary: l t m b) (simp_all add: removeParity_def xor_payloads_def)
  then show ?thesis by (simp add: recover_fields_def)
qed

text \<open>The packets of a block are combined in Go's map order, and any order gives the same result.\<close>

lemma recover_fields_order:
  assumes "mset ps = mset qs"
  shows "recover_fields fec ps = recover_fields fec qs"
proof -
  have "xor_payloads ps acc = xor_payloads qs acc" for acc
    by (rule nth_equalityI) (simp_all add: nth_xor_payloads xor_over_mset [OF assms])
  then show ?thesis by (simp add: recover_fields_eq xor_over_mset [OF assms])
qed

lemma maxPayloadLen_ge: "p \<in> set ps \<Longrightarrow> length (pkt_Payload p) \<le> maxPayloadLen ps"
proof -
  let ?g = "\<lambda>p m. if length (pkt_Payload p) > m then length (pkt_Payload p) else m"
  have mono: "k \<le> m \<Longrightarrow> k \<le> fold ?g qs m" for k m qs
    by (induction qs arbitrary: m) simp_all
  have "p \<in> set qs \<Longrightarrow> length (pkt_Payload p) \<le> fold ?g qs m" for m qs
    by (induction qs arbitrary: m) (auto intro: mono)
  then show "p \<in> set ps \<Longrightarrow> ?thesis" by (simp add: maxPayloadLen_def)
qed

lemma maxPayloadLen_less: "\<forall>p \<in> set ps. length (pkt_Payload p) < n \<Longrightarrow> 0 < n \<Longrightarrow> maxPayloadLen ps < n"
proof -
  have "\<forall>p \<in> set ps. length (pkt_Payload p) < n \<Longrightarrow> m < n \<Longrightarrow>
      fold (\<lambda>p m. if length (pkt_Payload p) > m then length (pkt_Payload p) else m) ps m < n" for m
    by (induction ps arbitrary: m) auto
  then show "\<forall>p \<in> set ps. length (pkt_Payload p) < n \<Longrightarrow> 0 < n \<Longrightarrow> ?thesis"
    by (simp add: maxPayloadLen_def)
qed

section \<open>Recovery of one lost packet\<close>

text \<open>What a parity packet over \<open>ps\<close> says: the parities of all packets, and their sequence numbers.\<close>

definition parity_of :: "FECPacket \<Rightarrow> RTPPacketData list \<Rightarrow> bool" where
  "parity_of fec ps \<longleftrightarrow>
     fec_ProtectedSeq fec = map pkt_SequenceNumber ps \<and>
     fec_LengthXOR fec = xor_over (\<lambda>p. of_nat (length (pkt_Payload p))) ps 0 \<and>
     fec_TimestampXOR fec = xor_over pkt_Timestamp ps 0 \<and>
     fec_PTMarkerXOR fec = xor_over ptMarker ps 0 \<and>
     fec_PayloadXOR fec = xor_payloads ps (replicate (maxPayloadLen ps) 0)"

lemma generateFECPacket_parity:
  assumes "fh_encodingBlock h \<noteq> []"
  shows "\<exists>fec. generateFECPacket h = (Some fec, h\<lparr>fh_fecSeqNum := fh_fecSeqNum h + 1\<rparr>) \<and>
           fec_SequenceBase fec = fh_encodingBlockSeq h \<and> parity_of fec (fh_encodingBlock h)"
  using assms by (simp add: generateFECPacket_def fold_addParity parity_of_def)

lemma recover_fields_lost:
  assumes "parity_of fec ps" "mset ps = add_mset lost (mset qs)"
    and "length (pkt_Payload lost) \<le> maxPayloadLen ps"
  shows "\<exists>payload. recover_fields fec qs
      = (of_nat (length (pkt_Payload lost)), pkt_Timestamp lost, ptMarker lost, payload) \<and>
      length (pkt_Payload lost) \<le> length payload \<and>
      take (length (pkt_Payload lost)) payload = pkt_Payload lost"
proof -
  let ?n = "maxPayloadLen ps"
  let ?r = "xor_payloads qs (xor_payloads ps (replicate ?n 0))"
  have "?r ! j = pad (pkt_Payload lost) j" if "j < ?n" for j
    using that xor_over_cancel [OF assms(2), of "\<lambda>p. pad (pkt_Payload p) j"]
    by (simp add: nth_xor_payloads)
  then have "take (length (pkt_Payload lost)) ?r = pkt_Payload lost"
    using assms(3) by (intro nth_equalityI) (simp_all add: pad_def)
  moreover have "recover_fields fec qs
      = (of_nat (length (pkt_Payload lost)), pkt_Timestamp lost, ptMarker lost, ?r)"
    using assms(1) by (simp add: recover_fields_eq parity_of_def xor_over_cancel [OF assms(2)])
  ultimately show ?thesis using assms(3) by (intro exI [of _ ?r]) simp
qed

lemma classify_fold:
  assumes "distinct seqs" "\<forall>s \<in> set seqs. s \<notin> fst ` set received"
  shows "fold (classify stored) seqs (received, missing) =
     (received @ map (\<lambda>s. (s, the (map_of stored s))) (filter (\<lambda>s. map_of stored s \<noteq> None) seqs),
      missing @ filter (\<lambda>s. map_of stored s = None) seqs)"
  using assms
proof (induction seqs arbitrary: received missing)
  case (Cons s seqs)
  show ?case
  proof (cases "map_of stored s")
    case None
    then show ?thesis using Cons.IH [of received "missing @ [s]"] Cons.prems by (simp add: classify_def)
  next
    case (Some p)
    then show ?thesis using Cons.IH [of "received @ [(s, p)]" missing] Cons.prems
      by (auto simp: classify_def AList_update_fresh)
  qed
qed simp

lemma classify_one_lost:
  assumes "distinct (map pkt_SequenceNumber ps)" "lost \<in> set ps"
    and "\<forall>p \<in> set ps - {lost}. map_of stored (pkt_SequenceNumber p) = Some p"
    and "map_of stored (pkt_SequenceNumber lost) = None"
  shows "fold (classify stored) (map pkt_SequenceNumber ps) ([], []) =
     (map (\<lambda>p. (pkt_SequenceNumber p, p)) (remove1 lost ps), [pkt_SequenceNumber lost])"
proof -
  have d: "distinct ps" and inj: "inj_on pkt_SequenceNumber (set ps)"
    using assms(1) by (simp_all add: distinct_map)
  have known: "map_of stored (pkt_SequenceNumber p) = (if p = lost then None else Some p)"
    if "p \<in> set ps" for p
    using that assms(3,4) by simp
  have "filter (\<lambda>p. p = lost) ps = [lost]"
    using d assms(2) by (induction ps) (auto simp: filter_empty_conv)
  then have "filter (\<lambda>s. map_of stored s = None) (map pkt_SequenceNumber ps) = [pkt_SequenceNumber lost]"
    by (simp add: filter_map comp_def known cong: filter_cong)
  moreover have "filter (\<lambda>s. map_of stored s \<noteq> None) (map pkt_SequenceNumber ps)
      = map pkt_SequenceNumber (remove1 lost ps)"
    using d by (simp add: filter_map comp_def known distinct_remove1_removeAll removeAll_filter_not_eq
        eq_commute cong: filter_cong)
  moreover have "map (\<lambda>s. (s, the (map_of stored s))) (map pkt_SequenceNumber (remove1 lost ps))
      = map (\<lambda>p. (pkt_SequenceNumber p, p)) (remove1 lost ps)"
    using d known by (auto dest: notin_set_remove1)
  ultimately show ?thesis using classify_fold [OF assms(1), of "[]" stored "[]"] by simp
qed

lemma tryRecoverPackets_one_lost:
  assumes "parity_of fec ps" "mset ps = add_mset lost (mset (map snd received))"
    and "\<forall>(s, p) \<in> set received. s \<noteq> pkt_SequenceNumber lost" "lost \<in> set ps"
    and "length (pkt_Payload lost) < 2 ^ 16" "pkt_PayloadType lost < 0x80"
  shows "tryRecoverPackets h \<lparr>blk_FECPacket = fec, blk_ReceivedPackets = received,
            blk_MissingPackets = [pkt_SequenceNumber lost], blk_Complete = False\<rparr> =
     Inr ([lost], h\<lparr>fh_receivedPackets := AList.update (pkt_SequenceNumber lost) lost (fh_receivedPackets h)\<rparr>,
       \<lparr>blk_FECPacket = fec, blk_ReceivedPackets = AList.update (pkt_SequenceNumber lost) lost received,
        blk_MissingPackets = [], blk_Complete = True\<rparr>)"
proof -
  have "filter (\<lambda>(s, _). s \<noteq> pkt_SequenceNumber lost) received = received"
    using assms(3) by (auto intro: filter_True)
  moreover obtain payload where "recover_fields fec (map snd received)
      = (of_nat (length (pkt_Payload lost)), pkt_Timestamp lost, ptMarker lost, payload)"
    "length (pkt_Payload lost) \<le> length payload"
    "take (length (pkt_Payload lost)) payload = pkt_Payload lost"
    using recover_fields_lost [OF assms(1,2) maxPayloadLen_ge [OF assms(4)]] by blast
  moreover have "unat (of_nat (length (pkt_Payload lost)) :: u16) = length (pkt_Payload lost)"
    using assms(5) by (simp add: unat_of_nat)
  ultimately show ?thesis
    using ptMarker_split [OF assms(6)] by (cases lost) (simp add: tryRecoverPackets_def Let_def)
qed

lemma ReceiveFECPacket_one_lost:
  assumes "parity_of fec ps" "distinct (map pkt_SequenceNumber ps)" "lost \<in> set ps"
    and "length (pkt_Payload lost) < 2 ^ 16" "pkt_PayloadType lost < 0x80"
    and "cfg_Enabled (fh_config h)"
    and "\<forall>p \<in> set ps - {lost}. map_of (fh_receivedPackets h) (pkt_SequenceNumber p) = Some p"
    and "map_of (fh_receivedPackets h) (pkt_SequenceNumber lost) = None"
  shows "\<exists>h'. ReceiveFECPacket h (Some fec) = Inr ([lost], h') \<and>
           map_of (fh_receivedPackets h') (pkt_SequenceNumber lost) = Some lost"
proof -
  let ?received = "map (\<lambda>p. (pkt_SequenceNumber p, p)) (remove1 lost ps)"
  have block: "newBlock h fec = \<lparr>blk_FECPacket = fec, blk_ReceivedPackets = ?received,
      blk_MissingPackets = [pkt_SequenceNumber lost], blk_Complete = False\<rparr>"
    using assms(1) classify_one_lost [OF assms(2,3,7,8)] by (simp add: newBlock_def parity_of_def)
  have "distinct ps" "inj_on pkt_SequenceNumber (set ps)"
    using assms(2) by (simp_all add: distinct_map)
  then have "\<forall>(s, p) \<in> set ?received. s \<noteq> pkt_SequenceNumber lost"
    using assms(3) by (auto simp: inj_on_eq_iff)
  moreover have "mset ps = add_mset lost (mset (map snd ?received))"
    using assms(3) by (simp add: comp_def)
  ultimately show ?thesis
    using tryRecoverPackets_one_lost [OF assms(1) _ _ assms(3,4,5), of ?received h] assms(6)
    by (simp add: ReceiveFECPacket_def block update_conv')
qed

section \<open>The sender emits one parity packet per block\<close>

text \<open>A run of the sender: the parity packets emitted for a list of media packets.\<close>

fun addAll :: "FECHandler \<Rightarrow> RTPPacketData list \<Rightarrow> FECPacket list \<times> FECHandler" where
  "addAll h [] = ([], h)"
| "addAll h (p # ps) =
     (let (out, h1) = AddMediaPacket h p; (outs, h2) = addAll h1 ps
      in (case out of None \<Rightarrow> outs | Some fec \<Rightarrow> fec # outs, h2))"

lemma addAll_block:
  assumes "cfg_Enabled (fh_config h)" "ps \<noteq> []"
    and "int (length (fh_encodingBlock h) + length ps) = cfg_BlockSize (fh_config h)"
  shows "\<exists>fec h'. addAll h ps = ([fec], h') \<and> fh_encodingBlock h' = [] \<and> fh_config h' = fh_config h \<and>
     parity_of fec (fh_encodingBlock h @ ps)"
  using assms
proof (induction ps arbitrary: h)
  case (Cons p ps)
  show ?case
  proof (cases "ps = []")
    case True
    let ?h = "(if fh_encodingBlock h = [] then h\<lparr>fh_encodingBlockSeq := pkt_SequenceNumber p\<rparr> else h)
        \<lparr>fh_encodingBlock := fh_encodingBlock h @ [p]\<rparr>"
    obtain fec where "generateFECPacket ?h = (Some fec, ?h\<lparr>fh_fecSeqNum := fh_fecSeqNum ?h + 1\<rparr>)"
      "parity_of fec (fh_encodingBlock h @ [p])"
      using generateFECPacket_parity [of ?h] by auto
    then show ?thesis using True Cons.prems by (auto simp: AddMediaPacket_def Let_def)
  next
    case False
    let ?h = "snd (AddMediaPacket h p)"
    have step: "fst (AddMediaPacket h p) = None" "fh_encodingBlock ?h = fh_encodingBlock h @ [p]"
      "fh_config ?h = fh_config h"
      using False Cons.prems by (cases ps; auto simp: AddMediaPacket_def Let_def)+
    then show ?thesis
      using Cons.IH [of ?h] False Cons.prems by (auto simp: case_prod_beta)
  qed
qed simp

section \<open>Wire format\<close>

lemma read16_at: "d = pre @ be16 w @ rest \<Longrightarrow> off = length pre \<Longrightarrow> read16 d off = Inr w"
  by (simp add: read16_def get16_be16)

lemma read32_at: "d = pre @ be32 w @ rest \<Longrightarrow> off = length pre \<Longrightarrow> read32 d off = Inr w"
  by (simp add: read32_def get32_be32)

lemma readSeqs_at:
  "d = pre @ concat (map be16 ss) @ rest \<Longrightarrow> off = length pre \<Longrightarrow> n = length ss \<Longrightarrow> readSeqs d off n = Inr ss"
proof (induction ss arbitrary: pre off n)
  case (Cons s ss)
  then show ?case
    using read16_at [of d pre s "concat (map be16 ss) @ rest" off] Cons.IH [of "pre @ be16 s" "off + 2" "n - 1"]
    by simp
qed simp

lemma length_concat_be16 [simp]: "length (concat (map be16 ss)) = 2 * length ss"
  by (induction ss) auto

lemma DeserializeFECPacket_Serialize:
  assumes "length (fec_ProtectedSeq fec) < 2 ^ 16" "length (fec_PayloadXOR fec) < 2 ^ 16"
  shows "DeserializeFECPacket (SerializeFECPacket fec @ rest) = Inr fec"
proof -
  let ?d = "SerializeFECPacket fec @ rest" and ?n = "length (fec_ProtectedSeq fec)"
  let ?m = "length (fec_PayloadXOR fec)" and ?seqs = "concat (map be16 (fec_ProtectedSeq fec))"
  have u: "unat (of_nat ?n :: u16) = ?n" "unat (of_nat ?m :: u16) = ?m"
    using assms by (simp_all add: unat_of_nat)
  define h1 where "h1 = be16 (fec_SequenceBase fec)"
  define h2 where "h2 = h1 @ be16 (of_nat ?n)"
  define h3 where "h3 = h2 @ ?seqs"
  define h4 where "h4 = h3 @ be16 (fec_LengthXOR fec)"
  define h5 where "h5 = h4 @ be32 (fec_TimestampXOR fec)"
  define h6 where "h6 = h5 @ [fec_PTMarkerXOR fec]"
  define h7 where "h7 = h6 @ be16 (of_nat ?m)"
  note hs = h1_def h2_def h3_def h4_def h5_def h6_def h7_def
  have len: "length h1 = 2" "length h2 = 4" "length h3 = 4 + ?n * 2" "length h4 = 6 + ?n * 2"
    "length h5 = 10 + ?n * 2" "length h6 = 11 + ?n * 2" "length h7 = 13 + ?n * 2"
    by (simp_all add: hs)
  have d: "?d = be16 (fec_SequenceBase fec) @ drop 2 ?d" "?d = h1 @ be16 (of_nat ?n) @ drop 4 ?d"
    "?d = h2 @ ?seqs @ drop (4 + ?n * 2) ?d" "?d = h3 @ be16 (fec_LengthXOR fec) @ drop (6 + ?n * 2) ?d"
    "?d = h4 @ be32 (fec_TimestampXOR fec) @ drop (10 + ?n * 2) ?d"
    "?d = h5 @ fec_PTMarkerXOR fec # drop (11 + ?n * 2) ?d"
    "?d = h6 @ be16 (of_nat ?m) @ drop (13 + ?n * 2) ?d" "?d = h7 @ fec_PayloadXOR fec @ rest"
    by (simp_all add: hs SerializeFECPacket_def)
  have "read16 ?d 0 = Inr (fec_SequenceBase fec)"
    using read16_at [of ?d "[]" "fec_SequenceBase fec"] d(1) by simp
  moreover have "read16 ?d 2 = Inr (of_nat ?n)" by (rule read16_at [OF d(2)]) (simp add: len)
  moreover have "readSeqs ?d 4 ?n = Inr (fec_ProtectedSeq fec)"
    by (rule readSeqs_at [OF d(3)]) (simp_all add: len)
  moreover have "read16 ?d (4 + ?n * 2) = Inr (fec_LengthXOR fec)"
    by (rule read16_at [OF d(4)]) (simp add: len)
  moreover have "read32 ?d (4 + ?n * 2 + 2) = Inr (fec_TimestampXOR fec)"
    by (rule read32_at [OF d(5)]) (simp add: len)
  moreover have "?d ! (4 + ?n * 2 + 6) = fec_PTMarkerXOR fec"
    by (subst d(6)) (simp add: nth_append len)
  moreover have "read16 ?d (4 + ?n * 2 + 7) = Inr (of_nat ?m)"
    by (rule read16_at [OF d(7)]) (simp add: len)
  moreover have "take ?m (drop (4 + ?n * 2 + 9) ?d) = fec_PayloadXOR fec"
    by (subst d(8)) (simp add: len)
  moreover have "length ?d = 13 + ?n * 2 + ?m + length rest"
    by (subst d(8)) (simp add: len)
  ultimately show ?thesis
    by (simp add: DeserializeFECPacket_def Let_def u)
qed

lemma read16_ok: "off + 2 \<le> length d \<Longrightarrow> \<exists>w. read16 d off = Inr w"
  using get16_Some [of "drop off d"] by (fastforce simp: read16_def)

lemma read32_ok: "off + 4 \<le> length d \<Longrightarrow> \<exists>w. read32 d off = Inr w"
  using get32_Some [of "drop off d"] by (fastforce simp: read32_def)

lemma readSeqs_ok: "off + n * 2 \<le> length d \<Longrightarrow> \<exists>ss. readSeqs d off n = Inr ss"
proof (induction n arbitrary: off)
  case (Suc n)
  then show ?case using read16_ok [of off d] Suc.IH [of "off + 2"] by fastforce
qed simp

lemma map_of_filter_key: "map_of (filter (\<lambda>(k, _). P k) m) k = (if P k then map_of m k else None)"
  by (induction m) auto

section \<open>Properties of error correction\<close>

text \<open>C12. One lost packet per block is recovered exactly: when the sender has passed a full
  block of packets with distinct sequence numbers, it has emitted one parity packet, that
  packet survives the wire format, and a receiver that holds all packets of the block but one
  gets back exactly the packet that is missing: timestamp, payload type, marker and payload.\<close>

theorem fec_recovers_single_loss:
  assumes "cfg_Enabled (fh_config s)" and "fh_encodingBlock s = []"
    and "int (length ps) = cfg_BlockSize (fh_config s)" and "length ps < 2 ^ 16"
    and "distinct (map pkt_SequenceNumber ps)" and "lost \<in> set ps"
    and "\<forall>p \<in> set ps. length (pkt_Payload p) < 2 ^ 16 \<and> pkt_PayloadType p < 0x80"
    and "cfg_Enabled (fh_config r)"
    and "\<forall>p \<in> set ps - {lost}. map_of (fh_receivedPackets r) (pkt_SequenceNumber p) = Some p"
    and "map_of (fh_receivedPackets r) (pkt_SequenceNumber lost) = None"
  shows "\<exists>fec s' r'. addAll s ps = ([fec], s') \<and>
    DeserializeFECPacket (SerializeFECPacket fec) = Inr fec \<and>
    ReceiveFECPacket r (Some fec) = Inr ([lost], r') \<and>
    map_of (fh_receivedPackets r') (pkt_SequenceNumber lost) = Some lost"
proof -
  have "ps \<noteq> []" using assms(6) by auto
  then obtain fec s' where fec: "addAll s ps = ([fec], s')" "parity_of fec ps"
    using addAll_block [of s ps] assms(1-3) by auto
  have "maxPayloadLen ps < 2 ^ 16" using assms(7) by (intro maxPayloadLen_less) auto
  then have "DeserializeFECPacket (SerializeFECPacket fec) = Inr fec"
    using DeserializeFECPacket_Serialize [of fec "[]"] fec(2) assms(4) by (simp add: parity_of_def)
  moreover have "\<exists>r'. ReceiveFECPacket r (Some fec) = Inr ([lost], r') \<and>
      map_of (fh_receivedPackets r') (pkt_SequenceNumber lost) = Some lost"
    using assms(6,7) by (intro ReceiveFECPacket_one_lost [OF fec(2) assms(5,6) _ _ assms(8-10)]) auto
  ultimately show ?thesis using fec(1) by blast
qed

definition sample_packet :: "u16 \<Rightarrow> u32 \<Rightarrow> bool \<Rightarrow> u8 list \<Rightarrow> RTPPacketData" where
  "sample_packet seq ts m payload = \<lparr>pkt_SequenceNumber = seq, pkt_Timestamp = ts, pkt_PayloadType = 8,
     pkt_Marker = m, pkt_Payload = payload\<rparr>"

theorem fec_recovers_single_loss_witness:
  "\<exists>fec s' r'.
    addAll (SetBlockSize (NewFECHandler None) 2) [sample_packet 65535 160 True [1, 2, 3], sample_packet 0 320 False [4]]
      = ([fec], s') \<and>
    DeserializeFECPacket (SerializeFECPacket fec) = Inr fec \<and>
    ReceiveFECPacket ((NewFECHandler None)\<lparr>fh_receivedPackets := [(0, sample_packet 0 320 False [4])]\<rparr>) (Some fec)
      = Inr ([sample_packet 65535 160 True [1, 2, 3]], r') \<and>
    map_of (fh_receivedPackets r') (pkt_SequenceNumber (sample_packet 65535 160 True [1, 2, 3]))
      = Some (sample_packet 65535 160 True [1, 2, 3])"
  by (rule fec_recovers_single_loss)
    (auto simp: NewFECHandler_def SetBlockSize_def clampBlockSize_def DefaultFECConfig_def sample_packet_def)

text \<open>Parsing a parity packet from the network never indexes outside the datagram,
  whatever its bytes are: it returns a packet or \<^verbatim>\<open>ErrInvalidPacket\<close>.\<close>

lemma DeserializeFECPacket_no_panic: "DeserializeFECPacket data \<noteq> Inl FECPanic"
proof (cases "length data < 11")
  case False
  then obtain base num where r: "read16 data 0 = Inr base" "read16 data 2 = Inr num"
    using read16_ok [of 0 data] read16_ok [of 2 data] by auto
  let ?off = "4 + unat num * 2"
  show ?thesis
  proof (cases "length data < ?off + 9")
    case ge: False
    then obtain ss l t m where "readSeqs data 4 (unat num) = Inr ss" "read16 data ?off = Inr l"
      "read32 data (?off + 2) = Inr t" "read16 data (?off + 7) = Inr m"
      using readSeqs_ok [of 4 "unat num" data] read16_ok [of ?off data] read32_ok [of "?off + 2" data]
        read16_ok [of "?off + 7" data]
      by auto
    with False ge r show ?thesis by (simp add: DeserializeFECPacket_def Let_def)
  qed (use False r in \<open>simp add: DeserializeFECPacket_def Let_def\<close>)
qed (simp add: DeserializeFECPacket_def)

text \<open>Handling a parity packet panics exactly when one of its packets is missing and the
  recovered length exceeds the parity payload. Nothing on the way checks the length field,
  so a crafted datagram that parses without error stops the receiver.\<close>

lemma ReceiveFECPacket_panic_iff:
  "(ReceiveFECPacket h (Some fec) = Inl FECPanic \<longleftrightarrow>
     cfg_Enabled (fh_config h) \<and>
     (\<exists>missing. blk_MissingPackets (newBlock h fec) = [missing] \<and>
        (let received = filter (\<lambda>(seq, _). seq \<noteq> missing) (blk_ReceivedPackets (newBlock h fec))
         in length (fec_PayloadXOR fec) < unat (fst (recover_fields fec (map snd received)))))) \<and>
   DeserializeFECPacket [0, 7, 0, 1, 0, 7, 0, 1, 0, 0, 0, 0, 0, 0, 0]
     = Inr \<lparr>fec_SequenceBase = 7, fec_ProtectedSeq = [7], fec_PayloadXOR = [], fec_LengthXOR = 1,
            fec_TimestampXOR = 0, fec_PTMarkerXOR = 0\<rparr> \<and>
   ReceiveFECPacket (NewFECHandler None) (Some \<lparr>fec_SequenceBase = 7, fec_ProtectedSeq = [7],
     fec_PayloadXOR = [], fec_LengthXOR = 1, fec_TimestampXOR = 0, fec_PTMarkerXOR = 0\<rparr>) = Inl FECPanic"
proof (intro conjI)
  have "blk_FECPacket (newBlock h fec) = fec" by (simp add: newBlock_def case_prod_beta)
  then show "ReceiveFECPacket h (Some fec) = Inl FECPanic \<longleftrightarrow>
     cfg_Enabled (fh_config h) \<and>
     (\<exists>missing. blk_MissingPackets (newBlock h fec) = [missing] \<and>
        (let received = filter (\<lambda>(seq, _). seq \<noteq> missing) (blk_ReceivedPackets (newBlock h fec))
         in length (fec_PayloadXOR fec) < unat (fst (recover_fields fec (map snd received)))))"
    by (auto simp: ReceiveFECPacket_def tryRecoverPackets_def Let_def recover_fields_eq
        split: list.splits if_splits sum.splits)
  show "DeserializeFECPacket [0, 7, 0, 1, 0, 7, 0, 1, 0, 0, 0, 0, 0, 0, 0]
     = Inr \<lparr>fec_SequenceBase = 7, fec_ProtectedSeq = [7], fec_PayloadXOR = [], fec_LengthXOR = 1,
            fec_TimestampXOR = 0, fec_PTMarkerXOR = 0\<rparr>"
    by code_simp
  show "ReceiveFECPacket (NewFECHandler None) (Some \<lparr>fec_SequenceBase = 7, fec_ProtectedSeq = [7],
     fec_PayloadXOR = [], fec_LengthXOR = 1, fec_TimestampXOR = 0, fec_PTMarkerXOR = 0\<rparr>) = Inl FECPanic"
    by (simp add: ReceiveFECPacket_def NewFECHandler_def DefaultFECConfig_def newBlock_def classify_def
        tryRecoverPackets_def recover_fields_def Let_def)
qed

text \<open>The packet window only looks back: after a media packet the receiver keeps the
  stored packets that are at most 256 behind it and forgets every packet that is ahead of it,
  so a packet that arrives late and out of order discards the newer packets already received.\<close>

lemma reordered_packet_evicts:
  assumes "unat (newer - pkt_SequenceNumber p) \<noteq> 0" and "unat (newer - pkt_SequenceNumber p) < 65280"
    and "unat (pkt_SequenceNumber p - older) \<le> 256"
    and "older \<noteq> pkt_SequenceNumber p"
  shows "\<exists>h'. ReceiveMediaPacket [] h p = Inr h' \<and> map_of (fh_receivedPackets h') newer = None \<and>
     map_of (fh_receivedPackets h') older = map_of (fh_receivedPackets h) older \<and>
     map_of (fh_receivedPackets h') (pkt_SequenceNumber p) = Some p"
proof -
  let ?c = "pkt_SequenceNumber p"
  have "newer \<noteq> ?c" using assms(1) by auto
  have "unat (?c - newer) = 65536 - unat (newer - ?c)"
    using assms(1) unat_uminus [of "newer - ?c"] by (auto simp: unsigned_eq_0_iff)
  then have "256 < ?c - newer" using assms(2) by (simp add: word_less_nat_alt)
  moreover have "\<not> 256 < ?c - older" using assms(3) by (simp add: word_less_nat_alt)
  ultimately show ?thesis
    using assms(4) \<open>newer \<noteq> ?c\<close>
    by (auto simp: ReceiveMediaPacket_def Let_def cleanupOldPackets_def seqDistance_eq
        map_of_filter_key update_conv')
qed

end
