(* ===== verification/Session_Registry.thy ===== *)
theory Session_Registry
  imports Jitter_Buffer FEC
begin

text \<open>
  The session registry, \<^verbatim>\<open>internal/session_manager.go\<close>: media sessions with their call legs,
  found by identifier, by call identifier and tags, and by SSRC.

  A session pointer is the identifier of the session; \<^verbatim>\<open>uuid.New\<close> is not part of the repository,
  so the new identifier is an argument of \<open>CreateSession\<close>. A leg pointer is an address in the
  store \<open>reg_legs\<close>: \<^verbatim>\<open>offer.go\<close> and \<^verbatim>\<open>answer.go\<close> give one leg both to \<^verbatim>\<open>SetCallerLeg\<close> or
  \<^verbatim>\<open>SetCalleeLeg\<close> and to \<^verbatim>\<open>SetLegByLabel\<close>, and \<^verbatim>\<open>RegisterSSRC\<close> writes through the pointer. A
  UDP socket is a handle; \<open>reg_closed\<close> lists the handles on which \<^verbatim>\<open>Close\<close> was called. The order in
  which a range visits a map is an argument, and one call reads the clock once. The RTCP handler
  of a session and the mutexes are left out.
\<close>

section \<open>Types\<close>

type_synonym SessionState = string
type_synonym MediaType = string
type_synonym TransportProtocol = string

abbreviation MediaAudio :: MediaType where "MediaAudio \<equiv> ''audio''"
abbreviation MediaVideo :: MediaType where "MediaVideo \<equiv> ''video''"
abbreviation TransportRTP :: TransportProtocol where "TransportRTP \<equiv> ''RTP/AVP''"
abbreviation TransportRTPS :: TransportProtocol where "TransportRTPS \<equiv> ''RTP/SAVP''"
abbreviation TransportRTPSF :: TransportProtocol where "TransportRTPSF \<equiv> ''RTP/SAVPF''"
abbreviation TransportUDPTLSF :: TransportProtocol where "TransportUDPTLSF \<equiv> ''UDP/TLS/RTP/SAVPF''"
abbreviation SessionStateNew :: SessionState where "SessionStateNew \<equiv> ''new''"
abbreviation SessionStatePending :: SessionState where "SessionStatePending \<equiv> ''pending''"
abbreviation SessionStateActive :: SessionState where "SessionStateActive \<equiv> ''active''"
abbreviation SessionStateHold :: SessionState where "SessionStateHold \<equiv> ''hold''"
abbreviation SessionStateTerminated :: SessionState where "SessionStateTerminated \<equiv> ''terminated''"

record ICECredentials =
  ice_Username :: string
  ice_Password :: string
  ice_Lite :: bool

record SRTPParameters =
  srtp_CryptoSuite :: string
  srtp_MasterKey :: "u8 list"
  srtp_MasterSalt :: "u8 list"
  srtp_DTLS :: bool
  srtp_Fingerprint :: string
  srtp_Setup :: string

record CodecInfo =
  ci_PayloadType :: u8
  ci_Name :: string
  ci_ClockRate :: u32
  ci_Channels :: int
  ci_Fmtp :: string

record CallLeg =
  cl_Tag :: string
  cl_Label :: string
  cl_IP :: "u8 list"
  cl_Port :: int
  cl_RTCPPort :: int
  cl_MediaType :: MediaType
  cl_Codecs :: "CodecInfo list"
  cl_SSRC :: u32
  cl_Transport :: TransportProtocol
  cl_ICECredentials :: "ICECredentials option"
  cl_SRTPParams :: "SRTPParameters option"
  cl_LocalIP :: "u8 list"
  cl_LocalPort :: int
  cl_LocalRTCPPort :: int
  cl_Conn :: "nat option"
  cl_RTCPConn :: "nat option"
  cl_LastActivity :: gtime
  cl_PacketsSent :: u64
  cl_PacketsRecv :: u64
  cl_BytesSent :: u64
  cl_BytesRecv :: u64
  cl_PacketsLost :: u32
  cl_Jitter :: rat
  cl_Interface :: string
  cl_AddressFamily :: string
  cl_Direction :: string
  cl_Symmetric :: bool
  cl_StrictSource :: bool
  cl_MediaHandover :: bool
  cl_PortLatching :: bool
  cl_MediaBlocked :: bool
  cl_DTMFBlocked :: bool
  cl_Silenced :: bool
  cl_T38Enabled :: bool
  cl_T38Gateway :: bool

record SessionStats =
  ss_StartTime :: gtime
  ss_ConnectTime :: gtime
  ss_EndTime :: gtime
  ss_Duration :: duration
  ss_CallerPacketsSent :: u64
  ss_CallerPacketsRecv :: u64
  ss_CallerBytesent :: u64
  ss_CallerBytesRecv :: u64
  ss_CalleePacketsSent :: u64
  ss_CalleePacketsRecv :: u64
  ss_CalleeBytesent :: u64
  ss_CalleeBytesRecv :: u64
  ss_PacketLossRate :: rat
  ss_AvgJitter :: rat
  ss_MaxJitter :: rat
  ss_RTT :: rat
  ss_MOS :: rat

record SessionRecording =
  rec_Active :: bool
  rec_RecordID :: string
  rec_StartTime :: gtime
  rec_FilePath :: string
  rec_Format :: string
  rec_Mode :: string

record MediaSession =
  ms_ID :: string
  ms_CallID :: string
  ms_FromTag :: string
  ms_ToTag :: string
  ms_ViaBranch :: string
  ms_State :: SessionState
  ms_CallerLeg :: "nat option"
  ms_CalleeLeg :: "nat option"
  ms_SSRCToLeg :: "(u32 \<times> nat) list"
  ms_Stats :: SessionStats
  ms_JitterBuf :: "JitterBuffer option"
  ms_FECHandler :: "FECHandler option"
  ms_Recording :: "SessionRecording option"
  ms_CreatedAt :: gtime
  ms_UpdatedAt :: gtime
  ms_Flags :: "string \<rightharpoonup> bool"
  ms_Metadata :: "string \<rightharpoonup> string"
  ms_Legs :: "(string \<times> nat) list"
  ms_TOS :: int
  ms_MediaTimeout :: int
  ms_DeleteDelay :: int
  ms_SIPREC :: bool
  ms_SIPRECMeta :: "string \<rightharpoonup> string"
  ms_TranscodeCodecs :: "string list"
  ms_AlwaysTranscode :: bool
  ms_ICELite :: bool
  ms_TrickleICE :: bool
  ms_ICEForce :: bool
  ms_ICERemove :: bool
  ms_DTLSOff :: bool
  ms_DTLSPassive :: bool
  ms_DTLSActive :: bool
  ms_SDESOff :: bool
  ms_SDESOnly :: bool
  ms_T38Enabled :: bool
  ms_T38Gateway :: bool
  ms_LoopProtect :: bool

record SessionRegistry =
  reg_sessions :: "(string \<times> MediaSession) list"
  reg_callIDIndex :: "string \<rightharpoonup> string list"
  reg_fromTagIndex :: "string \<rightharpoonup> string"
  reg_ssrcIndex :: "u32 \<rightharpoonup> string"
  reg_sessionTTL :: duration
  reg_onSessionEnd :: bool
  reg_stopped :: bool
  reg_legs :: "CallLeg list"
  reg_closed :: "nat list"

definition NewSessionRegistry :: "duration \<Rightarrow> SessionRegistry" where
  "NewSessionRegistry ttl = \<lparr>reg_sessions = [], reg_callIDIndex = Map.empty, reg_fromTagIndex = Map.empty,
     reg_ssrcIndex = Map.empty, reg_sessionTTL = ttl, reg_onSessionEnd = False, reg_stopped = False,
     reg_legs = [], reg_closed = []\<rparr>"

definition SetOnSessionEnd :: "bool \<Rightarrow> SessionRegistry \<Rightarrow> SessionRegistry" where
  "SetOnSessionEnd callback sr = sr\<lparr>reg_onSessionEnd := callback\<rparr>"

text \<open>The allocation of a leg, \<^verbatim>\<open>&CallLeg{...}\<close>, by a caller of the registry.\<close>

definition newLeg :: "CallLeg \<Rightarrow> SessionRegistry \<Rightarrow> nat \<times> SessionRegistry" where
  "newLeg leg sr = (length (reg_legs sr), sr\<lparr>reg_legs := reg_legs sr @ [leg]\<rparr>)"

datatype session_error = SessionNotFound string | LegNotFound string | NoPortPair int int

section \<open>Creating, finding and updating sessions\<close>

definition newSession :: "gtime \<Rightarrow> string \<Rightarrow> string \<Rightarrow> string \<Rightarrow> MediaSession" where
  "newSession now sid callID fromTag =
     \<lparr>ms_ID = sid, ms_CallID = callID, ms_FromTag = fromTag, ms_ToTag = [], ms_ViaBranch = [],
      ms_State = SessionStateNew, ms_CallerLeg = None, ms_CalleeLeg = None, ms_SSRCToLeg = [],
      ms_Stats = \<lparr>ss_StartTime = now, ss_ConnectTime = 0, ss_EndTime = 0, ss_Duration = 0,
        ss_CallerPacketsSent = 0, ss_CallerPacketsRecv = 0, ss_CallerBytesent = 0, ss_CallerBytesRecv = 0,
        ss_CalleePacketsSent = 0, ss_CalleePacketsRecv = 0, ss_CalleeBytesent = 0, ss_CalleeBytesRecv = 0,
        ss_PacketLossRate = 0, ss_AvgJitter = 0, ss_MaxJitter = 0, ss_RTT = 0, ss_MOS = 0\<rparr>,
      ms_JitterBuf = None, ms_FECHandler = None, ms_Recording = None, ms_CreatedAt = now, ms_UpdatedAt = now,
      ms_Flags = Map.empty, ms_Metadata = Map.empty, ms_Legs = [], ms_TOS = -1, ms_MediaTimeout = -1,
      ms_DeleteDelay = -1, ms_SIPREC = False, ms_SIPRECMeta = Map.empty, ms_TranscodeCodecs = [],
      ms_AlwaysTranscode = False, ms_ICELite = False, ms_TrickleICE = False, ms_ICEForce = False,
      ms_ICERemove = False, ms_DTLSOff = False, ms_DTLSPassive = False, ms_DTLSActive = False,
      ms_SDESOff = False, ms_SDESOnly = False, ms_T38Enabled = False, ms_T38Gateway = False, ms_LoopProtect = False\<rparr>"

definition callSessions :: "SessionRegistry \<Rightarrow> string \<Rightarrow> string list" where
  "callSessions sr callID = (case reg_callIDIndex sr callID of None \<Rightarrow> [] | Some ids \<Rightarrow> ids)"

definition CreateSession :: "gtime \<Rightarrow> string \<Rightarrow> string \<Rightarrow> string \<Rightarrow> SessionRegistry \<Rightarrow> MediaSession \<times> SessionRegistry" where
  "CreateSession now uuid callID fromTag sr =
     (let session = newSession now uuid callID fromTag in
      (session, sr\<lparr>reg_sessions := AList.update uuid session (reg_sessions sr),
                   reg_callIDIndex := (reg_callIDIndex sr)(callID \<mapsto> callSessions sr callID @ [uuid]),
                   reg_fromTagIndex := (reg_fromTagIndex sr)(fromTag \<mapsto> uuid)\<rparr>))"

definition GetSession :: "string \<Rightarrow> SessionRegistry \<Rightarrow> MediaSession option" where
  "GetSession sid sr = map_of (reg_sessions sr) sid"

text \<open>The sessions behind a list of pointers; a pointer of an index always points to a session.\<close>

definition deref :: "SessionRegistry \<Rightarrow> string list \<Rightarrow> MediaSession list" where
  "deref sr ids = List.map_filter (map_of (reg_sessions sr)) ids"

definition GetSessionByCallID :: "string \<Rightarrow> SessionRegistry \<Rightarrow> MediaSession list" where
  "GetSessionByCallID callID sr = deref sr (callSessions sr callID)"

definition GetSessionByTags :: "string \<Rightarrow> string \<Rightarrow> string \<Rightarrow> SessionRegistry \<Rightarrow> MediaSession option" where
  "GetSessionByTags callID fromTag toTag sr =
     find (\<lambda>s. ms_FromTag s = fromTag \<and> (toTag = [] \<or> ms_ToTag s = toTag)) (deref sr (callSessions sr callID))"

definition GetSessionBySSRC :: "u32 \<Rightarrow> SessionRegistry \<Rightarrow> (MediaSession \<times> nat option) option" where
  "GetSessionBySSRC ssrc sr =
     Option.bind (reg_ssrcIndex sr ssrc) (\<lambda>sid.
       map_option (\<lambda>s. (s, map_of (ms_SSRCToLeg s) ssrc)) (map_of (reg_sessions sr) sid))"

definition setSession :: "MediaSession \<Rightarrow> SessionRegistry \<Rightarrow> SessionRegistry" where
  "setSession s sr = sr\<lparr>reg_sessions := AList.update (ms_ID s) s (reg_sessions sr)\<rparr>"

definition changeState :: "gtime \<Rightarrow> SessionState \<Rightarrow> MediaSession \<Rightarrow> MediaSession" where
  "changeState now state s =
     (let st = ms_Stats s;
          st1 = (if state = SessionStateActive \<and> IsZero (ss_ConnectTime st) then st\<lparr>ss_ConnectTime := now\<rparr> else st);
          st2 = (if state = SessionStateTerminated then
                   let t = st1\<lparr>ss_EndTime := now\<rparr> in
                   if \<not> IsZero (ss_ConnectTime t) then t\<lparr>ss_Duration := ss_EndTime t - ss_ConnectTime t\<rparr> else t
                 else st1)
      in s\<lparr>ms_State := state, ms_UpdatedAt := now, ms_Stats := st2\<rparr>)"

text \<open>The second component says whether the end-of-session callback is started.\<close>

definition UpdateSessionStateTyped ::
  "gtime \<Rightarrow> string \<Rightarrow> SessionState \<Rightarrow> SessionRegistry \<Rightarrow> session_error option \<times> bool \<times> SessionRegistry" where
  "UpdateSessionStateTyped now sid state sr =
     (case map_of (reg_sessions sr) sid of
        None \<Rightarrow> (Some (SessionNotFound sid), False, sr)
      | Some s \<Rightarrow>
          (None, state = SessionStateTerminated \<and> ms_State s \<noteq> SessionStateTerminated \<and> reg_onSessionEnd sr,
           setSession (changeState now state s) sr))"

definition UpdateSessionState ::
  "gtime \<Rightarrow> string \<Rightarrow> string \<Rightarrow> SessionRegistry \<Rightarrow> session_error option \<times> bool \<times> SessionRegistry" where
  "UpdateSessionState now sid state sr = UpdateSessionStateTyped now sid state sr"

text \<open>What \<^verbatim>\<open>SetCallerLeg\<close> and \<^verbatim>\<open>SetCalleeLeg\<close> share: index the leg's SSRC and touch the session.\<close>

definition indexLeg :: "gtime \<Rightarrow> nat \<Rightarrow> MediaSession \<Rightarrow> SessionRegistry \<Rightarrow> SessionRegistry" where
  "indexLeg now a s sr =
     (let ssrc = cl_SSRC (reg_legs sr ! a) in
      if ssrc \<noteq> 0
      then (setSession (s\<lparr>ms_SSRCToLeg := AList.update ssrc a (ms_SSRCToLeg s), ms_UpdatedAt := now\<rparr>) sr)
             \<lparr>reg_ssrcIndex := (reg_ssrcIndex sr)(ssrc \<mapsto> ms_ID s)\<rparr>
      else setSession (s\<lparr>ms_UpdatedAt := now\<rparr>) sr)"

definition SetCallerLeg :: "gtime \<Rightarrow> string \<Rightarrow> nat \<Rightarrow> SessionRegistry \<Rightarrow> session_error option \<times> SessionRegistry" where
  "SetCallerLeg now sid leg sr =
     (case map_of (reg_sessions sr) sid of
        None \<Rightarrow> (Some (SessionNotFound sid), sr)
      | Some s \<Rightarrow> (None, indexLeg now leg (s\<lparr>ms_CallerLeg := Some leg\<rparr>) sr))"

definition SetCalleeLeg :: "gtime \<Rightarrow> string \<Rightarrow> nat \<Rightarrow> SessionRegistry \<Rightarrow> session_error option \<times> SessionRegistry" where
  "SetCalleeLeg now sid leg sr =
     (case map_of (reg_sessions sr) sid of
        None \<Rightarrow> (Some (SessionNotFound sid), sr)
      | Some s \<Rightarrow>
          (None, indexLeg now leg (s\<lparr>ms_CalleeLeg := Some leg, ms_ToTag := cl_Tag (reg_legs sr ! leg)\<rparr>) sr))"

definition RegisterSSRC :: "string \<Rightarrow> u32 \<Rightarrow> bool \<Rightarrow> SessionRegistry \<Rightarrow> session_error option \<times> SessionRegistry" where
  "RegisterSSRC sid ssrc isCaller sr =
     (case map_of (reg_sessions sr) sid of
        None \<Rightarrow> (Some (SessionNotFound sid), sr)
      | Some s \<Rightarrow>
          (case (if isCaller then ms_CallerLeg s else ms_CalleeLeg s) of
             None \<Rightarrow> (Some (LegNotFound sid), sr)
           | Some a \<Rightarrow>
               (None, (setSession (s\<lparr>ms_SSRCToLeg := AList.update ssrc a (ms_SSRCToLeg s)\<rparr>) sr)
                        \<lparr>reg_legs := (reg_legs sr)[a := (reg_legs sr ! a)\<lparr>cl_SSRC := ssrc\<rparr>],
                         reg_ssrcIndex := (reg_ssrcIndex sr)(ssrc \<mapsto> ms_ID s)\<rparr>)))"

section \<open>Removing sessions\<close>

definition legSockets :: "SessionRegistry \<Rightarrow> nat option \<Rightarrow> nat list" where
  "legSockets sr leg =
     (case leg of
        None \<Rightarrow> []
      | Some a \<Rightarrow> (case cl_Conn (reg_legs sr ! a) of None \<Rightarrow> [] | Some c \<Rightarrow> [c]) @
                   (case cl_RTCPConn (reg_legs sr ! a) of None \<Rightarrow> [] | Some c \<Rightarrow> [c]))"

text \<open>The loop over the call's sessions deletes the first entry with the identifier.\<close>

definition removeSessionLocked :: "string \<Rightarrow> SessionRegistry \<Rightarrow> session_error option \<times> SessionRegistry" where
  "removeSessionLocked sid sr =
     (case map_of (reg_sessions sr) sid of
        None \<Rightarrow> (Some (SessionNotFound sid), sr)
      | Some s \<Rightarrow>
          let ids = remove1 sid (callSessions sr (ms_CallID s)) in
          (None, sr\<lparr>reg_callIDIndex := (reg_callIDIndex sr)(ms_CallID s := (if ids = [] then None else Some ids)),
                    reg_fromTagIndex := (reg_fromTagIndex sr)(ms_FromTag s := None),
                    reg_ssrcIndex := (\<lambda>ssrc. if ssrc \<in> fst ` set (ms_SSRCToLeg s) then None else reg_ssrcIndex sr ssrc),
                    reg_closed := reg_closed sr @ legSockets sr (ms_CallerLeg s) @ legSockets sr (ms_CalleeLeg s),
                    reg_sessions := AList.delete sid (reg_sessions sr)\<rparr>))"

definition DeleteSession :: "string \<Rightarrow> SessionRegistry \<Rightarrow> session_error option \<times> SessionRegistry" where
  "DeleteSession sid sr = removeSessionLocked sid sr"

definition isStale :: "gtime \<Rightarrow> duration \<Rightarrow> MediaSession \<Rightarrow> bool" where
  "isStale now ttl s \<longleftrightarrow> ms_State s = SessionStateTerminated \<or>
     (ms_State s \<noteq> SessionStateActive \<and> now - ms_UpdatedAt s > ttl)"

fun cleanupStaleSessions :: "gtime \<Rightarrow> string list \<Rightarrow> SessionRegistry \<Rightarrow> SessionRegistry" where
  "cleanupStaleSessions now [] sr = sr"
| "cleanupStaleSessions now (sid # order) sr =
     (case map_of (reg_sessions sr) sid of
        None \<Rightarrow> cleanupStaleSessions now order sr
      | Some s \<Rightarrow> cleanupStaleSessions now order
          (if isStale now (reg_sessionTTL sr) s then snd (removeSessionLocked sid sr) else sr))"

fun removeAll_sessions :: "string list \<Rightarrow> SessionRegistry \<Rightarrow> SessionRegistry" where
  "removeAll_sessions [] sr = sr"
| "removeAll_sessions (sid # order) sr = removeAll_sessions order (snd (removeSessionLocked sid sr))"

text \<open>Closing the channel a second time panics, which is \<open>None\<close>.\<close>

definition Stop :: "string list \<Rightarrow> SessionRegistry \<Rightarrow> SessionRegistry option" where
  "Stop order sr = (if reg_stopped sr then None else Some (removeAll_sessions order (sr\<lparr>reg_stopped := True\<rparr>)))"

section \<open>Counting and statistics\<close>

definition ListSessions :: "string list \<Rightarrow> SessionRegistry \<Rightarrow> MediaSession list" where
  "ListSessions order sr = List.map_filter (map_of (reg_sessions sr)) order"

text \<open>The live sessions, for counts and statements that do not depend on the order of the map.\<close>

definition all_sessions :: "SessionRegistry \<Rightarrow> MediaSession list" where
  "all_sessions sr = map snd (reg_sessions sr)"

definition GetActiveCount :: "SessionRegistry \<Rightarrow> nat" where
  "GetActiveCount sr = length (filter (\<lambda>s. ms_State s = SessionStateActive) (all_sessions sr))"

definition GetTotalCount :: "SessionRegistry \<Rightarrow> nat" where
  "GetTotalCount sr = length (reg_sessions sr)"

record registry_stats =
  total_sessions :: nat
  active_sessions :: nat
  pending_sessions :: nat
  terminated_sessions :: nat

definition GetStats :: "SessionRegistry \<Rightarrow> registry_stats" where
  "GetStats sr =
     fold (\<lambda>s st. if ms_State s = SessionStateActive then st\<lparr>active_sessions := active_sessions st + 1\<rparr>
             else if ms_State s = SessionStatePending \<or> ms_State s = SessionStateNew
             then st\<lparr>pending_sessions := pending_sessions st + 1\<rparr>
             else if ms_State s = SessionStateTerminated then st\<lparr>terminated_sessions := terminated_sessions st + 1\<rparr>
             else st)
       (all_sessions sr)
       \<lparr>total_sessions = length (reg_sessions sr), active_sessions = 0, pending_sessions = 0, terminated_sessions = 0\<rparr>"

section \<open>Sessions and legs\<close>

definition UpdateLegStats ::
  "gtime \<Rightarrow> u32 \<Rightarrow> u64 \<Rightarrow> u64 \<Rightarrow> u64 \<Rightarrow> u64 \<Rightarrow> MediaSession \<Rightarrow> CallLeg list \<Rightarrow> CallLeg list" where
  "UpdateLegStats now ssrc packetsSent packetsRecv bytesSent bytesRecv s legs =
     (case map_of (ms_SSRCToLeg s) ssrc of
        None \<Rightarrow> legs
      | Some a \<Rightarrow> legs[a := (legs ! a)\<lparr>cl_PacketsSent := packetsSent, cl_PacketsRecv := packetsRecv,
                             cl_BytesSent := bytesSent, cl_BytesRecv := bytesRecv, cl_LastActivity := now\<rparr>])"

definition SetFlag :: "string \<Rightarrow> bool \<Rightarrow> MediaSession \<Rightarrow> MediaSession" where
  "SetFlag name b s = s\<lparr>ms_Flags := (ms_Flags s)(name \<mapsto> b)\<rparr>"

definition GetFlag :: "string \<Rightarrow> MediaSession \<Rightarrow> bool" where
  "GetFlag name s = (case ms_Flags s name of None \<Rightarrow> False | Some b \<Rightarrow> b)"

definition SetMetadata :: "string \<Rightarrow> string \<Rightarrow> MediaSession \<Rightarrow> MediaSession" where
  "SetMetadata key v s = s\<lparr>ms_Metadata := (ms_Metadata s)(key \<mapsto> v)\<rparr>"

definition GetMetadata :: "string \<Rightarrow> MediaSession \<Rightarrow> string" where
  "GetMetadata key s = (case ms_Metadata s key of None \<Rightarrow> [] | Some v \<Rightarrow> v)"

definition GetLegByLabel :: "string \<Rightarrow> MediaSession \<Rightarrow> nat option" where
  "GetLegByLabel label s = map_of (ms_Legs s) label"

definition SetLegByLabel :: "string \<Rightarrow> nat \<Rightarrow> MediaSession \<Rightarrow> CallLeg list \<Rightarrow> MediaSession \<times> CallLeg list" where
  "SetLegByLabel label a s legs =
     (s\<lparr>ms_Legs := AList.update label a (ms_Legs s)\<rparr>, legs[a := (legs ! a)\<lparr>cl_Label := label\<rparr>])"

definition hasTag :: "CallLeg list \<Rightarrow> string \<Rightarrow> nat \<Rightarrow> bool" where
  "hasTag legs tag a \<longleftrightarrow> cl_Tag (legs ! a) = tag"

definition GetLegByTag :: "string list \<Rightarrow> string \<Rightarrow> MediaSession \<Rightarrow> CallLeg list \<Rightarrow> nat option" where
  "GetLegByTag order tag s legs =
     (if pred_option (hasTag legs tag) (ms_CallerLeg s) \<and> ms_CallerLeg s \<noteq> None then ms_CallerLeg s
      else if pred_option (hasTag legs tag) (ms_CalleeLeg s) \<and> ms_CalleeLeg s \<noteq> None then ms_CalleeLeg s
      else find (hasTag legs tag) (List.map_filter (map_of (ms_Legs s)) order))"

definition ApplySessionFlags ::
  "int \<Rightarrow> int \<Rightarrow> int \<Rightarrow> bool \<Rightarrow> bool \<Rightarrow> bool \<Rightarrow> bool \<Rightarrow> bool \<Rightarrow> bool \<Rightarrow> bool \<Rightarrow> bool \<Rightarrow> bool \<Rightarrow> bool \<Rightarrow> bool \<Rightarrow> bool \<Rightarrow>
   bool \<Rightarrow> bool \<Rightarrow> MediaSession \<Rightarrow> MediaSession" where
  "ApplySessionFlags tos mediaTimeout deleteDelay siprec t38 t38Gateway iceLite trickleICE iceForce iceRemove
     dtlsOff dtlsPassive dtlsActive sdesOff sdesOnly loopProtect alwaysTranscode s =
     (let s1 = (if tos \<ge> 0 then s\<lparr>ms_TOS := tos\<rparr> else s);
          s2 = (if mediaTimeout \<ge> 0 then s1\<lparr>ms_MediaTimeout := mediaTimeout\<rparr> else s1);
          s3 = (if deleteDelay \<ge> 0 then s2\<lparr>ms_DeleteDelay := deleteDelay\<rparr> else s2)
      in s3\<lparr>ms_SIPREC := siprec, ms_T38Enabled := t38, ms_T38Gateway := t38Gateway, ms_ICELite := iceLite,
            ms_TrickleICE := trickleICE, ms_ICEForce := iceForce, ms_ICERemove := iceRemove, ms_DTLSOff := dtlsOff,
            ms_DTLSPassive := dtlsPassive, ms_DTLSActive := dtlsActive, ms_SDESOff := sdesOff,
            ms_SDESOnly := sdesOnly, ms_LoopProtect := loopProtect, ms_AlwaysTranscode := alwaysTranscode\<rparr>)"

text \<open>\<open>bind ip port\<close> says whether \<^verbatim>\<open>net.ListenUDP\<close> succeeds on the address.\<close>

function mediaPortLoop :: "(string \<Rightarrow> int \<Rightarrow> bool) \<Rightarrow> string \<Rightarrow> int \<Rightarrow> int \<Rightarrow> int option" where
  "mediaPortLoop bind ip port maxPort =
     (if port < maxPort
      then if bind ip port \<and> bind ip (port + 1) then Some port else mediaPortLoop bind ip (port + 2) maxPort
      else None)"
  by pat_completeness auto
termination mediaPortLoop by (relation "measure (\<lambda>(_, _, port, maxPort). nat (maxPort - port))") auto

declare mediaPortLoop.simps [simp del]

definition AllocateMediaPorts :: "(string \<Rightarrow> int \<Rightarrow> bool) \<Rightarrow> string \<Rightarrow> int \<Rightarrow> int \<Rightarrow> session_error + int \<times> int" where
  "AllocateMediaPorts bind localIP minPort maxPort =
     (case mediaPortLoop bind localIP minPort maxPort of
        None \<Rightarrow> Inl (NoPortPair minPort maxPort)
      | Some port \<Rightarrow> Inr (port, port + 1))"

section \<open>The indexes of the registry\<close>

definition live :: "SessionRegistry \<Rightarrow> string \<rightharpoonup> MediaSession" where
  "live sr = map_of (reg_sessions sr)"

definition sr_inv :: "SessionRegistry \<Rightarrow> bool" where
  "sr_inv sr \<longleftrightarrow>
     distinct (map fst (reg_sessions sr)) \<and>
     (\<forall>sid s. live sr sid = Some s \<longrightarrow> ms_ID s = sid) \<and>
     (\<forall>c. distinct (callSessions sr c) \<and> reg_callIDIndex sr c \<noteq> Some []) \<and>
     (\<forall>c sid. sid \<in> set (callSessions sr c) \<longleftrightarrow> (\<exists>s. live sr sid = Some s \<and> ms_CallID s = c)) \<and>
     (\<forall>t sid. reg_fromTagIndex sr t = Some sid \<longrightarrow> (\<exists>s. live sr sid = Some s \<and> ms_FromTag s = t)) \<and>
     (\<forall>x sid. reg_ssrcIndex sr x = Some sid \<longrightarrow> (\<exists>s. live sr sid = Some s \<and> x \<in> fst ` set (ms_SSRCToLeg s)))"

text \<open>A session is replaced by one with the same identity that has no SSRC less.\<close>

definition same_identity :: "MediaSession \<Rightarrow> MediaSession \<Rightarrow> bool" where
  "same_identity s s' \<longleftrightarrow> ms_ID s' = ms_ID s \<and> ms_CallID s' = ms_CallID s \<and> ms_FromTag s' = ms_FromTag s \<and>
     fst ` set (ms_SSRCToLeg s) \<subseteq> fst ` set (ms_SSRCToLeg s')"

lemma live_setSession [simp]: "live (setSession s sr) = (live sr)(ms_ID s \<mapsto> s)"
  by (simp add: live_def setSession_def update_conv')

lemma setSession_frame [simp]:
  "callSessions (setSession s sr) = callSessions sr"
  "reg_callIDIndex (setSession s sr) = reg_callIDIndex sr"
  "reg_fromTagIndex (setSession s sr) = reg_fromTagIndex sr"
  "reg_ssrcIndex (setSession s sr) = reg_ssrcIndex sr"
  by (auto simp: setSession_def callSessions_def fun_eq_iff)

lemma sr_invD:
  assumes "sr_inv sr"
  shows "distinct (map fst (reg_sessions sr))"
    "live sr sid = Some s \<Longrightarrow> ms_ID s = sid"
    "distinct (callSessions sr c)" "reg_callIDIndex sr c \<noteq> Some []"
    "sid \<in> set (callSessions sr c) \<longleftrightarrow> (\<exists>s. live sr sid = Some s \<and> ms_CallID s = c)"
    "reg_fromTagIndex sr t = Some sid \<Longrightarrow> \<exists>s. live sr sid = Some s \<and> ms_FromTag s = t"
    "reg_ssrcIndex sr x = Some sid \<Longrightarrow> \<exists>s. live sr sid = Some s \<and> x \<in> fst ` set (ms_SSRCToLeg s)"
  using assms unfolding sr_inv_def by blast+

lemma sr_invI:
  assumes "distinct (map fst (reg_sessions sr))"
    and "\<And>sid s. live sr sid = Some s \<Longrightarrow> ms_ID s = sid"
    and "\<And>c. distinct (callSessions sr c)" and "\<And>c. reg_callIDIndex sr c \<noteq> Some []"
    and "\<And>c sid. sid \<in> set (callSessions sr c) \<longleftrightarrow> (\<exists>s. live sr sid = Some s \<and> ms_CallID s = c)"
    and "\<And>t sid. reg_fromTagIndex sr t = Some sid \<Longrightarrow> \<exists>s. live sr sid = Some s \<and> ms_FromTag s = t"
    and "\<And>x sid. reg_ssrcIndex sr x = Some sid \<Longrightarrow> \<exists>s. live sr sid = Some s \<and> x \<in> fst ` set (ms_SSRCToLeg s)"
  shows "sr_inv sr"
  unfolding sr_inv_def using assms by blast

lemma setSession_inv:
  assumes inv: "sr_inv sr" and s: "live sr sid = Some s" and same: "same_identity s s'"
  shows "sr_inv (setSession s' sr)"
proof -
  have i: "ms_ID s' = sid" "ms_CallID s' = ms_CallID s" "ms_FromTag s' = ms_FromTag s"
    "fst ` set (ms_SSRCToLeg s) \<subseteq> fst ` set (ms_SSRCToLeg s')"
    using same sr_invD(2) [OF inv s] by (simp_all add: same_identity_def)
  show ?thesis
  proof (rule sr_invI)
    show "distinct (map fst (reg_sessions (setSession s' sr)))"
      using sr_invD(1) [OF inv] by (simp add: setSession_def distinct_update)
    show "ms_ID u = k" if "live (setSession s' sr) k = Some u" for k u
      using that i(1) sr_invD(2) [OF inv] by (auto split: if_splits)
    show "distinct (callSessions (setSession s' sr) c)" "reg_callIDIndex (setSession s' sr) c \<noteq> Some []" for c
      using sr_invD(3,4) [OF inv] by simp_all
    show "k \<in> set (callSessions (setSession s' sr) c) \<longleftrightarrow>
        (\<exists>u. live (setSession s' sr) k = Some u \<and> ms_CallID u = c)" for k c
      using sr_invD(5) [OF inv, of k c] s i(1,2) by (cases "k = sid") simp_all
    show "\<exists>u. live (setSession s' sr) k = Some u \<and> ms_FromTag u = t"
      if "reg_fromTagIndex (setSession s' sr) t = Some k" for t k
      using sr_invD(6) [OF inv, of t k] that s i(1,3) by (cases "k = sid") simp_all
    show "\<exists>u. live (setSession s' sr) k = Some u \<and> x \<in> fst ` set (ms_SSRCToLeg u)"
      if "reg_ssrcIndex (setSession s' sr) x = Some k" for x k
    proof (cases "k = sid")
      case True
      then have "x \<in> fst ` set (ms_SSRCToLeg s)"
        using sr_invD(7) [OF inv, of x k] that s by simp
      then have "x \<in> fst ` set (ms_SSRCToLeg s')" using i(4) by blast
      then show ?thesis using True i(1) by simp
    next
      case False
      then show ?thesis using sr_invD(7) [OF inv, of x k] that i(1) by simp
    qed
  qed
qed

lemma ssrc_inv:
  assumes "sr_inv sr" "live sr sid = Some s" "x \<in> fst ` set (ms_SSRCToLeg s)"
  shows "sr_inv (sr\<lparr>reg_ssrcIndex := (reg_ssrcIndex sr)(x \<mapsto> sid)\<rparr>)"
  using assms by (auto simp: sr_inv_def live_def callSessions_def)

lemma legs_inv [simp]:
  "sr_inv (sr\<lparr>reg_legs := l\<rparr>) = sr_inv sr"
  "sr_inv (sr\<lparr>reg_legs := l, reg_ssrcIndex := m\<rparr>) = sr_inv (sr\<lparr>reg_ssrcIndex := m\<rparr>)"
  by (simp_all add: sr_inv_def live_def callSessions_def)

lemma fst_set_update: "fst ` set (AList.update k v xs) = insert k (fst ` set xs)"
  by (simp add: dom_update)

lemma ssrc_leg_inv:
  assumes inv: "sr_inv sr" and s: "live sr sid = Some s" and same: "same_identity s s'"
    and x: "x \<in> fst ` set (ms_SSRCToLeg s')"
  shows "sr_inv ((setSession s' sr)\<lparr>reg_ssrcIndex := (reg_ssrcIndex sr)(x \<mapsto> ms_ID s')\<rparr>)"
proof -
  have "sr_inv (setSession s' sr)" "live (setSession s' sr) (ms_ID s') = Some s'"
    using setSession_inv [OF inv s same] by simp_all
  from ssrc_inv [OF this x] show ?thesis by simp
qed

lemma indexLeg_inv:
  assumes inv: "sr_inv sr" and s: "live sr sid = Some s" and same: "same_identity s s'"
  shows "sr_inv (indexLeg now a s' sr)"
proof (cases "cl_SSRC (reg_legs sr ! a) = 0")
  case True
  have "same_identity s (s'\<lparr>ms_UpdatedAt := now\<rparr>)" using same by (simp add: same_identity_def)
  with True show ?thesis using setSession_inv [OF inv s] by (simp add: indexLeg_def)
next
  case False
  let ?x = "cl_SSRC (reg_legs sr ! a)"
  let ?s = "s'\<lparr>ms_SSRCToLeg := AList.update ?x a (ms_SSRCToLeg s'), ms_UpdatedAt := now\<rparr>"
  have "same_identity s ?s" using same by (auto simp: same_identity_def fst_set_update)
  then have "sr_inv ((setSession ?s sr)\<lparr>reg_ssrcIndex := (reg_ssrcIndex sr)(?x \<mapsto> ms_ID ?s)\<rparr>)"
    by (rule ssrc_leg_inv [OF inv s]) (simp add: fst_set_update)
  with False show ?thesis by (simp add: indexLeg_def Let_def)
qed

lemma SetCallerLeg_inv: "sr_inv sr \<Longrightarrow> sr_inv (snd (SetCallerLeg now sid a sr))"
  by (auto simp: SetCallerLeg_def live_def same_identity_def split: option.split intro!: indexLeg_inv)

lemma SetCalleeLeg_inv: "sr_inv sr \<Longrightarrow> sr_inv (snd (SetCalleeLeg now sid a sr))"
  by (auto simp: SetCalleeLeg_def live_def same_identity_def split: option.split intro!: indexLeg_inv)

lemma RegisterSSRC_inv:
  assumes inv: "sr_inv sr"
  shows "sr_inv (snd (RegisterSSRC sid x isCaller sr))"
proof (cases "live sr sid")
  case None
  then show ?thesis using inv by (simp add: RegisterSSRC_def live_def)
next
  case (Some s)
  show ?thesis
  proof (cases "if isCaller then ms_CallerLeg s else ms_CalleeLeg s")
    case None
    with Some show ?thesis using inv by (simp add: RegisterSSRC_def live_def)
  next
    case (Some a)
    let ?s = "s\<lparr>ms_SSRCToLeg := AList.update x a (ms_SSRCToLeg s)\<rparr>"
    have "same_identity s ?s" by (auto simp: same_identity_def fst_set_update)
    then have "sr_inv ((setSession ?s sr)\<lparr>reg_ssrcIndex := (reg_ssrcIndex sr)(x \<mapsto> ms_ID ?s)\<rparr>)"
      by (rule ssrc_leg_inv [OF inv \<open>live sr sid = Some s\<close>]) (simp add: fst_set_update)
    with Some \<open>live sr sid = Some s\<close> show ?thesis by (simp add: RegisterSSRC_def live_def)
  qed
qed

lemma UpdateSessionState_inv: "sr_inv sr \<Longrightarrow> sr_inv (snd (snd (UpdateSessionState now sid st sr)))"
  by (auto simp: UpdateSessionState_def UpdateSessionStateTyped_def changeState_def Let_def live_def
      same_identity_def split: option.split intro!: setSession_inv)

lemma CreateSession_inv:
  assumes inv: "sr_inv sr" and fresh: "live sr u = None"
  shows "sr_inv (snd (CreateSession now u c f sr))" (is "sr_inv ?sr")
proof -
  have l: "live ?sr = (live sr)(u \<mapsto> newSession now u c f)"
    by (simp add: CreateSession_def live_def update_conv' Let_def)
  have cs: "callSessions ?sr k = (if k = c then callSessions sr c @ [u] else callSessions sr k)" for k
    by (simp add: CreateSession_def callSessions_def Let_def)
  have ix: "reg_fromTagIndex ?sr = (reg_fromTagIndex sr)(f \<mapsto> u)" "reg_ssrcIndex ?sr = reg_ssrcIndex sr"
    by (simp_all add: CreateSession_def Let_def)
  have nin: "u \<notin> set (callSessions sr k)" for k using sr_invD(5) [OF inv] fresh by simp
  have n: "ms_ID (newSession now u c f) = u" "ms_CallID (newSession now u c f) = c"
    "ms_FromTag (newSession now u c f) = f" by (simp_all add: newSession_def)
  show ?thesis
  proof (rule sr_invI)
    show "distinct (map fst (reg_sessions ?sr))"
      using sr_invD(1) [OF inv] by (simp add: CreateSession_def Let_def distinct_update)
    show "ms_ID s = k" if "live ?sr k = Some s" for k s
      using that sr_invD(2) [OF inv] n(1) by (auto simp: l split: if_splits)
    show "distinct (callSessions ?sr k)" for k using sr_invD(3) [OF inv] nin by (simp add: cs)
    show "reg_callIDIndex ?sr k \<noteq> Some []" for k
      using sr_invD(4) [OF inv] by (simp add: CreateSession_def Let_def)
    show "i \<in> set (callSessions ?sr k) \<longleftrightarrow> (\<exists>s. live ?sr i = Some s \<and> ms_CallID s = k)" for i k
      using sr_invD(5) [OF inv, of i k] nin n(2) by (cases "i = u") (auto simp: cs l)
    show "\<exists>s. live ?sr i = Some s \<and> ms_FromTag s = t" if "reg_fromTagIndex ?sr t = Some i" for t i
      using that sr_invD(6) [OF inv, of t i] n(3) fresh
      by (cases "t = f"; cases "i = u") (auto simp: ix l)
    show "\<exists>s. live ?sr i = Some s \<and> x \<in> fst ` set (ms_SSRCToLeg s)" if "reg_ssrcIndex ?sr x = Some i" for x i
      using that sr_invD(7) [OF inv, of x i] fresh by (cases "i = u") (auto simp: ix l)
  qed
qed

lemma removeSessionLocked_None: "live sr sid = None \<Longrightarrow> snd (removeSessionLocked sid sr) = sr"
  by (simp add: removeSessionLocked_def live_def)

lemma removeSessionLocked_live [simp]: "live (snd (removeSessionLocked sid sr)) = (live sr)(sid := None)"
  by (auto simp: removeSessionLocked_def live_def delete_conv' Let_def fun_eq_iff restrict_map_def split: option.split)

lemma removeSessionLocked_frame [simp]:
  "reg_sessionTTL (snd (removeSessionLocked sid sr)) = reg_sessionTTL sr"
  "reg_legs (snd (removeSessionLocked sid sr)) = reg_legs sr"
  "reg_stopped (snd (removeSessionLocked sid sr)) = reg_stopped sr"
  by (simp_all add: removeSessionLocked_def Let_def split: option.split)

lemma removeSessionLocked_inv:
  assumes inv: "sr_inv sr"
  shows "sr_inv (snd (removeSessionLocked sid sr))" (is "sr_inv ?sr")
proof (cases "live sr sid")
  case None
  then show ?thesis using inv by (simp add: removeSessionLocked_None)
next
  case (Some s)
  then have s: "map_of (reg_sessions sr) sid = Some s" by (simp add: live_def)
  have cs: "callSessions ?sr k = remove1 sid (callSessions sr k)" for k
  proof (cases "k = ms_CallID s")
    case True
    then show ?thesis using s by (simp add: removeSessionLocked_def callSessions_def Let_def)
  next
    case False
    then have "sid \<notin> set (callSessions sr k)" using sr_invD(5) [OF inv, of sid k] Some by simp
    then show ?thesis using s False by (simp add: removeSessionLocked_def callSessions_def Let_def remove1_idem)
  qed
  have ix: "reg_fromTagIndex ?sr = (reg_fromTagIndex sr)(ms_FromTag s := None)"
    "reg_ssrcIndex ?sr = (\<lambda>x. if x \<in> fst ` set (ms_SSRCToLeg s) then None else reg_ssrcIndex sr x)"
    using s by (simp_all add: removeSessionLocked_def Let_def)
  show ?thesis
  proof (rule sr_invI)
    show "distinct (map fst (reg_sessions ?sr))"
      using sr_invD(1) [OF inv] s by (simp add: removeSessionLocked_def Let_def distinct_delete)
    show "ms_ID u = k" if "live ?sr k = Some u" for k u
      using that sr_invD(2) [OF inv] by (auto split: if_splits)
    show "distinct (callSessions ?sr k)" for k using sr_invD(3) [OF inv] by (simp add: cs)
    show "reg_callIDIndex ?sr k \<noteq> Some []" for k
      using sr_invD(4) [OF inv] s by (simp add: removeSessionLocked_def Let_def)
    show "i \<in> set (callSessions ?sr k) \<longleftrightarrow> (\<exists>u. live ?sr i = Some u \<and> ms_CallID u = k)" for i k
      using sr_invD(5) [OF inv, of i k] sr_invD(3) [OF inv, of k] by (simp add: cs)
    show "\<exists>u. live ?sr i = Some u \<and> ms_FromTag u = t" if "reg_fromTagIndex ?sr t = Some i" for t i
      using that sr_invD(6) [OF inv, of t i] Some by (cases "i = sid") (auto simp: ix split: if_splits)
    show "\<exists>u. live ?sr i = Some u \<and> x \<in> fst ` set (ms_SSRCToLeg u)" if "reg_ssrcIndex ?sr x = Some i" for x i
      using that sr_invD(7) [OF inv, of x i] Some by (cases "i = sid") (auto simp: ix split: if_splits)
  qed
qed

lemma cleanup_inv: "sr_inv sr \<Longrightarrow> sr_inv (cleanupStaleSessions now order sr)"
  by (induction now order sr rule: cleanupStaleSessions.induct) (simp_all add: removeSessionLocked_inv split: option.split)

lemma removeAll_inv: "sr_inv sr \<Longrightarrow> sr_inv (removeAll_sessions order sr)"
  by (induction order sr rule: removeAll_sessions.induct) (simp_all add: removeSessionLocked_inv)

lemma cleanup_live:
  "live (cleanupStaleSessions now order sr) sid =
     (case live sr sid of None \<Rightarrow> None
      | Some s \<Rightarrow> if sid \<in> set order \<and> isStale now (reg_sessionTTL sr) s then None else Some s)"
  by (induction now order sr rule: cleanupStaleSessions.induct)
    (auto simp: live_def [symmetric] split: option.splits if_splits)

lemma removeAll_live: "live (removeAll_sessions order sr) sid = (if sid \<in> set order then None else live sr sid)"
  by (induction order sr rule: removeAll_sessions.induct) auto

section \<open>Reachable registries\<close>

text \<open>The methods of a session, with the leg store they write, and the two fields that the handlers
  of \<^verbatim>\<open>answer\<close> and \<^verbatim>\<open>offer\<close> assign themselves.\<close>

inductive session_op :: "MediaSession \<Rightarrow> CallLeg list \<Rightarrow> MediaSession \<Rightarrow> CallLeg list \<Rightarrow> bool" where
  op_flags: "session_op s legs (ApplySessionFlags tos mt dd siprec t38 t38g il ti ice_f ice_r d1 d2 d3 s1 s2 lp tr s) legs"
| op_flag: "session_op s legs (SetFlag n b s) legs"
| op_meta: "session_op s legs (SetMetadata k v s) legs"
| op_label: "SetLegByLabel l a s legs = (s', legs') \<Longrightarrow> session_op s legs s' legs'"
| op_stats: "session_op s legs s (UpdateLegStats now x ps pr bs br s legs)"
| op_toTag: "session_op s legs (s\<lparr>ms_ToTag := t\<rparr>) legs"
| op_viaBranch: "session_op s legs (s\<lparr>ms_ViaBranch := v\<rparr>) legs"

inductive sr_step :: "SessionRegistry \<Rightarrow> SessionRegistry \<Rightarrow> bool" where
  create: "GetSession uuid sr = None \<Longrightarrow> sr_step sr (snd (CreateSession now uuid callID fromTag sr))"
| callback: "sr_step sr (SetOnSessionEnd b sr)"
| leg: "sr_step sr (snd (newLeg l sr))"
| state: "sr_step sr (snd (snd (UpdateSessionState now sid st sr)))"
| caller: "a < length (reg_legs sr) \<Longrightarrow> sr_step sr (snd (SetCallerLeg now sid a sr))"
| callee: "a < length (reg_legs sr) \<Longrightarrow> sr_step sr (snd (SetCalleeLeg now sid a sr))"
| ssrc: "sr_step sr (snd (RegisterSSRC sid x isCaller sr))"
| delete: "sr_step sr (snd (DeleteSession sid sr))"
| cleanup: "sr_step sr (cleanupStaleSessions now order sr)"
| stop: "Stop order sr = Some sr' \<Longrightarrow> sr_step sr sr'"
| session: "GetSession sid sr = Some s \<Longrightarrow> session_op s (reg_legs sr) s' legs' \<Longrightarrow>
    sr_step sr ((setSession s' sr)\<lparr>reg_legs := legs'\<rparr>)"

inductive sr_reach :: "duration \<Rightarrow> SessionRegistry \<Rightarrow> bool" for ttl where
  start: "sr_reach ttl (NewSessionRegistry ttl)"
| step: "sr_reach ttl sr \<Longrightarrow> sr_step sr sr' \<Longrightarrow> sr_reach ttl sr'"

lemma session_op_identity: "session_op s legs s' legs' \<Longrightarrow> same_identity s s'"
  by (induction rule: session_op.induct)
    (auto simp: same_identity_def ApplySessionFlags_def SetFlag_def SetMetadata_def SetLegByLabel_def Let_def)

lemma other_fields_inv [simp]:
  "sr_inv (sr\<lparr>reg_onSessionEnd := b\<rparr>) = sr_inv sr" "sr_inv (sr\<lparr>reg_stopped := b\<rparr>) = sr_inv sr"
  by (simp_all add: sr_inv_def live_def callSessions_def)

lemma NewSessionRegistry_inv: "sr_inv (NewSessionRegistry ttl)"
  by (simp add: sr_inv_def live_def callSessions_def NewSessionRegistry_def)

lemma sr_step_inv: "sr_step sr sr' \<Longrightarrow> sr_inv sr \<Longrightarrow> sr_inv sr'"
proof (induction rule: sr_step.induct)
  case (create uuid sr now callID fromTag)
  then show ?case by (intro CreateSession_inv) (simp_all add: GetSession_def live_def)
next
  case (stop order sr sr')
  then show ?case using removeAll_inv [of "sr\<lparr>reg_stopped := True\<rparr>" order]
    by (simp add: Stop_def split: if_splits)
next
  case (session sid sr s s' legs')
  then show ?case using setSession_inv [of sr sid s s'] session_op_identity
    by (simp add: GetSession_def live_def)
qed (simp_all add: SetOnSessionEnd_def newLeg_def UpdateSessionState_inv SetCallerLeg_inv SetCalleeLeg_inv
    RegisterSSRC_inv DeleteSession_def removeSessionLocked_inv cleanup_inv)

lemma sr_reach_inv: "sr_reach ttl sr \<Longrightarrow> sr_inv sr"
  by (induction rule: sr_reach.induct) (simp_all add: NewSessionRegistry_inv sr_step_inv)

lemma all_sessions_iff:
  assumes inv: "sr_inv sr"
  shows "s \<in> set (all_sessions sr) \<longleftrightarrow> live sr (ms_ID s) = Some s"
proof
  assume "s \<in> set (all_sessions sr)"
  then obtain k where "(k, s) \<in> set (reg_sessions sr)" by (auto simp: all_sessions_def)
  then have "live sr k = Some s" using sr_invD(1) [OF inv] by (simp add: live_def)
  with sr_invD(2) [OF inv this] show "live sr (ms_ID s) = Some s" by simp
next
  assume "live sr (ms_ID s) = Some s"
  then have "(ms_ID s, s) \<in> set (reg_sessions sr)" unfolding live_def by (rule map_of_SomeD)
  then show "s \<in> set (all_sessions sr)" unfolding all_sessions_def by force
qed

lemma deref_ids:
  "(\<And>i. i \<in> set ids \<Longrightarrow> \<exists>s. live sr i = Some s \<and> ms_ID s = i) \<Longrightarrow> map ms_ID (deref sr ids) = ids"
  by (induction ids) (fastforce simp: deref_def live_def List.map_filter_simps)+

lemma set_deref: "set (deref sr ids) = {s. \<exists>i\<in>set ids. live sr i = Some s}"
  by (induction ids) (auto simp: deref_def live_def List.map_filter_simps split: option.split)

lemma set_GetSessionByCallID:
  assumes inv: "sr_inv sr"
  shows "set (GetSessionByCallID c sr) = {s \<in> set (all_sessions sr). ms_CallID s = c}"
proof -
  have "(\<exists>i\<in>set (callSessions sr c). live sr i = Some s) \<longleftrightarrow> live sr (ms_ID s) = Some s \<and> ms_CallID s = c" for s
    using sr_invD(2) [OF inv, of _ s] sr_invD(5) [OF inv, of _ c] by (metis option.inject)
  then show ?thesis by (simp add: GetSessionByCallID_def set_deref all_sessions_iff [OF inv])
qed

lemma GetSessionByCallID_ids:
  assumes "sr_inv sr"
  shows "map ms_ID (GetSessionByCallID c sr) = callSessions sr c"
  unfolding GetSessionByCallID_def using sr_invD(2,5) [OF assms] by (intro deref_ids) blast

lemma removeSessionLocked_closes:
  assumes "live sr sid = Some s"
  shows "reg_closed (snd (removeSessionLocked sid sr)) =
    reg_closed sr @ legSockets sr (ms_CallerLeg s) @ legSockets sr (ms_CalleeLeg s)"
  using assms by (simp add: removeSessionLocked_def live_def Let_def)

lemma legSockets_cong: "reg_legs sr' = reg_legs sr \<Longrightarrow> legSockets sr' = legSockets sr"
  unfolding legSockets_def fun_eq_iff by metis

lemma removeSessionLocked_closed_mono: "set (reg_closed sr) \<subseteq> set (reg_closed (snd (removeSessionLocked sid sr)))"
  by (auto simp: removeSessionLocked_def Let_def split: option.split)

lemma removeAll_closed_mono: "set (reg_closed sr) \<subseteq> set (reg_closed (removeAll_sessions order sr))"
  by (induction order sr rule: removeAll_sessions.induct) (use removeSessionLocked_closed_mono in fastforce)+

lemma removeAll_stopped [simp]: "reg_stopped (removeAll_sessions order sr) = reg_stopped sr"
  by (induction order sr rule: removeAll_sessions.induct) simp_all

lemma removeAll_closes:
  assumes "live sr sid = Some s" "sid \<in> set order"
  shows "set (legSockets sr (ms_CallerLeg s) @ legSockets sr (ms_CalleeLeg s)) \<subseteq> set (reg_closed (removeAll_sessions order sr))"
  using assms
proof (induction order sr rule: removeAll_sessions.induct)
  case (2 k order sr)
  show ?case
  proof (cases "k = sid")
    case True
    then show ?thesis
      using removeSessionLocked_closes [OF 2(2)] removeAll_closed_mono [of "snd (removeSessionLocked k sr)" order] by auto
  next
    case False
    then show ?thesis using 2 by (simp add: legSockets_cong [of "snd (removeSessionLocked k sr)" sr])
  qed
qed simp

lemma no_sessions_indexes:
  assumes "sr_inv sr" "\<And>sid. live sr sid = None"
  shows "reg_sessions sr = []" "reg_callIDIndex sr c = None" "reg_fromTagIndex sr t = None" "reg_ssrcIndex sr x = None"
proof -
  show "reg_sessions sr = []" using assms(2) by (simp add: live_def map_of_eq_empty_iff [symmetric] fun_eq_iff)
  have "callSessions sr c = []" using sr_invD(5) [OF assms(1), of _ c] assms(2) by (cases "callSessions sr c") auto
  then show "reg_callIDIndex sr c = None" using sr_invD(4) [OF assms(1), of c]
    by (simp add: callSessions_def split: option.splits)
  show "reg_fromTagIndex sr t = None" using sr_invD(6) [OF assms(1), of t] assms(2) by (cases "reg_fromTagIndex sr t") auto
  show "reg_ssrcIndex sr x = None" using sr_invD(7) [OF assms(1), of x] assms(2) by (cases "reg_ssrcIndex sr x") auto
qed

section \<open>Two calls that share an SSRC\<close>

definition sample_leg :: CallLeg where
  "sample_leg = \<lparr>cl_Tag = ''a'', cl_Label = [], cl_IP = [], cl_Port = 0, cl_RTCPPort = 0, cl_MediaType = MediaAudio,
     cl_Codecs = [], cl_SSRC = 7, cl_Transport = TransportRTP, cl_ICECredentials = None, cl_SRTPParams = None,
     cl_LocalIP = [], cl_LocalPort = 30000, cl_LocalRTCPPort = 30001, cl_Conn = Some 4, cl_RTCPConn = Some 5,
     cl_LastActivity = 0, cl_PacketsSent = 0, cl_PacketsRecv = 0, cl_BytesSent = 0, cl_BytesRecv = 0,
     cl_PacketsLost = 0, cl_Jitter = 0, cl_Interface = [], cl_AddressFamily = [], cl_Direction = [],
     cl_Symmetric = False, cl_StrictSource = False, cl_MediaHandover = False, cl_PortLatching = False,
     cl_MediaBlocked = False, cl_DTMFBlocked = False, cl_Silenced = False, cl_T38Enabled = False, cl_T38Gateway = False\<rparr>"

definition sample_leg2 :: CallLeg where
  "sample_leg2 = sample_leg\<lparr>cl_Tag := ''b'', cl_Conn := Some 6, cl_RTCPConn := Some 7\<rparr>"

definition sample_registry :: SessionRegistry where
  "sample_registry =
     (let r0 = NewSessionRegistry 100;
          r1 = snd (CreateSession 1 ''A'' ''call1'' ''a'' r0);
          r2 = snd (CreateSession 2 ''B'' ''call2'' ''b'' r1);
          r3 = snd (newLeg sample_leg r2);
          r4 = snd (newLeg sample_leg2 r3);
          r5 = snd (SetCallerLeg 3 ''A'' 0 r4)
      in snd (SetCallerLeg 4 ''B'' 1 r5))"

lemma sample_registry_reach: "sr_reach 100 sample_registry"
  unfolding sample_registry_def Let_def
  by (intro sr_reach.step [OF _ sr_step.caller] sr_reach.step [OF _ sr_step.leg] sr_reach.step [OF _ sr_step.create]
      sr_reach.start) code_simp+

section \<open>Properties\<close>

text \<open>C23. In every reachable registry the lookups are exact: \<open>GetSessionByCallID\<close> returns each live
  session of the call once and no other, \<open>GetSessionByTags\<close> finds a session precisely when a live one
  has the tags and returns such a session, and a session found by SSRC is live and has a leg for it.\<close>

theorem registry_lookups_exact:
  assumes "sr_reach ttl sr"
  shows "set (GetSessionByCallID c sr) = {s \<in> set (all_sessions sr). ms_CallID s = c} \<and>
    distinct (map ms_ID (GetSessionByCallID c sr)) \<and>
    (GetSessionByTags c f t sr = None \<longleftrightarrow>
       \<not> (\<exists>s. s \<in> set (all_sessions sr) \<and> ms_CallID s = c \<and> ms_FromTag s = f \<and> (t = [] \<or> ms_ToTag s = t))) \<and>
    (\<forall>s. GetSessionByTags c f t sr = Some s \<longrightarrow>
       s \<in> set (all_sessions sr) \<and> ms_CallID s = c \<and> ms_FromTag s = f \<and> (t = [] \<or> ms_ToTag s = t)) \<and>
    (\<forall>s leg. GetSessionBySSRC x sr = Some (s, leg) \<longrightarrow> s \<in> set (all_sessions sr) \<and> leg \<noteq> None)"
proof -
  note inv = sr_reach_inv [OF assms]
  note set_eq = set_GetSessionByCallID [OF inv, of c]
  have tags: "GetSessionByTags c f t sr =
      find (\<lambda>s. ms_FromTag s = f \<and> (t = [] \<or> ms_ToTag s = t)) (GetSessionByCallID c sr)"
    by (simp add: GetSessionByTags_def GetSessionByCallID_def)
  have ssrc: "s \<in> set (all_sessions sr) \<and> leg \<noteq> None" if found: "GetSessionBySSRC x sr = Some (s, leg)" for s leg
  proof -
    obtain sid where sid: "reg_ssrcIndex sr x = Some sid" "live sr sid = Some s" "leg = map_of (ms_SSRCToLeg s) x"
      using found unfolding GetSessionBySSRC_def live_def bind_eq_Some_conv map_option_eq_Some by blast
    have "x \<in> fst ` set (ms_SSRCToLeg s)" using sr_invD(7) [OF inv sid(1)] sid(2) by simp
    then have "leg \<noteq> None" by (simp add: sid(3) map_of_eq_None_iff)
    moreover have "ms_ID s = sid" by (rule sr_invD(2) [OF inv sid(2)])
    ultimately show ?thesis using sid(2) by (simp add: all_sessions_iff [OF inv])
  qed
  have "GetSessionByTags c f t sr = None \<longleftrightarrow>
       \<not> (\<exists>s. s \<in> set (all_sessions sr) \<and> ms_CallID s = c \<and> ms_FromTag s = f \<and> (t = [] \<or> ms_ToTag s = t))"
    unfolding tags find_None_iff set_eq by blast
  moreover have "s \<in> set (all_sessions sr) \<and> ms_CallID s = c \<and> ms_FromTag s = f \<and> (t = [] \<or> ms_ToTag s = t)"
    if "GetSessionByTags c f t sr = Some s" for s
  proof -
    have "s \<in> set (GetSessionByCallID c sr) \<and> ms_FromTag s = f \<and> (t = [] \<or> ms_ToTag s = t)"
      using that unfolding tags find_Some_iff by (metis nth_mem)
    then show ?thesis unfolding set_eq by blast
  qed
  moreover have "distinct (map ms_ID (GetSessionByCallID c sr))"
    unfolding GetSessionByCallID_ids [OF inv] by (rule sr_invD(3) [OF inv])
  ultimately show ?thesis using set_eq ssrc by blast
qed

theorem registry_lookups_exact_witness:
  "map ms_ID (GetSessionByCallID ''call2'' sample_registry) = [''B''] \<and>
   (\<exists>s. GetSessionByTags ''call2'' ''b'' [] sample_registry = Some s \<and> s \<in> set (all_sessions sample_registry) \<and>
      ms_FromTag s = ''b'')"
proof -
  have "map ms_ID (GetSessionByCallID ''call2'' sample_registry) = [''B'']" by code_simp
  moreover have "GetSessionByTags ''call2'' ''b'' [] sample_registry \<noteq> None" by code_simp
  then obtain s where "GetSessionByTags ''call2'' ''b'' [] sample_registry = Some s" by blast
  ultimately show ?thesis using registry_lookups_exact [OF sample_registry_reach, of "''call2''" "''b''" "[]"] by blast
qed

text \<open>Deleting a session drops the SSRC index entry of every other session that has the same SSRC: the
  other session is still registered and still has the SSRC, but it is not found by it any more.\<close>

lemma deletion_loses_ssrc:
  assumes "GetSession a sr = Some s" "GetSession b sr = Some s'" "a \<noteq> b"
    "x \<in> fst ` set (ms_SSRCToLeg s)" "x \<in> fst ` set (ms_SSRCToLeg s')"
  shows "fst (DeleteSession a sr) = None \<and> GetSession b (snd (DeleteSession a sr)) = Some s' \<and>
    GetSessionBySSRC x (snd (DeleteSession a sr)) = None"
  using assms removeSessionLocked_live [of a sr]
  by (simp add: DeleteSession_def GetSession_def live_def removeSessionLocked_def GetSessionBySSRC_def Let_def)

text \<open>A cleanup pass that ranges over the whole map removes exactly the stale sessions, the terminated
  ones and the inactive ones past the time to live, and leaves every other session unchanged.\<close>

lemma cleanup_removes_stale:
  assumes "sr_reach ttl sr" "set order = fst ` set (reg_sessions sr)"
  shows "GetSession sid (cleanupStaleSessions now order sr) =
    (case GetSession sid sr of None \<Rightarrow> None
     | Some s \<Rightarrow> if isStale now (reg_sessionTTL sr) s then None else Some s)"
proof (cases "live sr sid")
  case (Some s)
  then have "sid \<in> set order" unfolding assms(2) live_def by (force dest: map_of_SomeD)
  with Some show ?thesis using cleanup_live [of now order sr sid] by (simp add: GetSession_def live_def)
qed (use cleanup_live [of now order sr sid] in \<open>simp add: GetSession_def live_def\<close>)

text \<open>Stopping a running registry over all its sessions returns; no session and no index entry is left,
  the sockets of every caller and callee leg are closed, and a second stop panics.\<close>

lemma Stop_releases_everything:
  assumes "sr_reach ttl sr" "\<not> reg_stopped sr" "set order = fst ` set (reg_sessions sr)"
  shows "\<exists>sr'. Stop order sr = Some sr' \<and> GetTotalCount sr' = 0 \<and> GetSessionByCallID c sr' = [] \<and>
    reg_callIDIndex sr' c = None \<and> reg_fromTagIndex sr' t = None \<and> reg_ssrcIndex sr' x = None \<and>
    (\<forall>s. s \<in> set (all_sessions sr) \<longrightarrow>
       set (legSockets sr (ms_CallerLeg s) @ legSockets sr (ms_CalleeLeg s)) \<subseteq> set (reg_closed sr')) \<and>
    Stop order' sr' = None"
proof -
  note inv = sr_reach_inv [OF assms(1)]
  define r where "r = sr\<lparr>reg_stopped := True\<rparr>"
  define sr' where "sr' = removeAll_sessions order r"
  have legs: "reg_legs r = reg_legs sr" by (simp add: r_def)
  have r: "sr_inv r" "live r = live sr" using inv by (simp_all add: r_def live_def)
  note r = r legSockets_cong [OF legs]
  have keys: "sid \<in> set order" if "live sr sid = Some s" for sid s
    using that unfolding assms(3) live_def by (force dest: map_of_SomeD)
  have "live sr' sid = None" for sid
    using keys [of sid] by (cases "live sr sid") (simp_all add: sr'_def removeAll_live r(2))
  note empty = no_sessions_indexes [OF removeAll_inv [OF r(1), of order, folded sr'_def] this]
  have closed: "set (legSockets sr (ms_CallerLeg s) @ legSockets sr (ms_CalleeLeg s)) \<subseteq> set (reg_closed sr')"
    if "s \<in> set (all_sessions sr)" for s
  proof -
    have "live sr (ms_ID s) = Some s" using that by (simp only: all_sessions_iff [OF inv])
    from removeAll_closes [OF this [folded r(2)] keys [OF this]] show ?thesis unfolding sr'_def r(3) .
  qed
  have "Stop order sr = Some sr'" "Stop order' sr' = None"
    using assms(2) by (simp_all add: Stop_def sr'_def r_def)
  moreover have "GetTotalCount sr' = 0" "GetSessionByCallID c sr' = []"
    using empty by (simp_all add: GetTotalCount_def GetSessionByCallID_def callSessions_def deref_def List.map_filter_simps)
  ultimately show ?thesis using empty(2-4) closed by (intro exI [of _ sr'] conjI allI impI)
qed

end
