(* ===== verification/Sharded_Map.thy ===== *)
theory Sharded_Map
  imports Karl_Prelude
begin

text \<open>
  A map split into shards, each with its own lock: a key is kept in the shard its index
  function names. The port allocator splits its ports and its sessions this way. The
  contract \<open>sharding\<close> says when such a map behaves like one flat map.
\<close>

section \<open>Operations\<close>

definition shard_lookup :: "('k \<Rightarrow> nat) \<Rightarrow> ('k \<rightharpoonup> 'v) list \<Rightarrow> 'k \<rightharpoonup> 'v" where
  "shard_lookup idx shards k = (shards ! idx k) k"

definition shard_update :: "('k \<Rightarrow> nat) \<Rightarrow> 'k \<Rightarrow> 'v \<Rightarrow> ('k \<rightharpoonup> 'v) list \<Rightarrow> ('k \<rightharpoonup> 'v) list" where
  "shard_update idx k v shards = shards[idx k := (shards ! idx k)(k \<mapsto> v)]"

definition shard_delete :: "('k \<Rightarrow> nat) \<Rightarrow> 'k \<Rightarrow> ('k \<rightharpoonup> 'v) list \<Rightarrow> ('k \<rightharpoonup> 'v) list" where
  "shard_delete idx k shards = shards[idx k := (shards ! idx k)(k := None)]"

section \<open>Contract\<close>

text \<open>The index function stays below the number of shards.\<close>

locale sharding =
  fixes idx :: "'k \<Rightarrow> nat" and n :: nat
  assumes idx_less: "idx k < n"
begin

lemma lookup_update:
  "length shards = n \<Longrightarrow> shard_lookup idx (shard_update idx k v shards) = (shard_lookup idx shards)(k \<mapsto> v)"
proof
  fix k'
  assume "length shards = n"
  then show "shard_lookup idx (shard_update idx k v shards) k' = ((shard_lookup idx shards)(k \<mapsto> v)) k'"
    using idx_less [of k] by (cases "idx k' = idx k") (auto simp: shard_lookup_def shard_update_def)
qed

lemma lookup_delete:
  "length shards = n \<Longrightarrow> shard_lookup idx (shard_delete idx k shards) = (shard_lookup idx shards)(k := None)"
proof
  fix k'
  assume "length shards = n"
  then show "shard_lookup idx (shard_delete idx k shards) k' = ((shard_lookup idx shards)(k := None)) k'"
    using idx_less [of k] by (cases "idx k' = idx k") (auto simp: shard_lookup_def shard_delete_def)
qed

lemma lookup_empty: "shard_lookup idx (replicate n Map.empty) = Map.empty"
  using idx_less by (auto simp: shard_lookup_def)

lemma length_shard_ops [simp]:
  "length (shard_update idx k v shards) = length shards"
  "length (shard_delete idx k shards) = length shards"
  by (simp_all add: shard_update_def shard_delete_def)

end

section \<open>Sixteen shards\<close>

text \<open>\<^verbatim>\<open>uint32(port) & 15\<close> for ports and \<^verbatim>\<open>fnv1aString(id) & 15\<close> for session identifiers.\<close>

definition port_shard :: "int \<Rightarrow> nat" where
  "port_shard port = unat ((word_of_int port :: u32) AND 15)"

definition fnv1aString :: "string \<Rightarrow> u32" where
  "fnv1aString s = foldl (\<lambda>h c. (h XOR of_nat (of_char c)) * 16777619) 2166136261 s"

definition session_shard :: "string \<Rightarrow> nat" where
  "session_shard sessionID = unat (fnv1aString sessionID AND 15)"

lemma and_15_less: "unat ((w :: u32) AND 15) < 16"
proof -
  have "w AND 15 \<le> 15" by (rule word_and_le1)
  then have "unat (w AND 15) \<le> unat (15 :: u32)" by (rule word_le_nat_alt [THEN iffD1])
  then show ?thesis by simp
qed

interpretation ports: sharding port_shard 16
  by unfold_locales (simp add: port_shard_def and_15_less)

interpretation sessions: sharding session_shard 16
  by unfold_locales (simp add: session_shard_def and_15_less)

end
