(* ===== verification/Port_Allocator.thy ===== *)
theory Port_Allocator
  imports Sharded_Map
begin

text \<open>
  The media port allocator, \<^verbatim>\<open>internal/port_allocator.go\<close>. Ports and sessions live in sixteen
  sharded maps each, pre-reserved RTP/RTCP pairs in a bounded channel (\<open>pa_pairPool\<close>), and
  recently released ports in a quarantine map.

  An exported operation is one step. The goroutine that \<^verbatim>\<open>AllocatePort\<close> starts is kept in
  \<open>pa_pending\<close> until the step \<open>returnPending\<close> runs it; the refill loop and the cleaner are the
  steps \<open>poolRefiller\<close> and \<open>releasedCleaner\<close>. Whether the operating system lets a port be bound
  is the parameter \<open>bind\<close>, and \<open>now\<close> is the clock. A connection handle is only tested against
  \<^verbatim>\<open>nil\<close>, so it is a boolean.
\<close>

section \<open>State\<close>

datatype port_error =
    ErrNoPortsAvailable | ErrPortInUse | ErrPortOutOfRange | ErrPortPoolExhausted
  | ErrPortAllocationLimit | ErrAllocatorClosed

record PortAllocatorConfig =
  MinPort :: int
  MaxPort :: int
  ReserveCount :: int
  ReuseDelay :: duration
  MaxAllocations :: int
  EvenOnly :: bool

definition DefaultPortAllocatorConfig :: PortAllocatorConfig where
  "DefaultPortAllocatorConfig = \<lparr>MinPort = 10000, MaxPort = 60000, ReserveCount = 500,
     ReuseDelay = 2 * second, MaxAllocations = 100, EvenOnly = True\<rparr>"

record portPair =
  rtp :: int
  rtcp :: int

record portInfo =
  pi_port :: int
  pi_sessionID :: string
  pi_allocatedAt :: gtime
  pi_conn :: bool

record PortAllocator =
  pa_config :: PortAllocatorConfig
  pa_pairPool :: "portPair list"
  pa_shards :: "(int \<rightharpoonup> portInfo) list"
  pa_released :: "int \<rightharpoonup> gtime"
  pa_totalAllocated :: int
  pa_totalReleased :: int
  pa_totalFailed :: int
  pa_currentInUse :: int
  pa_peakInUse :: int
  pa_poolHits :: int
  pa_poolMisses :: int
  pa_sessionShards :: "(string \<rightharpoonup> int list) list"
  pa_nextPort :: int
  pa_closed :: bool
  pa_pending :: "portPair list"

text \<open>What the sharded maps hold: the record of a port, and the ports of a session.\<close>

definition allocated :: "PortAllocator \<Rightarrow> int \<rightharpoonup> portInfo" where
  "allocated pa = shard_lookup port_shard (pa_shards pa)"

definition sessionPorts :: "PortAllocator \<Rightarrow> string \<Rightarrow> int list" where
  "sessionPorts pa s = (case shard_lookup session_shard (pa_sessionShards pa) s of None \<Rightarrow> [] | Some ps \<Rightarrow> ps)"

definition wrapStart :: "PortAllocatorConfig \<Rightarrow> int" where
  "wrapStart c = (if EvenOnly c \<and> MinPort c mod 2 \<noteq> 0 then MinPort c + 1 else MinPort c)"

definition NewPortAllocator :: "PortAllocatorConfig option \<Rightarrow> PortAllocator" where
  "NewPortAllocator config =
     (let c = (case config of None \<Rightarrow> DefaultPortAllocatorConfig | Some c \<Rightarrow> c) in
      \<lparr>pa_config = c, pa_pairPool = [], pa_shards = replicate 16 Map.empty, pa_released = Map.empty,
       pa_totalAllocated = 0, pa_totalReleased = 0, pa_totalFailed = 0, pa_currentInUse = 0,
       pa_peakInUse = 0, pa_poolHits = 0, pa_poolMisses = 0,
       pa_sessionShards = replicate 16 Map.empty, pa_nextPort = wrapStart c, pa_closed = False,
       pa_pending = []\<rparr>)"

section \<open>Reserving ports\<close>

definition setAllocated :: "int \<Rightarrow> portInfo \<Rightarrow> PortAllocator \<Rightarrow> PortAllocator" where
  "setAllocated port info pa = pa\<lparr>pa_shards := shard_update port_shard port info (pa_shards pa)\<rparr>"

definition markPortAvailable :: "int \<Rightarrow> PortAllocator \<Rightarrow> PortAllocator" where
  "markPortAvailable port pa = pa\<lparr>pa_shards := shard_delete port_shard port (pa_shards pa)\<rparr>"

definition reservedInfo :: "gtime \<Rightarrow> int \<Rightarrow> portInfo" where
  "reservedInfo now port = \<lparr>pi_port = port, pi_sessionID = [], pi_allocatedAt = now, pi_conn = False\<rparr>"

text \<open>Both lock orders of the source perform the same checks and writes.\<close>

definition tryReservePortPair :: "(int \<Rightarrow> bool) \<Rightarrow> gtime \<Rightarrow> int \<Rightarrow> PortAllocator \<Rightarrow> PortAllocator option" where
  "tryReservePortPair bind now rtpPort pa =
     (let rtcpPort = rtpPort + 1 in
      if pa_released pa rtpPort \<noteq> None then None
      else if pa_released pa rtcpPort \<noteq> None then None
      else if allocated pa rtpPort \<noteq> None then None
      else if allocated pa rtcpPort \<noteq> None then None
      else if \<not> bind rtpPort \<or> \<not> bind rtcpPort then None
      else Some (setAllocated rtcpPort (reservedInfo now rtcpPort)
                  (setAllocated rtpPort (reservedInfo now rtpPort) pa)))"

function scanPair :: "(int \<Rightarrow> bool) \<Rightarrow> gtime \<Rightarrow> int \<Rightarrow> int \<Rightarrow> PortAllocator \<Rightarrow> (int \<times> PortAllocator) option" where
  "scanPair bind now port stop pa =
     (if port < stop then
        (case tryReservePortPair bind now port pa of
           Some pa' \<Rightarrow> Some (port, pa')
         | None \<Rightarrow> scanPair bind now (port + 2) stop pa)
      else None)"
  by pat_completeness auto
termination by (relation "measure (\<lambda>(_, _, port, stop, _). nat (stop - port))") auto

declare scanPair.simps [simp del]

definition findAvailablePortPair ::
  "(int \<Rightarrow> bool) \<Rightarrow> gtime \<Rightarrow> PortAllocator \<Rightarrow> (portPair \<times> PortAllocator) option" where
  "findAvailablePortPair bind now pa =
     (let start = pa_nextPort pa; stop = MaxPort (pa_config pa) - 1;
          found = (case scanPair bind now start stop pa of
                     Some r \<Rightarrow> Some r
                   | None \<Rightarrow> scanPair bind now (wrapStart (pa_config pa)) (min start stop) pa)
      in map_option (\<lambda>(port, pa'). (\<lparr>rtp = port, rtcp = port + 1\<rparr>, pa'\<lparr>pa_nextPort := port + 2\<rparr>)) found)"

text \<open>\<open>refillLoop\<close> is the loop of \<^verbatim>\<open>refillPool\<close> with its remaining iterations.\<close>

fun refillLoop :: "(int \<Rightarrow> bool) \<Rightarrow> gtime \<Rightarrow> nat \<Rightarrow> PortAllocator \<Rightarrow> PortAllocator" where
  "refillLoop bind now 0 pa = pa"
| "refillLoop bind now (Suc n) pa =
     (case findAvailablePortPair bind now pa of
        None \<Rightarrow> pa
      | Some (pair, pa1) \<Rightarrow>
          if int (length (pa_pairPool pa1)) < ReserveCount (pa_config pa1)
          then refillLoop bind now n (pa1\<lparr>pa_pairPool := pa_pairPool pa1 @ [pair]\<rparr>)
          else markPortAvailable (rtcp pair) (markPortAvailable (rtp pair) pa1))"

definition refillPool :: "(int \<Rightarrow> bool) \<Rightarrow> gtime \<Rightarrow> PortAllocator \<Rightarrow> PortAllocator" where
  "refillPool bind now pa =
     (let target = ReserveCount (pa_config pa) - int (length (pa_pairPool pa)) in
      if target \<le> 0 then pa else refillLoop bind now (nat target) pa)"

definition poolRefiller :: "(int \<Rightarrow> bool) \<Rightarrow> gtime \<Rightarrow> PortAllocator \<Rightarrow> PortAllocator" where
  "poolRefiller bind now pa =
     (if pa_closed pa then pa
      else if int (length (pa_pairPool pa)) < ReserveCount (pa_config pa) div 2
      then refillPool bind now pa else pa)"

definition releasedCleaner :: "gtime \<Rightarrow> PortAllocator \<Rightarrow> PortAllocator" where
  "releasedCleaner now pa =
     (if pa_closed pa then pa
      else pa\<lparr>pa_released := (\<lambda>port. case pa_released pa port of
          None \<Rightarrow> None
        | Some releaseTime \<Rightarrow>
            if now - releaseTime \<ge> ReuseDelay (pa_config pa) then None else Some releaseTime)\<rparr>)"

section \<open>Allocating\<close>

definition recordAllocationStats :: "int \<Rightarrow> string \<Rightarrow> PortAllocator \<Rightarrow> PortAllocator" where
  "recordAllocationStats port sessionID pa =
     (let current = pa_currentInUse pa + 1 in
      pa\<lparr>pa_sessionShards := shard_update session_shard sessionID (sessionPorts pa sessionID @ [port])
                              (pa_sessionShards pa),
         pa_totalAllocated := pa_totalAllocated pa + 1,
         pa_currentInUse := current,
         pa_peakInUse := max (pa_peakInUse pa) current\<rparr>)"

definition recordAllocation :: "gtime \<Rightarrow> int \<Rightarrow> string \<Rightarrow> bool \<Rightarrow> PortAllocator \<Rightarrow> PortAllocator" where
  "recordAllocation now port sessionID conn pa =
     recordAllocationStats port sessionID
       (setAllocated port \<lparr>pi_port = port, pi_sessionID = sessionID, pi_allocatedAt = now, pi_conn = conn\<rparr> pa)"

definition tryAllocatePort ::
  "(int \<Rightarrow> bool) \<Rightarrow> gtime \<Rightarrow> string \<Rightarrow> bool \<Rightarrow> int \<Rightarrow> PortAllocator \<Rightarrow> PortAllocator option" where
  "tryAllocatePort bind now sessionID conn port pa =
     (if pa_released pa port \<noteq> None then None
      else if allocated pa port \<noteq> None then None
      else if \<not> bind port then None
      else Some (recordAllocation now port sessionID conn pa))"

function scanPort ::
  "(int \<Rightarrow> bool) \<Rightarrow> gtime \<Rightarrow> string \<Rightarrow> bool \<Rightarrow> int \<Rightarrow> int \<Rightarrow> int \<Rightarrow> PortAllocator \<Rightarrow> (int \<times> PortAllocator) option" where
  "scanPort bind now sessionID conn step port stop pa =
     (if port < stop \<and> 0 < step then
        (case tryAllocatePort bind now sessionID conn port pa of
           Some pa' \<Rightarrow> Some (port, pa')
         | None \<Rightarrow> scanPort bind now sessionID conn step (port + step) stop pa)
      else None)"
  by pat_completeness auto
termination by (relation "measure (\<lambda>(_, _, _, _, step, port, stop, _). nat (stop - port))") auto

declare scanPort.simps [simp del]

definition portStep :: "PortAllocatorConfig \<Rightarrow> int" where
  "portStep c = (if EvenOnly c then 2 else 1)"

definition findAndAllocatePort ::
  "(int \<Rightarrow> bool) \<Rightarrow> gtime \<Rightarrow> string \<Rightarrow> PortAllocator \<Rightarrow> (int \<times> PortAllocator) option" where
  "findAndAllocatePort bind now sessionID pa =
     (let start = pa_nextPort pa; step = portStep (pa_config pa);
          found = (case scanPort bind now sessionID False step start (MaxPort (pa_config pa) + 1) pa of
                     Some r \<Rightarrow> Some r
                   | None \<Rightarrow> scanPort bind now sessionID False step (wrapStart (pa_config pa)) start pa)
      in map_option (\<lambda>(port, pa'). (port, pa'\<lparr>pa_nextPort := port + step\<rparr>)) found)"

definition AllocatePort ::
  "(int \<Rightarrow> bool) \<Rightarrow> gtime \<Rightarrow> string \<Rightarrow> PortAllocator \<Rightarrow> (port_error + int) \<times> PortAllocator" where
  "AllocatePort bind now sessionID pa =
     (if pa_closed pa then (Inl ErrAllocatorClosed, pa)
      else if int (length (sessionPorts pa sessionID)) \<ge> MaxAllocations (pa_config pa)
      then (Inl ErrPortAllocationLimit, pa\<lparr>pa_totalFailed := pa_totalFailed pa + 1\<rparr>)
      else (case pa_pairPool pa of
              pair # pool \<Rightarrow>
                (Inr (rtp pair),
                 recordAllocation now (rtp pair) sessionID False
                   (pa\<lparr>pa_pairPool := pool, pa_poolHits := pa_poolHits pa + 1,
                       pa_pending := pa_pending pa @ [pair]\<rparr>))
            | [] \<Rightarrow>
                (let pa1 = pa\<lparr>pa_poolMisses := pa_poolMisses pa + 1\<rparr> in
                 case findAndAllocatePort bind now sessionID pa1 of
                   None \<Rightarrow> (Inl ErrNoPortsAvailable, pa1\<lparr>pa_totalFailed := pa_totalFailed pa1 + 1\<rparr>)
                 | Some (port, pa2) \<Rightarrow> (Inr port, pa2))))"


definition AllocatePortPair ::
  "(int \<Rightarrow> bool) \<Rightarrow> gtime \<Rightarrow> string \<Rightarrow> PortAllocator \<Rightarrow> (port_error + int \<times> int) \<times> PortAllocator" where
  "AllocatePortPair bind now sessionID pa =
     (let commit = (\<lambda>pair pa1. (Inr (rtp pair, rtcp pair),
            recordAllocation now (rtcp pair) sessionID False
              (recordAllocation now (rtp pair) sessionID False pa1))) in
      if pa_closed pa then (Inl ErrAllocatorClosed, pa)
      else if int (length (sessionPorts pa sessionID)) + 2 > MaxAllocations (pa_config pa)
      then (Inl ErrPortAllocationLimit, pa\<lparr>pa_totalFailed := pa_totalFailed pa + 1\<rparr>)
      else (case pa_pairPool pa of
              pair # pool \<Rightarrow> commit pair (pa\<lparr>pa_pairPool := pool, pa_poolHits := pa_poolHits pa + 1\<rparr>)
            | [] \<Rightarrow>
                (let pa1 = pa\<lparr>pa_poolMisses := pa_poolMisses pa + 1\<rparr> in
                 case findAvailablePortPair bind now pa1 of
                   None \<Rightarrow> (Inl ErrNoPortsAvailable, pa1\<lparr>pa_totalFailed := pa_totalFailed pa1 + 2\<rparr>)
                 | Some (pair, pa2) \<Rightarrow> commit pair pa2)))"

text \<open>\<^verbatim>\<open>AllocateWithConnection\<close> scans upwards from the hint and does not wrap around.\<close>

definition AllocateWithConnection ::
  "(int \<Rightarrow> bool) \<Rightarrow> gtime \<Rightarrow> string \<Rightarrow> PortAllocator \<Rightarrow> (port_error + int) \<times> PortAllocator" where
  "AllocateWithConnection bind now sessionID pa =
     (if pa_closed pa then (Inl ErrAllocatorClosed, pa)
      else if int (length (sessionPorts pa sessionID)) \<ge> MaxAllocations (pa_config pa)
      then (Inl ErrPortAllocationLimit, pa\<lparr>pa_totalFailed := pa_totalFailed pa + 1\<rparr>)
      else (let step = portStep (pa_config pa) in
            case scanPort bind now sessionID True step (pa_nextPort pa) (MaxPort (pa_config pa) + 1) pa of
              None \<Rightarrow> (Inl ErrNoPortsAvailable, pa\<lparr>pa_totalFailed := pa_totalFailed pa + 1\<rparr>)
            | Some (port, pa1) \<Rightarrow> (Inr port, pa1\<lparr>pa_nextPort := port + step\<rparr>)))"

section \<open>Releasing\<close>

text \<open>The loop of \<^verbatim>\<open>ReleasePort\<close> removes the first occurrence of the port from the session's list.\<close>

definition forgetSessionPort :: "string \<Rightarrow> int \<Rightarrow> PortAllocator \<Rightarrow> PortAllocator" where
  "forgetSessionPort sessionID port pa =
     (let ports = remove1 port (sessionPorts pa sessionID) in
      pa\<lparr>pa_sessionShards :=
           (if ports = [] then shard_delete session_shard sessionID (pa_sessionShards pa)
            else shard_update session_shard sessionID ports (pa_sessionShards pa))\<rparr>)"

definition ReleasePort :: "gtime \<Rightarrow> int \<Rightarrow> PortAllocator \<Rightarrow> port_error option \<times> PortAllocator" where
  "ReleasePort now port pa =
     (case allocated pa port of
        None \<Rightarrow> (Some ErrPortOutOfRange, pa)
      | Some info \<Rightarrow>
          let pa1 = markPortAvailable port pa;
              pa2 = pa1\<lparr>pa_released := (pa_released pa1)(port \<mapsto> now)\<rparr>;
              pa3 = (if pi_sessionID info \<noteq> [] then forgetSessionPort (pi_sessionID info) port pa2 else pa2)
          in (None, pa3\<lparr>pa_totalReleased := pa_totalReleased pa3 + 1,
                        pa_currentInUse := pa_currentInUse pa3 - 1\<rparr>))"

fun releaseAll :: "gtime \<Rightarrow> int list \<Rightarrow> port_error option \<Rightarrow> PortAllocator \<Rightarrow> port_error option \<times> PortAllocator" where
  "releaseAll now [] lastErr pa = (lastErr, pa)"
| "releaseAll now (port # ports) lastErr pa =
     (case ReleasePort now port pa of
        (None, pa1) \<Rightarrow> releaseAll now ports lastErr pa1
      | (Some err, pa1) \<Rightarrow> releaseAll now ports (Some err) pa1)"

definition ReleaseSessionPorts :: "gtime \<Rightarrow> string \<Rightarrow> PortAllocator \<Rightarrow> port_error option \<times> PortAllocator" where
  "ReleaseSessionPorts now sessionID pa = releaseAll now (sessionPorts pa sessionID) None pa"

definition GetAvailableCount :: "PortAllocator \<Rightarrow> int" where
  "GetAvailableCount pa =
     (let c = pa_config pa;
          totalPorts = (if EvenOnly c then (MaxPort c - MinPort c) div 2 else MaxPort c - MinPort c + 1)
      in totalPorts - pa_currentInUse pa)"

text \<open>\<^verbatim>\<open>Close\<close> waits for the refiller, drains the pool and clears every shard of ports.\<close>

definition Close :: "PortAllocator \<Rightarrow> PortAllocator" where
  "Close pa =
     (if pa_closed pa then pa
      else pa\<lparr>pa_closed := True, pa_pairPool := [], pa_shards := map (\<lambda>_. Map.empty) (pa_shards pa)\<rparr>)"

section \<open>Reservations\<close>

record PortReservation =
  prs_ports :: "int list"
  prs_sessionID :: string
  prs_committed :: bool

fun releaseQuietly :: "gtime \<Rightarrow> int list \<Rightarrow> PortAllocator \<Rightarrow> PortAllocator" where
  "releaseQuietly now [] pa = pa"
| "releaseQuietly now (port # ports) pa = releaseQuietly now ports (snd (ReleasePort now port pa))"

definition Rollback :: "gtime \<Rightarrow> PortReservation \<Rightarrow> PortAllocator \<Rightarrow> PortReservation \<times> PortAllocator" where
  "Rollback now r pa =
     (if prs_committed r then (r, pa)
      else (r\<lparr>prs_ports := []\<rparr>, releaseQuietly now (prs_ports r) pa))"

definition Commit :: "PortReservation \<Rightarrow> PortReservation" where
  "Commit r = r\<lparr>prs_committed := True\<rparr>"

fun reserveLoop ::
  "(int \<Rightarrow> bool) \<Rightarrow> gtime \<Rightarrow> nat \<Rightarrow> PortReservation \<Rightarrow> PortAllocator \<Rightarrow> (port_error + PortReservation) \<times> PortAllocator" where
  "reserveLoop bind now 0 r pa = (Inr r, pa)"
| "reserveLoop bind now (Suc n) r pa =
     (case AllocatePort bind now (prs_sessionID r) pa of
        (Inl err, pa1) \<Rightarrow> (Inl err, snd (Rollback now r pa1))
      | (Inr port, pa1) \<Rightarrow> reserveLoop bind now n (r\<lparr>prs_ports := prs_ports r @ [port]\<rparr>) pa1)"

definition NewPortReservation ::
  "(int \<Rightarrow> bool) \<Rightarrow> gtime \<Rightarrow> string \<Rightarrow> nat \<Rightarrow> PortAllocator \<Rightarrow> (port_error + PortReservation) \<times> PortAllocator" where
  "NewPortReservation bind now sessionID num pa =
     reserveLoop bind now num \<lparr>prs_ports = [], prs_sessionID = sessionID, prs_committed = False\<rparr> pa"

section \<open>Reading the sharded state\<close>

lemma allocated_frame [simp]:
  "allocated (pa\<lparr>pa_pairPool := x_pairPool\<rparr>) = allocated pa"
  "allocated (pa\<lparr>pa_released := x_released\<rparr>) = allocated pa"
  "allocated (pa\<lparr>pa_totalAllocated := x_totalAllocated\<rparr>) = allocated pa"
  "allocated (pa\<lparr>pa_totalReleased := x_totalReleased\<rparr>) = allocated pa"
  "allocated (pa\<lparr>pa_totalFailed := x_totalFailed\<rparr>) = allocated pa"
  "allocated (pa\<lparr>pa_currentInUse := x_currentInUse\<rparr>) = allocated pa"
  "allocated (pa\<lparr>pa_peakInUse := x_peakInUse\<rparr>) = allocated pa"
  "allocated (pa\<lparr>pa_poolHits := x_poolHits\<rparr>) = allocated pa"
  "allocated (pa\<lparr>pa_poolMisses := x_poolMisses\<rparr>) = allocated pa"
  "allocated (pa\<lparr>pa_nextPort := x_nextPort\<rparr>) = allocated pa"
  "allocated (pa\<lparr>pa_closed := x_closed\<rparr>) = allocated pa"
  "allocated (pa\<lparr>pa_pending := x_pending\<rparr>) = allocated pa"
  "allocated (pa\<lparr>pa_sessionShards := x_sessionShards\<rparr>) = allocated pa"
  by (simp_all add: allocated_def fun_eq_iff)

lemma sessionPorts_frame [simp]:
  "sessionPorts (pa\<lparr>pa_pairPool := x_pairPool\<rparr>) = sessionPorts pa"
  "sessionPorts (pa\<lparr>pa_released := x_released\<rparr>) = sessionPorts pa"
  "sessionPorts (pa\<lparr>pa_totalAllocated := x_totalAllocated\<rparr>) = sessionPorts pa"
  "sessionPorts (pa\<lparr>pa_totalReleased := x_totalReleased\<rparr>) = sessionPorts pa"
  "sessionPorts (pa\<lparr>pa_totalFailed := x_totalFailed\<rparr>) = sessionPorts pa"
  "sessionPorts (pa\<lparr>pa_currentInUse := x_currentInUse\<rparr>) = sessionPorts pa"
  "sessionPorts (pa\<lparr>pa_peakInUse := x_peakInUse\<rparr>) = sessionPorts pa"
  "sessionPorts (pa\<lparr>pa_poolHits := x_poolHits\<rparr>) = sessionPorts pa"
  "sessionPorts (pa\<lparr>pa_poolMisses := x_poolMisses\<rparr>) = sessionPorts pa"
  "sessionPorts (pa\<lparr>pa_nextPort := x_nextPort\<rparr>) = sessionPorts pa"
  "sessionPorts (pa\<lparr>pa_closed := x_closed\<rparr>) = sessionPorts pa"
  "sessionPorts (pa\<lparr>pa_pending := x_pending\<rparr>) = sessionPorts pa"
  "sessionPorts (pa\<lparr>pa_shards := x_shards\<rparr>) = sessionPorts pa"
  by (simp_all add: sessionPorts_def fun_eq_iff)

definition shards_ok :: "PortAllocator \<Rightarrow> bool" where
  "shards_ok pa \<longleftrightarrow> length (pa_shards pa) = 16 \<and> length (pa_sessionShards pa) = 16"

lemma shards_ok_frame [simp]:
  "shards_ok (pa\<lparr>pa_pairPool := x_pairPool\<rparr>) = shards_ok pa"
  "shards_ok (pa\<lparr>pa_released := x_released\<rparr>) = shards_ok pa"
  "shards_ok (pa\<lparr>pa_totalAllocated := x_totalAllocated\<rparr>) = shards_ok pa"
  "shards_ok (pa\<lparr>pa_totalReleased := x_totalReleased\<rparr>) = shards_ok pa"
  "shards_ok (pa\<lparr>pa_totalFailed := x_totalFailed\<rparr>) = shards_ok pa"
  "shards_ok (pa\<lparr>pa_currentInUse := x_currentInUse\<rparr>) = shards_ok pa"
  "shards_ok (pa\<lparr>pa_peakInUse := x_peakInUse\<rparr>) = shards_ok pa"
  "shards_ok (pa\<lparr>pa_poolHits := x_poolHits\<rparr>) = shards_ok pa"
  "shards_ok (pa\<lparr>pa_poolMisses := x_poolMisses\<rparr>) = shards_ok pa"
  "shards_ok (pa\<lparr>pa_nextPort := x_nextPort\<rparr>) = shards_ok pa"
  "shards_ok (pa\<lparr>pa_closed := x_closed\<rparr>) = shards_ok pa"
  "shards_ok (pa\<lparr>pa_pending := x_pending\<rparr>) = shards_ok pa"
  by (simp_all add: shards_ok_def)

lemma setAllocated_simps [simp]:
  "shards_ok pa \<Longrightarrow> allocated (setAllocated p i pa) = (allocated pa)(p \<mapsto> i)"
  "sessionPorts (setAllocated p i pa) = sessionPorts pa"
  "shards_ok (setAllocated p i pa) = shards_ok pa"
  "pa_released (setAllocated p i pa) = pa_released pa" "pa_pairPool (setAllocated p i pa) = pa_pairPool pa"
  "pa_config (setAllocated p i pa) = pa_config pa" "pa_nextPort (setAllocated p i pa) = pa_nextPort pa"
  "pa_pending (setAllocated p i pa) = pa_pending pa" "pa_closed (setAllocated p i pa) = pa_closed pa"
  by (simp_all add: setAllocated_def allocated_def shards_ok_def ports.lookup_update)

lemma markPortAvailable_simps [simp]:
  "shards_ok pa \<Longrightarrow> allocated (markPortAvailable p pa) = (allocated pa)(p := None)"
  "sessionPorts (markPortAvailable p pa) = sessionPorts pa"
  "shards_ok (markPortAvailable p pa) = shards_ok pa"
  "pa_released (markPortAvailable p pa) = pa_released pa" "pa_pairPool (markPortAvailable p pa) = pa_pairPool pa"
  "pa_config (markPortAvailable p pa) = pa_config pa" "pa_nextPort (markPortAvailable p pa) = pa_nextPort pa"
  "pa_pending (markPortAvailable p pa) = pa_pending pa" "pa_closed (markPortAvailable p pa) = pa_closed pa"
  by (simp_all add: markPortAvailable_def allocated_def shards_ok_def ports.lookup_delete)

lemma recordAllocationStats_simps [simp]:
  "allocated (recordAllocationStats p s pa) = allocated pa"
  "shards_ok pa \<Longrightarrow> sessionPorts (recordAllocationStats p s pa) = (sessionPorts pa)(s := sessionPorts pa s @ [p])"
  "shards_ok (recordAllocationStats p s pa) = shards_ok pa"
  "pa_released (recordAllocationStats p s pa) = pa_released pa"
  "pa_pairPool (recordAllocationStats p s pa) = pa_pairPool pa"
  "pa_config (recordAllocationStats p s pa) = pa_config pa"
  "pa_nextPort (recordAllocationStats p s pa) = pa_nextPort pa"
  "pa_pending (recordAllocationStats p s pa) = pa_pending pa"
  "pa_closed (recordAllocationStats p s pa) = pa_closed pa"
  by (simp_all add: recordAllocationStats_def sessionPorts_def [abs_def] shards_ok_def Let_def
      sessions.lookup_update fun_eq_iff)

lemma forgetSessionPort_simps [simp]:
  "allocated (forgetSessionPort s p pa) = allocated pa"
  "shards_ok pa \<Longrightarrow> sessionPorts (forgetSessionPort s p pa) = (sessionPorts pa)(s := remove1 p (sessionPorts pa s))"
  "shards_ok (forgetSessionPort s p pa) = shards_ok pa"
  "pa_released (forgetSessionPort s p pa) = pa_released pa"
  "pa_pairPool (forgetSessionPort s p pa) = pa_pairPool pa"
  "pa_config (forgetSessionPort s p pa) = pa_config pa"
  "pa_nextPort (forgetSessionPort s p pa) = pa_nextPort pa"
  "pa_pending (forgetSessionPort s p pa) = pa_pending pa"
  "pa_closed (forgetSessionPort s p pa) = pa_closed pa"
  by (simp_all add: forgetSessionPort_def sessionPorts_def [abs_def] shards_ok_def Let_def
      sessions.lookup_update sessions.lookup_delete fun_eq_iff)

lemma recordAllocation_simps [simp]:
  "shards_ok pa \<Longrightarrow> allocated (recordAllocation now p s conn pa) = (allocated pa)(p \<mapsto>
     \<lparr>pi_port = p, pi_sessionID = s, pi_allocatedAt = now, pi_conn = conn\<rparr>)"
  "shards_ok pa \<Longrightarrow> sessionPorts (recordAllocation now p s conn pa) = (sessionPorts pa)(s := sessionPorts pa s @ [p])"
  "shards_ok (recordAllocation now p s conn pa) = shards_ok pa"
  "pa_released (recordAllocation now p s conn pa) = pa_released pa"
  "pa_pairPool (recordAllocation now p s conn pa) = pa_pairPool pa"
  "pa_config (recordAllocation now p s conn pa) = pa_config pa"
  "pa_nextPort (recordAllocation now p s conn pa) = pa_nextPort pa"
  "pa_pending (recordAllocation now p s conn pa) = pa_pending pa"
  "pa_closed (recordAllocation now p s conn pa) = pa_closed pa"
  by (simp_all add: recordAllocation_def)

lemma NewPortAllocator_simps [simp]:
  "allocated (NewPortAllocator c) = Map.empty" "sessionPorts (NewPortAllocator c) s = []"
  "shards_ok (NewPortAllocator c)" "pa_released (NewPortAllocator c) = Map.empty"
  "pa_pairPool (NewPortAllocator c) = []" "pa_pending (NewPortAllocator c) = []"
  "pa_closed (NewPortAllocator c) = False"
  "pa_nextPort (NewPortAllocator c) = wrapStart (pa_config (NewPortAllocator c))"
  by (simp_all add: NewPortAllocator_def allocated_def sessionPorts_def shards_ok_def Let_def
      ports.lookup_empty sessions.lookup_empty)

section \<open>Ownership invariant\<close>

definition pair_ports :: "portPair list \<Rightarrow> int list" where
  "pair_ports qs = concat (map (\<lambda>q. [rtp q, rtcp q]) qs)"

lemma pair_ports_simps [simp]:
  "pair_ports [] = []" "pair_ports (q # qs) = rtp q # rtcp q # pair_ports qs"
  "pair_ports (qs @ qs') = pair_ports qs @ pair_ports qs'"
  by (simp_all add: pair_ports_def)

definition pair_ok :: "PortAllocatorConfig \<Rightarrow> portPair \<Rightarrow> bool" where
  "pair_ok c q \<longleftrightarrow> rtcp q = rtp q + 1 \<and> MinPort c \<le> rtp q \<and> rtcp q \<le> MaxPort c \<and>
     (EvenOnly c \<longrightarrow> even (rtp q))"

text \<open>A port nobody owns: not in the pool, not in quarantine, and at most reserved.\<close>

definition unowned :: "PortAllocator \<Rightarrow> int \<Rightarrow> bool" where
  "unowned pa p \<longleftrightarrow> p \<notin> set (pair_ports (pa_pairPool pa)) \<and> pa_released pa p = None \<and>
     (case allocated pa p of None \<Rightarrow> True | Some i \<Rightarrow> pi_sessionID i = [])"

definition owned_by :: "PortAllocator \<Rightarrow> string \<Rightarrow> int \<Rightarrow> bool" where
  "owned_by pa s p \<longleftrightarrow> (\<exists>i. allocated pa p = Some i \<and> pi_sessionID i = s)"

definition pool_inv :: "PortAllocator \<Rightarrow> bool" where
  "pool_inv pa \<longleftrightarrow> distinct (pair_ports (pa_pairPool pa)) \<and>
     (\<forall>p \<in> set (pair_ports (pa_pairPool pa)). owned_by pa [] p) \<and>
     (\<forall>q \<in> set (pa_pairPool pa). pair_ok (pa_config pa) q) \<and> pa_pending pa = []"

definition session_inv :: "PortAllocator \<Rightarrow> bool" where
  "session_inv pa \<longleftrightarrow> (\<forall>s. s \<noteq> [] \<longrightarrow> distinct (sessionPorts pa s) \<and>
     (\<forall>p. p \<in> set (sessionPorts pa s) \<longleftrightarrow> owned_by pa s p))"

definition hint_inv :: "PortAllocator \<Rightarrow> bool" where
  "hint_inv pa \<longleftrightarrow> wrapStart (pa_config pa) \<le> pa_nextPort pa \<and>
     (EvenOnly (pa_config pa) \<longrightarrow> even (pa_nextPort pa))"

definition port_inv :: "PortAllocator \<Rightarrow> bool" where
  "port_inv pa \<longleftrightarrow> shards_ok pa \<and> pool_inv pa \<and> session_inv pa \<and> hint_inv pa \<and>
     (\<forall>p. pa_released pa p \<noteq> None \<longrightarrow> allocated pa p = None)"

lemmas inv_defs = port_inv_def pool_inv_def session_inv_def owned_by_def unowned_def

lemma wrapStart_even: "EvenOnly c \<Longrightarrow> even (wrapStart c)"
  by (simp add: wrapStart_def) presburger

lemma wrapStart_ge: "MinPort c \<le> wrapStart c"
  by (simp add: wrapStart_def)

lemma port_inv_New: "port_inv (NewPortAllocator c)"
  by (simp add: inv_defs hint_inv_def wrapStart_even)

text \<open>The invariant does not see the counters.\<close>

lemma port_inv_frame [simp]:
  "port_inv (pa\<lparr>pa_totalFailed := a\<rparr>) = port_inv pa" "port_inv (pa\<lparr>pa_poolMisses := b\<rparr>) = port_inv pa"
  "port_inv (pa\<lparr>pa_poolHits := c\<rparr>) = port_inv pa"
  "port_inv (pa\<lparr>pa_totalReleased := d\<rparr>) = port_inv pa" "port_inv (pa\<lparr>pa_currentInUse := e\<rparr>) = port_inv pa"
  by (simp_all add: inv_defs hint_inv_def)

lemma unowned_frame [simp]:
  "unowned (pa\<lparr>pa_poolMisses := b\<rparr>) = unowned pa" "unowned (pa\<lparr>pa_poolHits := c\<rparr>) = unowned pa"
  "unowned (pa\<lparr>pa_nextPort := d\<rparr>) = unowned pa"
  by (simp_all add: unowned_def fun_eq_iff)

lemma port_inv_pop:
  assumes "port_inv pa" "pa_pairPool pa = q # qs"
  shows "port_inv (pa\<lparr>pa_pairPool := qs\<rparr>)" "unowned (pa\<lparr>pa_pairPool := qs\<rparr>) (rtp q)"
    "unowned (pa\<lparr>pa_pairPool := qs\<rparr>) (rtcp q)" "rtp q \<noteq> rtcp q" "pair_ok (pa_config pa) q"
  using assms by (auto simp: inv_defs hint_inv_def split: option.splits)

lemma port_inv_record [wf_intros]:
  assumes "port_inv pa" "unowned pa p" "s \<noteq> []"
  shows "port_inv (recordAllocation now p s conn pa)"
  using assms by (auto simp: inv_defs hint_inv_def split: option.splits)

lemma unowned_record:
  "port_inv pa \<Longrightarrow> unowned pa p' \<Longrightarrow> p' \<noteq> p \<Longrightarrow> unowned (recordAllocation now p s conn pa) p'"
  by (auto simp: inv_defs split: option.splits)

lemma pool_port_allocated:
  "port_inv pa \<Longrightarrow> allocated pa p = None \<Longrightarrow> p \<notin> set (pair_ports (pa_pairPool pa))"
  by (auto simp: inv_defs)

lemma tryReserve_SomeD:
  assumes "tryReservePortPair bind now p pa = Some pa'"
  shows "pa' = setAllocated (p + 1) (reservedInfo now (p + 1)) (setAllocated p (reservedInfo now p) pa)"
    "allocated pa p = None" "allocated pa (p + 1) = None" "pa_released pa p = None"
    "pa_released pa (p + 1) = None"
  using assms by (auto simp: tryReservePortPair_def Let_def split: if_splits)

lemma port_inv_reserve:
  assumes inv: "port_inv pa" and res: "tryReservePortPair bind now p pa = Some pa'"
  shows "port_inv pa'" "unowned pa' p" "unowned pa' (p + 1)" "owned_by pa' [] p" "owned_by pa' [] (p + 1)"
    "pa_config pa' = pa_config pa" "pa_pairPool pa' = pa_pairPool pa" "pa_nextPort pa' = pa_nextPort pa"
    "pa_released pa' = pa_released pa"
proof -
  note free = tryReserve_SomeD [OF res]
  have "shards_ok pa" using inv by (simp add: port_inv_def)
  then have alloc: "allocated pa' = (allocated pa)(p \<mapsto> reservedInfo now p, p + 1 \<mapsto> reservedInfo now (p + 1))"
    and rest: "sessionPorts pa' = sessionPorts pa" "shards_ok pa'" "pa_released pa' = pa_released pa"
      "pa_pending pa' = pa_pending pa"
    by (simp_all add: free(1))
  show same: "pa_config pa' = pa_config pa" "pa_pairPool pa' = pa_pairPool pa" "pa_nextPort pa' = pa_nextPort pa"
      "pa_released pa' = pa_released pa"
    by (simp_all add: free(1))
  show own: "owned_by pa' [] p" "owned_by pa' [] (p + 1)"
    by (simp_all add: owned_by_def alloc reservedInfo_def)
  show "unowned pa' p" "unowned pa' (p + 1)"
    using free(2-5) pool_port_allocated [OF inv] by (auto simp: unowned_def alloc rest same reservedInfo_def)
  have "owned_by pa' s x \<longleftrightarrow> owned_by pa s x" if "s \<noteq> []" for s x
    using that free(2,3) by (auto simp: owned_by_def alloc reservedInfo_def)
  then have "session_inv pa'" using inv by (simp add: port_inv_def session_inv_def rest)
  moreover have "pool_inv pa'"
    using inv own by (auto simp: port_inv_def pool_inv_def rest same owned_by_def alloc)
  moreover have "hint_inv pa'" using inv by (simp add: port_inv_def hint_inv_def same)
  ultimately show "port_inv pa'"
    using inv free(4,5) rest by (auto simp: port_inv_def alloc)
qed

lemma scanPair_SomeD:
  "scanPair bind now port stop pa = Some (p, pa') \<Longrightarrow>
     tryReservePortPair bind now p pa = Some pa' \<and> port \<le> p \<and> p < stop \<and> (even p \<longleftrightarrow> even port)"
proof (induction bind now port stop pa rule: scanPair.induct)
  case (1 bind now port stop pa)
  show ?case
  proof (cases "tryReservePortPair bind now port pa")
    case None
    with "1.prems" have "port < stop" and s: "scanPair bind now (port + 2) stop pa = Some (p, pa')"
      by (simp_all add: scanPair.simps [of bind now port] split: if_splits)
    then show ?thesis using "1.IH" [OF \<open>port < stop\<close> None s] by simp
  next
    case (Some pa1)
    with "1.prems" show ?thesis by (simp add: scanPair.simps [of bind now port] split: if_splits)
  qed
qed

text \<open>The two scans of \<^verbatim>\<open>findAvailablePortPair\<close> return a reservable pair inside the range.\<close>

lemma findAvailablePortPair_SomeD:
  assumes inv: "port_inv pa" and f: "findAvailablePortPair bind now pa = Some (q, pa')"
  shows "port_inv pa'" "unowned pa' (rtp q)" "unowned pa' (rtcp q)" "owned_by pa' [] (rtp q)"
    "owned_by pa' [] (rtcp q)" "pair_ok (pa_config pa) q" "pa_config pa' = pa_config pa"
    "pa_pairPool pa' = pa_pairPool pa" "rtp q \<noteq> rtcp q"
    "\<exists>pa1. tryReservePortPair bind now (rtp q) pa = Some pa1" "pa_released pa' = pa_released pa"
proof -
  let ?c = "pa_config pa"
  obtain p pa1 from' stop where s: "scanPair bind now from' stop pa = Some (p, pa1)" "stop \<le> MaxPort ?c - 1"
    and from': "from' = pa_nextPort pa \<or> from' = wrapStart ?c"
    and q: "q = \<lparr>rtp = p, rtcp = p + 1\<rparr>" "pa' = pa1\<lparr>pa_nextPort := p + 2\<rparr>"
    using f by (fastforce simp: findAvailablePortPair_def Let_def split: option.splits)
  have hint: "wrapStart ?c \<le> pa_nextPort pa" "EvenOnly ?c \<longrightarrow> even (pa_nextPort pa)"
    using inv by (simp_all add: port_inv_def hint_inv_def)
  have p: "tryReservePortPair bind now p pa = Some pa1" "from' \<le> p" "p < MaxPort ?c - 1" "even p \<longleftrightarrow> even from'"
    using scanPair_SomeD [OF s(1)] s(2) by auto
  note r = port_inv_reserve [OF inv p(1)]
  show ok: "pair_ok (pa_config pa) q"
    using p(2-4) from' hint wrapStart_ge [of ?c] wrapStart_even [of ?c] q(1) by (auto simp: pair_ok_def)
  show "port_inv pa'"
    using r(1,6) p(2,4) from' hint wrapStart_even [of ?c] q(2)
    by (auto simp: inv_defs hint_inv_def)
  show "unowned pa' (rtp q)" "unowned pa' (rtcp q)" "owned_by pa' [] (rtp q)" "owned_by pa' [] (rtcp q)"
    "pa_config pa' = pa_config pa" "pa_pairPool pa' = pa_pairPool pa" "rtp q \<noteq> rtcp q"
    "\<exists>pa1. tryReservePortPair bind now (rtp q) pa = Some pa1" "pa_released pa' = pa_released pa"
    using r p(1) by (simp_all add: q owned_by_def)
qed

lemma port_inv_push:
  assumes "port_inv pa" "unowned pa (rtp q)" "unowned pa (rtcp q)" "owned_by pa [] (rtp q)"
    "owned_by pa [] (rtcp q)" "pair_ok (pa_config pa) q"
  shows "port_inv (pa\<lparr>pa_pairPool := pa_pairPool pa @ [q]\<rparr>)"
proof -
  have "rtp q \<noteq> rtcp q" using assms(6) by (simp add: pair_ok_def)
  then show ?thesis using assms by (auto simp: inv_defs hint_inv_def)
qed

lemma port_inv_mark:
  assumes "port_inv pa" "unowned pa p"
  shows "port_inv (markPortAvailable p pa)"
  using assms by (auto simp: inv_defs hint_inv_def split: option.splits)

lemma unowned_mark: "port_inv pa \<Longrightarrow> unowned pa p \<Longrightarrow> unowned (markPortAvailable p' pa) p"
  by (auto simp: inv_defs split: option.splits)

lemma port_inv_refillLoop: "port_inv pa \<Longrightarrow> port_inv (refillLoop bind now n pa)"
proof (induction n arbitrary: pa)
  case (Suc n)
  show ?case
  proof (cases "findAvailablePortPair bind now pa")
    case (Some r)
    obtain q pa1 where r: "r = (q, pa1)" by (cases r)
    note f = findAvailablePortPair_SomeD [OF Suc.prems Some [unfolded r]]
    have "port_inv (pa1\<lparr>pa_pairPool := pa_pairPool pa1 @ [q]\<rparr>)"
      using port_inv_push [OF f(1-5)] f(6,7) by simp
    moreover have "port_inv (markPortAvailable (rtcp q) (markPortAvailable (rtp q) pa1))"
      using f(1-3) by (intro port_inv_mark unowned_mark)
    ultimately show ?thesis using Some r Suc.IH by simp
  qed (use Suc.prems in simp)
qed simp

lemma port_inv_refill [wf_intros]: "port_inv pa \<Longrightarrow> port_inv (poolRefiller bind now pa)"
  by (simp add: poolRefiller_def refillPool_def Let_def port_inv_refillLoop)

lemma port_inv_clean [wf_intros]: "port_inv pa \<Longrightarrow> port_inv (releasedCleaner now pa)"
  by (auto simp: releasedCleaner_def inv_defs hint_inv_def split: option.splits if_splits)

text \<open>Taking both ports of a pair that nobody owns.\<close>

lemma take_pair:
  assumes "port_inv pa" "unowned pa (rtp q)" "unowned pa (rtcp q)" "rtp q \<noteq> rtcp q" "s \<noteq> []"
    and pa': "pa' = recordAllocation now (rtcp q) s False (recordAllocation now (rtp q) s False pa)"
  shows "port_inv pa'" "owned_by pa' s (rtp q)" "owned_by pa' s (rtcp q)"
proof -
  show "port_inv pa'" unfolding pa'
    using assms(1-5) by (intro port_inv_record unowned_record) auto
  have "shards_ok pa" using assms(1) by (simp add: port_inv_def)
  then show "owned_by pa' s (rtp q)" "owned_by pa' s (rtcp q)"
    using assms(4) by (simp_all add: pa' owned_by_def)
qed

lemma unowned_not_owned: "port_inv pa \<Longrightarrow> unowned pa p \<Longrightarrow> t \<noteq> [] \<Longrightarrow> \<not> owned_by pa t p"
  by (auto simp: unowned_def owned_by_def)

lemma AllocatePortPair_ok:
  assumes inv: "port_inv pa" and s: "s \<noteq> []"
    and a: "AllocatePortPair bind now s pa = (Inr (x, y), pa')"
  shows "port_inv pa'" "pair_ok (pa_config pa) \<lparr>rtp = x, rtcp = y\<rparr>"
    "owned_by pa' s x" "owned_by pa' s y" "pa_released pa x = None" "pa_released pa y = None"
    "t \<noteq> [] \<Longrightarrow> \<not> owned_by pa t x \<and> \<not> owned_by pa t y" "pa_config pa' = pa_config pa"
proof -
  obtain q pa1 where q: "x = rtp q" "y = rtcp q"
      "pa' = recordAllocation now (rtcp q) s False (recordAllocation now (rtp q) s False pa1)"
    and inv1: "port_inv pa1" "unowned pa1 (rtp q)" "unowned pa1 (rtcp q)" "rtp q \<noteq> rtcp q"
    and ok: "pair_ok (pa_config pa) q" "pa_config pa1 = pa_config pa" "pa_released pa1 = pa_released pa"
    and old: "\<And>t z. t \<noteq> [] \<Longrightarrow> z \<in> {rtp q, rtcp q} \<Longrightarrow> \<not> owned_by pa t z"
  proof (cases "pa_pairPool pa")
    case (Cons q qs)
    let ?pa = "pa\<lparr>pa_pairPool := qs, pa_poolHits := pa_poolHits pa + 1\<rparr>"
    note pop = port_inv_pop [OF inv Cons]
    have "\<not> owned_by pa t z" if "t \<noteq> []" "z \<in> {rtp q, rtcp q}" for t z
      using inv Cons that by (auto simp: inv_defs)
    then show ?thesis
      using that [of q ?pa] pop a Cons
      by (auto simp: AllocatePortPair_def Let_def split: if_splits)
  next
    case Nil
    let ?pa = "pa\<lparr>pa_poolMisses := pa_poolMisses pa + 1\<rparr>"
    from a Nil obtain q pa1 where f: "findAvailablePortPair bind now ?pa = Some (q, pa1)"
      and q: "x = rtp q" "y = rtcp q"
        "pa' = recordAllocation now (rtcp q) s False (recordAllocation now (rtp q) s False pa1)"
      by (auto simp: AllocatePortPair_def Let_def split: if_splits option.splits)
    have "port_inv ?pa" using inv by simp
    note g = findAvailablePortPair_SomeD [OF this f]
    obtain pa2 where t: "tryReservePortPair bind now (rtp q) ?pa = Some pa2" using g(10) by blast
    have "rtcp q = rtp q + 1" using g(6) by (simp add: pair_ok_def)
    then have "\<not> owned_by pa t z" if "t \<noteq> []" "z \<in> {rtp q, rtcp q}" for t z
      using tryReserve_SomeD(2,3) [OF t] that by (auto simp: owned_by_def)
    then show ?thesis using that [of q pa1] g q by simp
  qed
  show "port_inv pa'" "owned_by pa' s x" "owned_by pa' s y"
    using take_pair [OF inv1 s] by (simp_all add: q)
  show "pair_ok (pa_config pa) \<lparr>rtp = x, rtcp = y\<rparr>" using ok(1) by (simp add: pair_ok_def q)
  show "pa_released pa x = None" "pa_released pa y = None"
    using inv1(2,3) ok(3) by (simp_all add: q unowned_def)
  show "t \<noteq> [] \<Longrightarrow> \<not> owned_by pa t x \<and> \<not> owned_by pa t y" using old by (simp add: q)
  show "pa_config pa' = pa_config pa" using ok(2) by (simp add: q)
qed

lemma port_inv_AllocatePortPair [wf_intros]:
  assumes "port_inv pa" "s \<noteq> []"
  shows "port_inv (snd (AllocatePortPair bind now s pa))"
proof (cases "AllocatePortPair bind now s pa")
  case (Pair r pa')
  show ?thesis
  proof (cases r)
    case (Inl e)
    then show ?thesis
      using Pair assms(1) by (auto simp: AllocatePortPair_def Let_def split: if_splits list.splits option.splits)
  next
    case (Inr xy)
    then show ?thesis using AllocatePortPair_ok(1) [OF assms, of bind now "fst xy" "snd xy" pa'] Pair by simp
  qed
qed

lemma scanPort_SomeD:
  "scanPort bind now s conn step port stop pa = Some (p, pa') \<Longrightarrow>
     tryAllocatePort bind now s conn p pa = Some pa' \<and> port \<le> p \<and> p < stop \<and> step dvd (p - port)"
proof (induction bind now s conn step port stop pa rule: scanPort.induct)
  case (1 bind now s conn step port stop pa)
  have cond: "port < stop \<and> 0 < step"
    using "1.prems" by (simp add: scanPort.simps [of bind now s conn step port] split: if_splits)
  show ?case
  proof (cases "tryAllocatePort bind now s conn port pa")
    case None
    with "1.prems" cond have "scanPort bind now s conn step (port + step) stop pa = Some (p, pa')"
      by (simp add: scanPort.simps [of bind now s conn step port])
    note IH = "1.IH" [OF cond None this]
    then have "step dvd (p - (port + step)) + step" by (intro dvd_add) simp_all
    with IH cond show ?thesis by (simp add: algebra_simps)
  next
    case (Some pa1)
    with "1.prems" cond show ?thesis by (simp add: scanPort.simps [of bind now s conn step port])
  qed
qed

lemma tryAllocatePort_inv:
  assumes "port_inv pa" "s \<noteq> []" "tryAllocatePort bind now s conn p pa = Some pa'"
  shows "port_inv pa'"
proof -
  have "unowned pa p" "pa' = recordAllocation now p s conn pa"
    using assms(1,3) pool_port_allocated [OF assms(1)]
    by (auto simp: tryAllocatePort_def unowned_def split: if_splits)
  then show ?thesis using port_inv_record [OF assms(1) _ assms(2)] by simp
qed

lemma port_inv_hint:
  "port_inv pa \<Longrightarrow> wrapStart (pa_config pa) \<le> p \<Longrightarrow> (EvenOnly (pa_config pa) \<Longrightarrow> even p) \<Longrightarrow>
     port_inv (pa\<lparr>pa_nextPort := p\<rparr>)"
  by (auto simp: inv_defs hint_inv_def)

lemma port_inv_AllocateWithConnection [wf_intros]:
  assumes "port_inv pa" "s \<noteq> []"
  shows "port_inv (snd (AllocateWithConnection bind now s pa))"
proof (cases "scanPort bind now s True (portStep (pa_config pa)) (pa_nextPort pa) (MaxPort (pa_config pa) + 1) pa")
  case None
  then show ?thesis using assms(1) by (simp add: AllocateWithConnection_def)
next
  case (Some r)
  obtain p pa1 where r: "r = (p, pa1)" by (cases r)
  note d = scanPort_SomeD [OF Some [unfolded r]]
  have "pa_config pa1 = pa_config pa"
    using d by (auto simp: tryAllocatePort_def split: if_splits)
  moreover have "port_inv pa1" using tryAllocatePort_inv [OF assms] d by blast
  moreover have "wrapStart (pa_config pa) \<le> p" "EvenOnly (pa_config pa) \<Longrightarrow> even p"
    using d assms(1) by (auto simp: port_inv_def hint_inv_def portStep_def)
  ultimately have "port_inv (pa1\<lparr>pa_nextPort := p + portStep (pa_config pa)\<rparr>)"
    by (intro port_inv_hint) (auto simp: portStep_def)
  then show ?thesis using Some r assms(1) by (simp add: AllocateWithConnection_def Let_def)
qed

lemma ReleasePort_effect:
  assumes "port_inv pa" "owned_by pa s p" "s \<noteq> []"
  obtains pa' where "ReleasePort now p pa = (None, pa')" "port_inv pa'"
    "allocated pa' = (allocated pa)(p := None)" "pa_released pa' = (pa_released pa)(p \<mapsto> now)"
    "sessionPorts pa' = (sessionPorts pa)(s := remove1 p (sessionPorts pa s))"
    "pa_config pa' = pa_config pa" "pa_pairPool pa' = pa_pairPool pa"
proof -
  obtain i where i: "allocated pa p = Some i" "pi_sessionID i = s" using assms(2) by (auto simp: owned_by_def)
  define pa' where "pa' = snd (ReleasePort now p pa)"
  have ok: "shards_ok pa" using assms(1) by (simp add: port_inv_def)
  then have eff: "ReleasePort now p pa = (None, pa')" "allocated pa' = (allocated pa)(p := None)"
      "pa_released pa' = (pa_released pa)(p \<mapsto> now)"
      "sessionPorts pa' = (sessionPorts pa)(s := remove1 p (sessionPorts pa s))"
      "shards_ok pa'" "pa_pairPool pa' = pa_pairPool pa" "pa_config pa' = pa_config pa"
      "pa_nextPort pa' = pa_nextPort pa" "pa_pending pa' = pa_pending pa"
    using assms(3) i unfolding pa'_def ReleasePort_def by (simp_all add: Let_def)
  have np: "p \<notin> set (pair_ports (pa_pairPool pa))"
    using assms i by (auto simp: inv_defs)
  have "owned_by pa' t x \<longleftrightarrow> x \<noteq> p \<and> owned_by pa t x" for t x
    by (auto simp: owned_by_def eff)
  moreover have "distinct (sessionPorts pa s)" using assms(1,3) by (simp add: port_inv_def session_inv_def)
  ultimately have "session_inv pa'"
    using assms(1,2,3) i by (auto simp: port_inv_def session_inv_def eff owned_by_def)
  moreover have "pool_inv pa'" "hint_inv pa'"
    using assms(1) np by (auto simp: port_inv_def pool_inv_def hint_inv_def eff owned_by_def)
  ultimately have "port_inv pa'" using assms(1) by (auto simp: port_inv_def eff)
  then show ?thesis using that eff by blast
qed

lemma releaseAll_session:
  assumes "port_inv pa" "s \<noteq> []" "sessionPorts pa s = ps"
  shows "\<exists>pa'. releaseAll now ps e pa = (e, pa') \<and> port_inv pa' \<and> sessionPorts pa' s = [] \<and>
     (\<forall>t. t \<noteq> s \<longrightarrow> sessionPorts pa' t = sessionPorts pa t) \<and>
     (\<forall>x. allocated pa' x = (if x \<in> set ps then None else allocated pa x)) \<and>
     (\<forall>x. pa_released pa' x = (if x \<in> set ps then Some now else pa_released pa x))"
  using assms
proof (induction ps arbitrary: pa)
  case (Cons p ps)
  have "owned_by pa s p" using Cons.prems by (metis list.set_intros(1) port_inv_def session_inv_def)
  then obtain pa1 where r: "ReleasePort now p pa = (None, pa1)" "port_inv pa1"
      "allocated pa1 = (allocated pa)(p := None)" "pa_released pa1 = (pa_released pa)(p \<mapsto> now)"
      "sessionPorts pa1 = (sessionPorts pa)(s := remove1 p (sessionPorts pa s))"
    using ReleasePort_effect [OF Cons.prems(1) _ Cons.prems(2)] by metis
  then have "sessionPorts pa1 s = ps" using Cons.prems(3) by simp
  from Cons.IH [OF r(2) Cons.prems(2) this] show ?case by (auto simp: r)
qed auto

section \<open>Runs of the allocator\<close>

text \<open>
  The steps of clients that allocate pairs or bound ports for named sessions and release only
  ports they own, interleaved with the refiller and the cleaner. \<^verbatim>\<open>AllocatePort\<close> is not among
  them: it breaks the invariant, as \<open>single_port_breaks_pairs\<close> shows.
\<close>

inductive pa_step :: "PortAllocator \<Rightarrow> PortAllocator \<Rightarrow> bool" where
  pair: "s \<noteq> [] \<Longrightarrow> pa_step pa (snd (AllocatePortPair bind now s pa))"
| connection: "s \<noteq> [] \<Longrightarrow> pa_step pa (snd (AllocateWithConnection bind now s pa))"
| release: "s \<noteq> [] \<Longrightarrow> p \<in> set (sessionPorts pa s) \<Longrightarrow> pa_step pa (snd (ReleasePort now p pa))"
| release_session: "s \<noteq> [] \<Longrightarrow> pa_step pa (snd (ReleaseSessionPorts now s pa))"
| refill: "pa_step pa (poolRefiller bind now pa)"
| clean: "pa_step pa (releasedCleaner now pa)"

inductive pa_reach :: "PortAllocator \<Rightarrow> bool" where
  new: "pa_reach (NewPortAllocator c)"
| step: "pa_reach pa \<Longrightarrow> pa_step pa pa' \<Longrightarrow> pa_reach pa'"

lemma session_port_owned: "port_inv pa \<Longrightarrow> s \<noteq> [] \<Longrightarrow> p \<in> set (sessionPorts pa s) \<longleftrightarrow> owned_by pa s p"
  by (simp add: port_inv_def session_inv_def)

lemma port_inv_step:
  assumes "pa_step pa pa'" "port_inv pa"
  shows "port_inv pa'"
  using assms
proof (induction rule: pa_step.induct)
  case (release s p pa now)
  then have "owned_by pa s p" by (simp add: session_port_owned)
  with release obtain pa1 where "ReleasePort now p pa = (None, pa1)" "port_inv pa1"
    using ReleasePort_effect by metis
  then show ?case by simp
next
  case (release_session s pa now)
  then obtain pa1 where "releaseAll now (sessionPorts pa s) None pa = (None, pa1)" "port_inv pa1"
    using releaseAll_session by metis
  then show ?case by (simp add: ReleaseSessionPorts_def)
qed (auto intro: wf_intros)

lemma pa_reach_inv: "pa_reach pa \<Longrightarrow> port_inv pa"
  by (induction rule: pa_reach.induct) (auto intro: port_inv_New port_inv_step)


text \<open>A small allocator after one refill, and after its first pair has been handed out.\<close>

definition sample_config :: PortAllocatorConfig where
  "sample_config = \<lparr>MinPort = 10000, MaxPort = 20000, ReserveCount = 2, ReuseDelay = 2 * second,
     MaxAllocations = 4, EvenOnly = True\<rparr>"

definition sample_pa :: PortAllocator where
  "sample_pa = poolRefiller (\<lambda>_. True) 7 (NewPortAllocator (Some sample_config))"

definition sample_pa' :: PortAllocator where
  "sample_pa' = snd (AllocatePortPair (\<lambda>_. True) 8 ''a'' sample_pa)"

lemma NewPortAllocator_config [simp]: "pa_config (NewPortAllocator (Some c)) = c"
  by (simp add: NewPortAllocator_def Let_def)

lemma sample_pa_simps [simp]:
  "pa_pairPool sample_pa = [\<lparr>rtp = 10000, rtcp = 10001\<rparr>, \<lparr>rtp = 10002, rtcp = 10003\<rparr>]"
  "shards_ok sample_pa" "pa_closed sample_pa = False" "pa_pending sample_pa = []"
  "pa_config sample_pa = sample_config" "sessionPorts sample_pa s = []"
  by (simp_all add: sample_pa_def poolRefiller_def refillPool_def sample_config_def Let_def numeral_2_eq_2
      findAvailablePortPair_def wrapStart_def scanPair.simps tryReservePortPair_def)


lemma sample_pa'_ports [simp]: "sessionPorts sample_pa' ''a'' = [10000, 10001]"
  by (simp add: sample_pa'_def AllocatePortPair_def Let_def sample_config_def)

lemma sample_reach [intro]: "pa_reach sample_pa" "pa_reach sample_pa'"
proof -
  show "pa_reach sample_pa"
    unfolding sample_pa_def by (rule pa_reach.step [OF pa_reach.new pa_step.refill])
  then show "pa_reach sample_pa'"
    unfolding sample_pa'_def by (rule pa_reach.step) (rule pa_step.pair, simp)
qed

section \<open>Properties of the allocator\<close>





text \<open>C9. Releasing a session gives every one of its ports back: no error is reported, the
  session owns nothing afterwards, its ports enter quarantine at that time, and no other
  session loses a port.\<close>

theorem release_session_complete:
  assumes "pa_reach pa" and "s \<noteq> []"
  shows "\<exists>pa'. ReleaseSessionPorts now s pa = (None, pa') \<and> sessionPorts pa' s = [] \<and>
    (\<forall>p \<in> set (sessionPorts pa s). allocated pa' p = None \<and> pa_released pa' p = Some now) \<and>
    (\<forall>t. t \<noteq> s \<longrightarrow> sessionPorts pa' t = sessionPorts pa t)"
  using releaseAll_session [OF pa_reach_inv [OF assms(1)] assms(2) refl, of now None]
  by (auto simp: ReleaseSessionPorts_def)

theorem release_session_complete_witness:
  "\<exists>pa'. ReleaseSessionPorts 9 ''a'' sample_pa' = (None, pa') \<and> sessionPorts pa' ''a'' = [] \<and>
     pa_released pa' 10000 = Some 9"
  using release_session_complete [OF sample_reach(2), of "''a''" 9] by auto





end
