(* ===== verification/NG_Listener.thy ===== *)
theory NG_Listener
  imports NG_Message SDP Session_Registry Port_Allocator
begin

text \<open>
  The listener of the NG protocol, \<^verbatim>\<open>internal/ng_socket_listener.go\<close>: \<^verbatim>\<open>processMessage\<close> and the
  command handlers it dispatches to. They compose the message codec, the description parser, the
  session registry and the port allocator. The server of \<^verbatim>\<open>services.go\<close> runs these handlers and registers
  no others.

  A handler is a function of the environment of one call (the clock, the identifier that
  \<^verbatim>\<open>uuid.New\<close> would make, which ports the operating system can bind, the order in which a range visits
  the session map, and the configured addresses), the request, and the state that the handlers share.
  A handler error is \<open>Inl\<close>; a panic of \<^verbatim>\<open>processMessage\<close> is \<open>None\<close>. Sockets, goroutines and logging
  are left out.
\<close>

section \<open>State\<close>

record NGState =
  ng_sessionRegistry :: SessionRegistry
  ng_portAllocator :: PortAllocator

record NGEnv =
  env_now :: gtime
  env_uuid :: string
  env_bind :: "int \<Rightarrow> bool"
  env_order :: "string list"
  env_PublicIP :: string
  env_MediaIP :: string

type_synonym 'f NGCommandHandler = "NGEnv \<Rightarrow> 'f NGRequest \<Rightarrow> NGState \<Rightarrow> (string + 'f NGResponse) \<times> NGState"

definition errorReply :: "string \<Rightarrow> 'f NGResponse" where
  "errorReply reason = NGResponse0\<lparr>resp_Result := ''error'', resp_ErrorReason := reason\<rparr>"

definition okReply :: "'f NGResponse" where
  "okReply = NGResponse0\<lparr>resp_Result := ''ok''\<rparr>"

abbreviation ErrReasonNotFound :: string where "ErrReasonNotFound \<equiv> ''Call-ID not found''"
abbreviation ErrReasonInternal :: string where "ErrReasonInternal \<equiv> ''Internal error''"
abbreviation ErrReasonUnsupported :: string where "ErrReasonUnsupported \<equiv> ''Unsupported operation''"
abbreviation ErrReasonMissingParam :: string where "ErrReasonMissingParam \<equiv> ''Missing required parameter''"

fun port_error_text :: "port_error \<Rightarrow> string" where
  "port_error_text ErrNoPortsAvailable = ''no ports available in range''"
| "port_error_text ErrPortInUse = ''port already in use''"
| "port_error_text ErrPortOutOfRange = ''port out of allowed range''"
| "port_error_text ErrPortPoolExhausted = ''port pool exhausted''"
| "port_error_text ErrPortAllocationLimit = ''port allocation limit reached''"
| "port_error_text ErrAllocatorClosed = ''port allocator is closed''"

definition localAddress :: "NGEnv \<Rightarrow> string" where
  "localAddress env =
     (let ip = (if env_PublicIP env = [] then env_MediaIP env else env_PublicIP env) in
      if ip = [] then ''127.0.0.1'' else ip)"

section \<open>Offer and answer\<close>

text \<open>The checks of the required parameters, in the order of the code.\<close>

definition missingParam :: "'f NGRequest \<Rightarrow> string option" where
  "missingParam req =
     (if req_CallID req = [] then Some '': call-id''
      else if req_FromTag req = [] then Some '': from-tag''
      else if req_SDP req = [] then Some '': sdp''
      else None)"

definition mediaStream :: "string \<Rightarrow> int \<Rightarrow> parsedSDPInfo \<Rightarrow> string list \<Rightarrow> StreamInfo" where
  "mediaStream localIP rtpPort parsed flags =
     \<lparr>strm_LocalIP = localIP, strm_LocalPort = rtpPort, strm_LocalRTCPPort = rtpPort + 1,
      strm_MediaType = sdp_MediaType parsed, strm_Protocol = determineProtocol parsed flags, strm_Index = 0,
      strm_Flags = [], strm_ICECandidates = [], strm_ICEUfrag = [], strm_ICEPwd = [], strm_CryptoSuite = [],
      strm_SRTPKey = [], strm_Fingerprint = [], strm_FingerprintHash = [], strm_Setup = []\<rparr>"

text \<open>What both handlers do once the session is known and its state is updated: read the description,
  allocate a port and build the reply. \<open>toTag\<close> is the tag that the reply carries.\<close>

definition mediaReply :: "NGEnv \<Rightarrow> 'f NGRequest \<Rightarrow> string \<Rightarrow> string \<Rightarrow> NGState \<Rightarrow> (string + 'f NGResponse) \<times> NGState" where
  "mediaReply env req toTag sid st =
     (let parsed = parseSDP (req_SDP req) in
      case AllocatePort (env_bind env) (env_now env) sid (ng_portAllocator st) of
        (Inl err, pa) \<Rightarrow>
          (Inr (errorReply (''failed to allocate port: '' @ port_error_text err)), st\<lparr>ng_portAllocator := pa\<rparr>)
      | (Inr rtpPort, pa) \<Rightarrow>
          let localIP = localAddress env in
          (Inr (NGResponse0\<lparr>resp_Result := ''ok'', resp_SDP := buildResponseSDP parsed localIP rtpPort (req_Flags req),
                  resp_CallID := req_CallID req, resp_FromTag := req_FromTag req, resp_ToTag := toTag,
                  resp_Streams := [mediaStream localIP rtpPort parsed (req_Flags req)]\<rparr>),
           st\<lparr>ng_portAllocator := pa\<rparr>))"

definition setState :: "NGEnv \<Rightarrow> string \<Rightarrow> SessionState \<Rightarrow> SessionRegistry \<Rightarrow> SessionRegistry" where
  "setState env sid state sr = snd (snd (UpdateSessionState (env_now env) sid state sr))"

definition handleOffer :: "'f NGCommandHandler" where
  "handleOffer env req st =
     (case missingParam req of
        Some p \<Rightarrow> (Inr (errorReply (ErrReasonMissingParam @ p)), st)
      | None \<Rightarrow>
          let sr = ng_sessionRegistry st;
              (session, sr1) = (case GetSessionByTags (req_CallID req) (req_FromTag req) (req_ToTag req) sr of
                 Some s \<Rightarrow> (s, sr)
               | None \<Rightarrow> CreateSession (env_now env) (env_uuid env) (req_CallID req) (req_FromTag req) sr)
          in mediaReply env req [] (ms_ID session)
               (st\<lparr>ng_sessionRegistry := setState env (ms_ID session) SessionStatePending sr1\<rparr>))"

definition handleAnswer :: "'f NGCommandHandler" where
  "handleAnswer env req st =
     (case missingParam req of
        Some p \<Rightarrow> (Inr (errorReply (ErrReasonMissingParam @ p)), st)
      | None \<Rightarrow>
          (case GetSessionByTags (req_CallID req) (req_FromTag req) (req_ToTag req) (ng_sessionRegistry st) of
             None \<Rightarrow> (Inr (errorReply ErrReasonNotFound), st)
           | Some session \<Rightarrow>
               mediaReply env req (req_ToTag req) (ms_ID session)
                 (st\<lparr>ng_sessionRegistry := setState env (ms_ID session) SessionStateActive (ng_sessionRegistry st)\<rparr>)))"

section \<open>Delete, query, list and statistics\<close>

definition endSession :: "NGEnv \<Rightarrow> string \<Rightarrow> SessionRegistry \<Rightarrow> SessionRegistry" where
  "endSession env sid sr = snd (DeleteSession sid (setState env sid SessionStateTerminated sr))"

definition handleDelete :: "'f NGCommandHandler" where
  "handleDelete env req st =
     (if req_CallID req = [] then (Inr (errorReply (ErrReasonMissingParam @ '': call-id'')), st)
      else let sessions = GetSessionByCallID (req_CallID req) (ng_sessionRegistry st) in
        if sessions = [] then (Inr (errorReply ErrReasonNotFound), st)
        else (Inr okReply,
              st\<lparr>ng_sessionRegistry := fold (endSession env) (map ms_ID sessions) (ng_sessionRegistry st)\<rparr>))"

definition lookupSession :: "'f NGRequest \<Rightarrow> SessionRegistry \<Rightarrow> MediaSession option" where
  "lookupSession req sr =
     (case GetSessionByTags (req_CallID req) (req_FromTag req) (req_ToTag req) sr of
        Some s \<Rightarrow> Some s
      | None \<Rightarrow> (case GetSessionByCallID (req_CallID req) sr of [] \<Rightarrow> None | s # _ \<Rightarrow> Some s))"

definition findSession :: "'f NGRequest \<Rightarrow> SessionRegistry \<Rightarrow> MediaSession option" where
  "findSession req sr = (if req_CallID req = [] then None else lookupSession req sr)"

definition handleQuery :: "'f NGCommandHandler" where
  "handleQuery env req st =
     (if req_CallID req = [] then (Inr (errorReply (ErrReasonMissingParam @ '': call-id'')), st)
      else case lookupSession req (ng_sessionRegistry st) of
        None \<Rightarrow> (Inr (errorReply ErrReasonNotFound), st)
      | Some s \<Rightarrow>
          (Inr (NGResponse0\<lparr>resp_Result := ''ok'', resp_CallID := ms_CallID s, resp_FromTag := ms_FromTag s,
                  resp_ToTag := ms_ToTag s, resp_Created := Unix (ms_CreatedAt s), resp_LastSignal := Unix (ms_UpdatedAt s)\<rparr>), st))"

definition call_entry :: "MediaSession \<Rightarrow> 'f go_value" where
  "call_entry s = GMap [(''call-id'', GString (ms_CallID s)), (''from-tag'', GString (ms_FromTag s)),
     (''to-tag'', GString (ms_ToTag s)), (''state'', GString (ms_State s))]"

definition handleList :: "'f NGCommandHandler" where
  "handleList env req st =
     (let calls = map call_entry (ListSessions (env_order env) (ng_sessionRegistry st)) in
      (Inr (NGResponse0\<lparr>resp_Result := ''ok'',
              resp_Extra := [(''calls'', GList calls), (''count'', go_int (int (length calls)))]\<rparr>), st))"

definition handleStatistics :: "'f NGCommandHandler" where
  "handleStatistics env req st =
     (let stats = Session_Registry.GetStats (ng_sessionRegistry st) in
      (Inr (NGResponse0\<lparr>resp_Result := ''ok'', resp_Extra :=
         [(''total_sessions'', go_int (int (total_sessions stats))), (''active_sessions'', go_int (int (active_sessions stats))),
          (''pending_sessions'', go_int (int (pending_sessions stats))),
          (''terminated_sessions'', go_int (int (terminated_sessions stats)))]\<rparr>), st))"

section \<open>Recording, DTMF and media control\<close>

text \<open>The shape that these handlers share: find the session, change it, report success.\<close>

definition onSession :: "('f NGRequest \<Rightarrow> MediaSession \<Rightarrow> MediaSession) \<Rightarrow> 'f NGCommandHandler" where
  "onSession f env req st =
     (case findSession req (ng_sessionRegistry st) of
        None \<Rightarrow> (Inr (errorReply ErrReasonNotFound), st)
      | Some s \<Rightarrow> (Inr okReply, st\<lparr>ng_sessionRegistry := setSession (f req s) (ng_sessionRegistry st)\<rparr>))"

definition handleStartRecording :: "'f NGCommandHandler" where
  "handleStartRecording = onSession (\<lambda>req. SetFlag ''recording'' True)"

definition handleStopRecording :: "'f NGCommandHandler" where
  "handleStopRecording = onSession (\<lambda>req. SetFlag ''recording'' False)"

definition handlePauseRecording :: "'f NGCommandHandler" where
  "handlePauseRecording = onSession (\<lambda>req. SetFlag ''recording_paused'' True)"

definition handleBlockDTMF :: "'f NGCommandHandler" where
  "handleBlockDTMF = onSession (\<lambda>req. SetFlag ''dtmf_blocked'' True)"

definition handleUnblockDTMF :: "'f NGCommandHandler" where
  "handleUnblockDTMF = onSession (\<lambda>req. SetFlag ''dtmf_blocked'' False)"

definition handlePlayDTMF :: "'f NGCommandHandler" where
  "handlePlayDTMF env req st =
     (if findSession req (ng_sessionRegistry st) \<noteq> None \<and> req_DTMFDigit req = []
      then (Inr (errorReply (ErrReasonMissingParam @ '': digit'')), st)
      else onSession (\<lambda>req. SetMetadata ''pending_dtmf'' (req_DTMFDigit req)) env req st)"

definition handleBlockMedia :: "'f NGCommandHandler" where
  "handleBlockMedia = onSession (\<lambda>req. SetFlag ''media_blocked'' True)"

definition handleUnblockMedia :: "'f NGCommandHandler" where
  "handleUnblockMedia = onSession (\<lambda>req. SetFlag ''media_blocked'' False)"

definition handleSilenceMedia :: "'f NGCommandHandler" where
  "handleSilenceMedia = onSession (\<lambda>req. SetFlag ''media_silenced'' True)"

definition handleStartForwarding :: "'f NGCommandHandler" where
  "handleStartForwarding =
     onSession (\<lambda>req s. SetMetadata ''forward_address'' (req_ForwardAddress req) (SetFlag ''forwarding'' True s))"

definition handleStopForwarding :: "'f NGCommandHandler" where
  "handleStopForwarding = onSession (\<lambda>req. SetFlag ''forwarding'' False)"

definition handlePlayMedia :: "'f NGCommandHandler" where
  "handlePlayMedia = onSession (\<lambda>req. SetFlag ''playing_media'' True)"

definition handleStopMedia :: "'f NGCommandHandler" where
  "handleStopMedia = onSession (\<lambda>req. SetFlag ''playing_media'' False)"

section \<open>Dispatch\<close>

definition handlePing :: "'f NGCommandHandler" where
  "handlePing env req st = (Inr (NGResponse0\<lparr>resp_Result := ''pong''\<rparr>), st)"

definition registerBuiltinHandlers :: "(string \<times> 'f NGCommandHandler) list" where
  "registerBuiltinHandlers =
     [(''ping'', handlePing), (''offer'', handleOffer), (''answer'', handleAnswer), (''delete'', handleDelete),
      (''query'', handleQuery), (''list'', handleList), (''statistics'', handleStatistics),
      (''start recording'', handleStartRecording), (''stop recording'', handleStopRecording),
      (''pause recording'', handlePauseRecording), (''block DTMF'', handleBlockDTMF),
      (''unblock DTMF'', handleUnblockDTMF), (''play DTMF'', handlePlayDTMF), (''block media'', handleBlockMedia),
      (''unblock media'', handleUnblockMedia), (''silence media'', handleSilenceMedia),
      (''start forwarding'', handleStartForwarding), (''stop forwarding'', handleStopForwarding),
      (''play media'', handlePlayMedia), (''stop media'', handleStopMedia)]"

definition RegisterHandler ::
  "string \<Rightarrow> 'f NGCommandHandler \<Rightarrow> (string \<times> 'f NGCommandHandler) list \<Rightarrow> (string \<times> 'f NGCommandHandler) list" where
  "RegisterHandler command handler handlers = AList.update command handler handlers"

text \<open>\<^verbatim>\<open>resp, _ := ErrorResponse(...)\<close>: after an error the reply would be empty.\<close>

definition sendError :: "('f \<Rightarrow> nat \<Rightarrow> string) \<Rightarrow> string \<Rightarrow> string \<Rightarrow> string" where
  "sendError fmt cookie reason = (case ErrorResponse fmt cookie reason of Inl _ \<Rightarrow> [] | Inr resp \<Rightarrow> resp)"

text \<open>The only error of \<^verbatim>\<open>ToRequest\<close> is \<^verbatim>\<open>ErrNoCommand\<close>, so its text is that of the error.\<close>

definition processMessage ::
  "('f \<Rightarrow> nat \<Rightarrow> string) \<Rightarrow> (string \<times> 'f NGCommandHandler) list \<Rightarrow> NGEnv \<Rightarrow> string \<Rightarrow> UDPAddr option \<Rightarrow> NGState \<Rightarrow>
   (string \<times> NGState) option" where
  "processMessage fmt handlers env data from st =
     (case ParseMessage data from of
        Inl MessagePanic \<Rightarrow> None
      | Inl _ \<Rightarrow> Some (sendError fmt [] ErrReasonInternal, st)
      | Inr (msg :: 'f NGMessage) \<Rightarrow>
          (case ToRequest (env_now env) msg of
             Inl _ \<Rightarrow> Some (sendError fmt (msg_Cookie msg) ''no command in message'', st)
           | Inr req \<Rightarrow>
               (case map_of handlers (req_Command req) of
                  None \<Rightarrow> Some (sendError fmt (req_Cookie req) ErrReasonUnsupported, st)
                | Some handler \<Rightarrow>
                    (case handler env req st of
                       (Inl err, st') \<Rightarrow> Some (sendError fmt (req_Cookie req) err, st')
                     | (Inr response, st') \<Rightarrow>
                         (case BuildResponse fmt (req_Cookie req) response of
                            Inl _ \<Rightarrow> Some (sendError fmt (req_Cookie req) ErrReasonInternal, st')
                          | Inr respBytes \<Rightarrow> Some (respBytes, st'))))))"

section \<open>Replies\<close>

definition reply_ok :: "'f NGResponse \<Rightarrow> bool" where
  "reply_ok resp \<longleftrightarrow> resp_Result resp \<in> {''ok'', ''pong'', ''error''} \<and> (\<forall>(k, v) \<in> set (resp_Extra resp). good_value v) \<and>
     ''result'' \<notin> fst ` set (resp_Extra resp)"

lemma reply_ok_basic [simp]:
  "reply_ok (errorReply r)" "reply_ok okReply" "reply_ok (NGResponse0\<lparr>resp_Result := ''pong''\<rparr>)"
  by (simp_all add: reply_ok_def errorReply_def okReply_def NGResponse0_def)

definition replies :: "'f NGCommandHandler \<Rightarrow> bool" where
  "replies h \<longleftrightarrow> (\<forall>env req st. \<exists>resp. fst (h env req st) = Inr resp \<and> reply_ok resp)"

lemma mediaReply_replies [simp]: "\<exists>resp. fst (mediaReply env req t sid st) = Inr resp \<and> reply_ok resp"
  by (simp add: mediaReply_def Let_def reply_ok_def errorReply_def NGResponse0_def split: prod.split sum.split)

lemma handleOffer_replies: "replies handleOffer"
  by (simp add: replies_def handleOffer_def Let_def split_beta split: option.split)

lemma handleAnswer_replies: "replies handleAnswer"
  by (simp add: replies_def handleAnswer_def split: option.split)

lemma onSession_replies: "replies (onSession f)"
  by (simp add: replies_def onSession_def split: option.split)

lemma handlePlayDTMF_replies: "replies handlePlayDTMF"
  by (simp add: replies_def handlePlayDTMF_def onSession_replies [unfolded replies_def, rule_format])

lemma good_call_entry: "good_value (call_entry s)"
  by (simp add: call_entry_def good_value_def)

lemma good_GList: "\<forall>v \<in> set vs. good_value v \<Longrightarrow> good_value (GList vs)"
  by (auto simp: good_value_def list_all_iff)

lemma handleList_replies: "replies handleList"
  by (simp add: replies_def handleList_def reply_ok_def NGResponse0_def Let_def good_GList good_call_entry)

lemma small_handlers_reply: "replies handleDelete" "replies handleQuery" "replies handleStatistics" "replies handlePing"
  by (simp_all add: replies_def handleDelete_def handleQuery_def handleStatistics_def handlePing_def Let_def
      split: option.split) (simp_all add: reply_ok_def NGResponse0_def)

lemma builtin_replies: "list_all (\<lambda>(c, h). replies h) registerBuiltinHandlers"
  by (simp add: registerBuiltinHandlers_def handleOffer_replies handleAnswer_replies handlePlayDTMF_replies
      handleList_replies small_handlers_reply onSession_replies handleStartRecording_def handleStopRecording_def
      handlePauseRecording_def handleBlockDTMF_def handleUnblockDTMF_def handleBlockMedia_def handleUnblockMedia_def
      handleSilenceMedia_def handleStartForwarding_def handleStopForwarding_def handlePlayMedia_def handleStopMedia_def)

section \<open>What the handlers keep of the registry\<close>

text \<open>The handlers never set a to-tag.\<close>

definition reg_ok :: "SessionRegistry \<Rightarrow> bool" where
  "reg_ok sr \<longleftrightarrow> sr_inv sr \<and> (\<forall>sid s. live sr sid = Some s \<longrightarrow> ms_ToTag s = [])"

lemma CreateSession_ok:
  assumes "reg_ok sr" "live sr u = None"
  shows "reg_ok (snd (CreateSession now u c f sr))"
proof -
  have "live (snd (CreateSession now u c f sr)) = (live sr)(u \<mapsto> newSession now u c f)"
    by (simp add: CreateSession_def live_def update_conv' Let_def)
  then show ?thesis using assms CreateSession_inv [of sr u now c f] by (simp add: reg_ok_def newSession_def)
qed

lemma setSession_ok:
  assumes "reg_ok sr" "live sr sid = Some s" "same_identity s s'" "ms_ToTag s' = ms_ToTag s"
  shows "reg_ok (setSession s' sr)"
  using assms setSession_inv [of sr sid s s'] by (simp add: reg_ok_def)

lemma changeState_same: "same_identity s (changeState now st s)" "ms_ToTag (changeState now st s) = ms_ToTag s"
  by (simp_all add: same_identity_def changeState_def Let_def)

lemma setState_cases:
  "setState env sid st sr = (case live sr sid of None \<Rightarrow> sr | Some s \<Rightarrow> setSession (changeState (env_now env) st s) sr)"
  by (simp add: setState_def UpdateSessionState_def UpdateSessionStateTyped_def live_def split: option.split)

lemma setState_ok: "reg_ok sr \<Longrightarrow> reg_ok (setState env sid st sr)"
  using setSession_ok [of sr sid _ "changeState (env_now env) st _"] changeState_same
  by (simp add: setState_cases split: option.split)

lemma setState_live:
  assumes "reg_ok sr" "k \<noteq> sid"
  shows "live (setState env sid st sr) k = live sr k"
proof (cases "live sr sid")
  case None
  then show ?thesis by (simp add: setState_cases)
next
  case (Some s)
  then have "ms_ID (changeState (env_now env) st s) = sid"
    using assms(1) sr_invD(2) [of sr sid s] changeState_same(1) [of s "env_now env" st] by (simp add: reg_ok_def same_identity_def)
  with Some assms(2) show ?thesis by (simp add: setState_cases)
qed

lemma removeSessionLocked_ok: "reg_ok sr \<Longrightarrow> reg_ok (snd (removeSessionLocked sid sr))"
  using removeSessionLocked_inv [of sr sid] by (simp add: reg_ok_def)

lemma endSession_ok: "reg_ok sr \<Longrightarrow> reg_ok (endSession env sid sr)"
  by (simp add: endSession_def DeleteSession_def removeSessionLocked_ok setState_ok)

lemma endSession_live: "reg_ok sr \<Longrightarrow> live (endSession env sid sr) k = (if k = sid then None else live sr k)"
  by (simp add: endSession_def DeleteSession_def setState_live)

lemma endSessions:
  "reg_ok sr \<Longrightarrow> reg_ok (fold (endSession env) ids sr) \<and>
    live (fold (endSession env) ids sr) k = (if k \<in> set ids then None else live sr k)"
  by (induction ids arbitrary: sr) (simp_all add: endSession_ok endSession_live)

lemma cleanup_ok: "reg_ok sr \<Longrightarrow> reg_ok (cleanupStaleSessions now order sr)"
  using cleanup_inv [of sr now order]
  by (auto simp: reg_ok_def cleanup_live split: option.splits if_splits)

lemma GetSessionByTags_Some:
  assumes "reg_ok sr" "GetSessionByTags c f t sr = Some s"
  shows "live sr (ms_ID s) = Some s" "t = [] \<or> ms_ToTag s = t"
proof -
  have inv: "sr_inv sr" using assms(1) by (simp add: reg_ok_def)
  have "find (\<lambda>s. ms_FromTag s = f \<and> (t = [] \<or> ms_ToTag s = t)) (GetSessionByCallID c sr) = Some s"
    using assms(2) by (simp add: GetSessionByTags_def GetSessionByCallID_def)
  then have "s \<in> set (GetSessionByCallID c sr) \<and> (t = [] \<or> ms_ToTag s = t)" unfolding find_Some_iff by (metis nth_mem)
  then show "live sr (ms_ID s) = Some s" "t = [] \<or> ms_ToTag s = t"
    unfolding set_GetSessionByCallID [OF inv] by (simp_all add: all_sessions_iff [OF inv])
qed

lemma findSession_Some:
  assumes "reg_ok sr" "findSession req sr = Some s"
  shows "live sr (ms_ID s) = Some s"
proof (cases "GetSessionByTags (req_CallID req) (req_FromTag req) (req_ToTag req) sr")
  case None
  have inv: "sr_inv sr" using assms(1) by (simp add: reg_ok_def)
  have "s \<in> set (GetSessionByCallID (req_CallID req) sr)"
    using None assms(2) by (simp add: findSession_def lookupSession_def split: if_splits list.splits)
  then show ?thesis unfolding set_GetSessionByCallID [OF inv] by (simp add: all_sessions_iff [OF inv])
next
  case (Some s')
  then have "s' = s" using assms(2) by (simp add: findSession_def lookupSession_def split: if_splits)
  then show ?thesis using GetSessionByTags_Some(1) [OF assms(1)] Some by simp
qed

definition keeps :: "'f NGCommandHandler \<Rightarrow> bool" where
  "keeps h \<longleftrightarrow> (\<forall>env req st. reg_ok (ng_sessionRegistry st) \<longrightarrow> live (ng_sessionRegistry st) (env_uuid env) = None \<longrightarrow>
     reg_ok (ng_sessionRegistry (snd (h env req st))))"

lemma mediaReply_registry [simp]: "ng_sessionRegistry (snd (mediaReply env req t sid st)) = ng_sessionRegistry st"
  by (simp add: mediaReply_def Let_def split: prod.split sum.split)

lemma handleOffer_keeps: "keeps (handleOffer :: 'f NGCommandHandler)"
  unfolding keeps_def
proof (intro allI impI)
  fix env :: NGEnv and req :: "'f NGRequest" and st :: NGState
  assume ok: "reg_ok (ng_sessionRegistry st)" and fresh: "live (ng_sessionRegistry st) (env_uuid env) = None"
  note new = CreateSession_ok [OF ok fresh, of "env_now env" "req_CallID req" "req_FromTag req"]
  show "reg_ok (ng_sessionRegistry (snd (handleOffer env req st)))"
    using ok new by (simp add: handleOffer_def setState_ok Let_def split_beta split: option.split)
qed

lemma handleAnswer_keeps: "keeps handleAnswer"
  by (simp add: keeps_def handleAnswer_def setState_ok split: option.split)

lemma handleDelete_keeps: "keeps handleDelete"
  by (simp add: keeps_def handleDelete_def endSessions Let_def)

lemma onSession_keeps:
  fixes f :: "'a NGRequest \<Rightarrow> MediaSession \<Rightarrow> MediaSession"
  assumes "\<And>req s. same_identity s (f req s) \<and> ms_ToTag (f req s) = ms_ToTag s"
  shows "keeps (onSession f)"
  unfolding keeps_def
proof (intro allI impI)
  fix env :: NGEnv and req :: "'a NGRequest" and st :: NGState
  assume ok: "reg_ok (ng_sessionRegistry st)"
  show "reg_ok (ng_sessionRegistry (snd (onSession f env req st)))"
  proof (cases "findSession req (ng_sessionRegistry st)")
    case None
    with ok show ?thesis by (simp add: onSession_def)
  next
    case (Some s)
    note edit = assms [of s req]
    have "reg_ok (setSession (f req s) (ng_sessionRegistry st))"
      by (rule setSession_ok [OF ok findSession_Some [OF ok Some]]) (use edit in blast)+
    with Some show ?thesis by (simp add: onSession_def)
  qed
qed

lemma session_edits:
  "same_identity s (SetFlag n b s) \<and> ms_ToTag (SetFlag n b s) = ms_ToTag s"
  "same_identity s (SetMetadata k v s) \<and> ms_ToTag (SetMetadata k v s) = ms_ToTag s"
  "same_identity s (SetMetadata k v (SetFlag n b s)) \<and> ms_ToTag (SetMetadata k v (SetFlag n b s)) = ms_ToTag s"
  by (simp_all add: same_identity_def SetFlag_def SetMetadata_def)

lemma handlePlayDTMF_keeps: "keeps (handlePlayDTMF :: 'f NGCommandHandler)"
  using onSession_keeps [of "\<lambda>req :: 'f NGRequest. SetMetadata ''pending_dtmf'' (req_DTMFDigit req)", OF session_edits(2)]
  by (simp add: keeps_def handlePlayDTMF_def)

lemma readers_keep: "keeps handleQuery" "keeps handleList" "keeps handleStatistics" "keeps handlePing"
  by (simp_all add: keeps_def handleQuery_def handleList_def handleStatistics_def handlePing_def Let_def split: option.split)

lemma builtin_keeps: "list_all (\<lambda>(c, h). keeps h) registerBuiltinHandlers"
  by (simp add: registerBuiltinHandlers_def handleOffer_keeps handleAnswer_keeps handleDelete_keeps handlePlayDTMF_keeps
      readers_keep onSession_keeps session_edits handleStartRecording_def handleStopRecording_def
      handlePauseRecording_def handleBlockDTMF_def handleUnblockDTMF_def handleBlockMedia_def handleUnblockMedia_def
      handleSilenceMedia_def handleStartForwarding_def handleStopForwarding_def handlePlayMedia_def handleStopMedia_def)

section \<open>Reachable states\<close>

text \<open>A datagram, a cleanup pass of the registry, the registration of the callback, or a background
  step of the port allocator, whatever it does.\<close>

inductive ng_reach :: "('f \<Rightarrow> nat \<Rightarrow> string) \<Rightarrow> duration \<Rightarrow> NGState \<Rightarrow> bool" for fmt ttl where
  start: "ng_reach fmt ttl \<lparr>ng_sessionRegistry = NewSessionRegistry ttl, ng_portAllocator = pa\<rparr>"
| message: "ng_reach fmt ttl st \<Longrightarrow> GetSession (env_uuid env) (ng_sessionRegistry st) = None \<Longrightarrow>
    processMessage fmt registerBuiltinHandlers env data from st = Some (resp, st') \<Longrightarrow> ng_reach fmt ttl st'"
| cleanup: "ng_reach fmt ttl st \<Longrightarrow>
    ng_reach fmt ttl (st\<lparr>ng_sessionRegistry := cleanupStaleSessions now order (ng_sessionRegistry st)\<rparr>)"
| callback: "ng_reach fmt ttl st \<Longrightarrow>
    ng_reach fmt ttl (st\<lparr>ng_sessionRegistry := SetOnSessionEnd b (ng_sessionRegistry st)\<rparr>)"
| ports: "ng_reach fmt ttl st \<Longrightarrow> ng_reach fmt ttl (st\<lparr>ng_portAllocator := pa\<rparr>)"

lemma builtin_handler:
  assumes "map_of registerBuiltinHandlers c = Some h"
  shows "replies h" "keeps h"
  using map_of_SomeD [OF assms] builtin_replies builtin_keeps by (auto simp: list_all_iff)

lemma processMessage_keeps:
  assumes "reg_ok (ng_sessionRegistry st)" "live (ng_sessionRegistry st) (env_uuid env) = None"
    "processMessage fmt registerBuiltinHandlers env data from st = Some (resp, st')"
  shows "reg_ok (ng_sessionRegistry st')"
proof -
  have "reg_ok (ng_sessionRegistry st1)"
    if "map_of registerBuiltinHandlers c = Some h" "h env req st = (r, st1)" for c h req r st1
    using builtin_handler(2) [OF that(1)] assms(1,2) that(2) unfolding keeps_def by (metis snd_conv)
  with assms(1,3) show ?thesis
    by (auto simp: processMessage_def split: sum.splits message_error.splits option.splits prod.splits)
qed

lemma NewSessionRegistry_ok: "reg_ok (NewSessionRegistry ttl)"
  using NewSessionRegistry_inv [of ttl] by (simp add: reg_ok_def live_def NewSessionRegistry_def)

lemma SetOnSessionEnd_ok: "reg_ok (SetOnSessionEnd b sr) = reg_ok sr"
  by (simp add: reg_ok_def SetOnSessionEnd_def live_def)

lemma ng_reach_ok: "ng_reach fmt ttl st \<Longrightarrow> reg_ok (ng_sessionRegistry st)"
proof (induction rule: ng_reach.induct)
  case (message st env data "from" resp st')
  then show ?case using processMessage_keeps by (simp add: GetSession_def live_def)
qed (simp_all add: NewSessionRegistry_ok cleanup_ok SetOnSessionEnd_ok)

section \<open>Every request is answered\<close>

lemma sendError_build:
  "BuildResponse fmt cookie (errorReply reason) = Inr (sendError fmt cookie reason)"
proof -
  have "\<forall>(k, v) \<in> set (resp_Extra (errorReply reason :: 'a NGResponse)). good_value v"
    by (simp add: errorReply_def NGResponse0_def)
  from BuildResponse_total [OF this, of fmt cookie] show ?thesis
    by (simp add: sendError_def ErrorResponse_def errorReply_def)
qed

lemma cookie_ok:
  assumes "ParseMessage data from = Inr (msg :: 'f NGMessage)"
  shows "msg_Cookie msg \<noteq> []" "CHR '' '' \<notin> set (msg_Cookie msg)"
proof -
  obtain i where i: "IndexByte data (CHR '' '') = Some i" "msg_Cookie msg = take i data" "take i data \<noteq> []"
    using assms by (auto simp: ParseMessage_def Let_def split: option.splits if_splits sum.splits prod.splits
        bencode_error.splits go_value.splits)
  then show "msg_Cookie msg \<noteq> []" "CHR '' '' \<notin> set (msg_Cookie msg)" using IndexByte_SomeD by fastforce+
qed

text \<open>What \<^verbatim>\<open>processMessage\<close> sends is always a reply built for the cookie of the message.\<close>

lemma processMessage_builds:
  fixes fmt :: "'f \<Rightarrow> nat \<Rightarrow> string"
  assumes "ParseMessage data from = Inr (msg :: 'f NGMessage)"
  shows "\<exists>bytes st' resp. processMessage fmt registerBuiltinHandlers env data from st = Some (bytes, st') \<and>
    BuildResponse fmt (msg_Cookie msg) resp = Inr bytes \<and> reply_ok resp"
proof (cases "ToRequest (env_now env) msg")
  case (Inl err)
  then have "processMessage fmt registerBuiltinHandlers env data from st =
      Some (sendError fmt (msg_Cookie msg) ''no command in message'', st)" using assms by (simp add: processMessage_def)
  with sendError_build [of fmt "msg_Cookie msg"] reply_ok_basic(1) show ?thesis by blast
next
  case (Inr req)
  have cookie: "req_Cookie req = msg_Cookie msg" using Inr by (auto simp: ToRequest_def Let_def split: if_splits)
  show ?thesis
  proof (cases "map_of (registerBuiltinHandlers :: (string \<times> 'f NGCommandHandler) list) (req_Command req)")
    case None
    then have "processMessage fmt registerBuiltinHandlers env data from st =
        Some (sendError fmt (msg_Cookie msg) ErrReasonUnsupported, st)" using assms Inr cookie by (simp add: processMessage_def)
    with sendError_build [of fmt "msg_Cookie msg"] reply_ok_basic(1) show ?thesis by blast
  next
    case (Some h)
    then obtain resp where resp: "fst (h env req st) = Inr resp" "reply_ok resp"
      using builtin_handler(1) [OF Some] unfolding replies_def by blast
    have "\<forall>(k, v) \<in> set (resp_Extra resp). good_value v" using resp(2) by (simp add: reply_ok_def)
    from BuildResponse_total [OF this, of fmt "msg_Cookie msg"] obtain bytes
      where b: "BuildResponse fmt (msg_Cookie msg) resp = Inr bytes" by blast
    obtain st' where "h env req st = (Inr resp, st')" using resp(1) by (cases "h env req st") simp
    then have "processMessage fmt registerBuiltinHandlers env data from st = Some (bytes, st')"
      using assms Inr Some b cookie by (simp add: processMessage_def)
    with b resp(2) show ?thesis by blast
  qed
qed

section \<open>Properties\<close>

text \<open>C14. Every request is answered. For a datagram that parses, whatever the command and its parameters and
  in any state, the listener returns a reply that parses again, carries the cookie of the request and has
  the result ok, pong or error.\<close>

theorem every_request_answered:
  fixes fmt :: "'f \<Rightarrow> nat \<Rightarrow> string"
  assumes "ParseMessage data from = Inr (msg :: 'f NGMessage)"
  shows "\<exists>bytes st'. processMessage fmt registerBuiltinHandlers env data from st = Some (bytes, st') \<and>
    (int (length bytes) < 2 ^ 63 \<longrightarrow>
      (\<exists>reply :: 'f NGMessage. ParseMessage bytes None = Inr reply \<and> msg_Cookie reply = msg_Cookie msg \<and>
        DictGetString (msg_Data reply) ''result'' \<in> {''ok'', ''pong'', ''error''}))"
proof -
  obtain bytes st' resp where p: "processMessage fmt registerBuiltinHandlers env data from st = Some (bytes, st')"
    and b: "BuildResponse fmt (msg_Cookie msg) resp = Inr bytes" and ok: "reply_ok resp"
    using processMessage_builds [OF assms, of fmt env st] by blast
  have "\<exists>reply :: 'f NGMessage. ParseMessage bytes None = Inr reply \<and> msg_Cookie reply = msg_Cookie msg \<and>
      DictGetString (msg_Data reply) ''result'' \<in> {''ok'', ''pong'', ''error''}" if short: "int (length bytes) < 2 ^ 63"
  proof -
    have good: "\<forall>(k, v) \<in> set (resp_Extra resp). good_value v" "''result'' \<notin> fst ` set (resp_Extra resp)"
      using ok by (simp_all add: reply_ok_def)
    obtain d where d: "ParseMessage bytes None
        = Inr \<lparr>msg_Cookie = msg_Cookie msg, msg_Data = d, msg_RawBytes = bytes, msg_From = None\<rparr>"
      "\<And>k. map_of d k = map_option (decoded fmt) (map_of (response_dict resp) k)"
      using response_read_back [OF cookie_ok [OF assms] good(1) b short] by blast
    have "DictGetString d ''result'' = resp_Result resp"
      by (rule DictGetString_decoded [OF d(2)], rule response_dict_fields(1) [OF good(2) refl])
    with d(1) ok show ?thesis by (auto simp: reply_ok_def)
  qed
  with p show ?thesis by blast
qed

definition sample_env :: NGEnv where
  "sample_env = \<lparr>env_now = 5, env_uuid = ''a'', env_bind = (\<lambda>_. True), env_order = [], env_PublicIP = [], env_MediaIP = []\<rparr>"

text \<open>A server whose allocator is closed receives an offer, which creates a session without a port.\<close>

definition sample_state :: NGState where
  "sample_state = \<lparr>ng_sessionRegistry = NewSessionRegistry 100, ng_portAllocator = (NewPortAllocator None)\<lparr>pa_closed := True\<rparr>\<rparr>"

definition sample_offer :: string where
  "sample_offer = ''5_1 d7:call-id1:c7:command5:offer8:from-tag1:a3:sdp34:m=audio 4000 RTP/AVP 0'' @ [CR, LF] @ ''a=sendrecve''"

definition sample_offered :: NGState where
  "sample_offered = snd (the (processMessage (\<lambda>(x :: unit) n. []) registerBuiltinHandlers sample_env sample_offer None sample_state))"

definition sample_answer :: "unit NGRequest" where
  "sample_answer = projr (ToRequest 6 (projr (ParseMessage
     ''5_2 d7:call-id1:c7:command6:answer8:from-tag1:a3:sdp5:v=0 06:to-tag1:be'' None)))"

lemma sample_offered_reach: "ng_reach (\<lambda>(x :: unit) n. []) 100 sample_offered"
proof -
  have new: "GetSession (env_uuid sample_env) (ng_sessionRegistry sample_state) = None" by code_simp
  have "isl (ParseMessage sample_offer None :: message_error + unit NGMessage) = False" by code_simp
  then obtain msg :: "unit NGMessage" where "ParseMessage sample_offer None = Inr msg"
    by (cases "ParseMessage sample_offer None :: message_error + unit NGMessage") simp_all
  from processMessage_builds [OF this, of "\<lambda>x n. []" sample_env sample_state] obtain b st'
    where p: "processMessage (\<lambda>(x :: unit) n. []) registerBuiltinHandlers sample_env sample_offer None sample_state = Some (b, st')"
    by blast
  have "ng_reach (\<lambda>(x :: unit) n. []) 100 sample_state" unfolding sample_state_def by (rule ng_reach.start)
  from ng_reach.message [OF this new p] show ?thesis by (simp add: sample_offered_def p)
qed

theorem every_request_answered_witness:
  "\<exists>bytes st'. processMessage (\<lambda>(x :: unit) n. []) registerBuiltinHandlers sample_env ''5_1 d7:command4:pinge'' None sample_state
     = Some (bytes, st')"
proof -
  have "\<exists>msg :: unit NGMessage. ParseMessage ''5_1 d7:command4:pinge'' None = Inr msg" by (rule exI, code_simp)
  then obtain msg :: "unit NGMessage" where "ParseMessage ''5_1 d7:command4:pinge'' None = Inr msg" by blast
  from every_request_answered [OF this] show ?thesis by blast
qed

text \<open>C15. The server rejects every answer that carries a to-tag. No handler stores the to-tag of a session,
  so in every reachable state the lookup by tags fails and the reply is the error that the call is
  not found.\<close>

theorem answer_with_to_tag_rejected:
  assumes "ng_reach fmt ttl st" "req_CallID req \<noteq> []" "req_FromTag req \<noteq> []" "req_SDP req \<noteq> []" "req_ToTag req \<noteq> []"
  shows "handleAnswer env req st = (Inr (errorReply ErrReasonNotFound), st)"
proof (cases "GetSessionByTags (req_CallID req) (req_FromTag req) (req_ToTag req) (ng_sessionRegistry st)")
  case None
  then show ?thesis using assms by (simp add: handleAnswer_def missingParam_def)
next
  case (Some s)
  note ok = ng_reach_ok [OF assms(1)]
  have "ms_ToTag s = []" using GetSessionByTags_Some(1) [OF ok Some] ok by (simp add: reg_ok_def)
  with GetSessionByTags_Some(2) [OF ok Some] assms(5) show ?thesis by simp
qed

theorem answer_with_to_tag_rejected_witness:
  "length (GetSessionByCallID (req_CallID sample_answer) (ng_sessionRegistry sample_offered)) = 1 \<and>
   handleAnswer sample_env sample_answer sample_offered = (Inr (errorReply ErrReasonNotFound), sample_offered)"
proof -
  have "req_CallID sample_answer \<noteq> []" "req_FromTag sample_answer \<noteq> []" "req_SDP sample_answer \<noteq> []"
    "req_ToTag sample_answer \<noteq> []" "length (GetSessionByCallID (req_CallID sample_answer) (ng_sessionRegistry sample_offered)) = 1"
    by code_simp+
  with answer_with_to_tag_rejected [OF sample_offered_reach this(1-4)] show ?thesis by simp
qed



end
