(* ===== verification/Leg_State.thy ===== *)
theory Leg_State
  imports Karl_Prelude
begin

text \<open>
  The SDP negotiation of one call leg and of forked calls, \<^verbatim>\<open>internal/leg_state_machine.go\<close>.
  An operation reads the clock once, as its argument \<open>now\<close>; a mutator returns the new leg,
  and an operation that can fail returns the text of its error. A fork is reached through
  its to-tag, so a leg object that \<^verbatim>\<open>AddFork\<close> has replaced is no longer part of the call.

  The abstract machine \<open>oa\<close> at the end is the offer/answer model the state machine promises: at
  most one offer is outstanding, and it is answered by the other side.
\<close>

section \<open>State of a leg\<close>

datatype LegState =
    LegStateInit | LegStateOfferPending | LegStateAnswerPending | LegStateEstablished
  | LegStateReOfferPending | LegStateReAnswerPending | LegStateHold | LegStateTerminated

datatype MediaDirection =
    MediaDirectionSendRecv | MediaDirectionSendOnly | MediaDirectionRecvOnly | MediaDirectionInactive

record SSRCChange =
  chg_OldSSRC :: u32
  chg_NewSSRC :: u32
  chg_Timestamp :: gtime
  chg_Reason :: string

text \<open>\<open>None\<close> in a previous state or direction is Go's empty string, the zero value.\<close>

record LegStateMachine =
  leg_Tag :: string
  leg_Label :: string
  leg_State :: LegState
  leg_Direction :: MediaDirection
  leg_PreviousState :: "LegState option"
  leg_PreviousDirection :: "MediaDirection option"
  leg_LocalSDP :: string
  leg_RemoteSDP :: string
  leg_OfferSource :: string
  leg_CreatedAt :: gtime
  leg_LastStateChange :: gtime
  leg_EstablishedAt :: gtime
  leg_HoldStartedAt :: gtime
  leg_IsOnHold :: bool
  leg_HoldInitiator :: string
  leg_EarlyMediaActive :: bool
  leg_EarlyMediaStartedAt :: gtime
  leg_LocalSSRC :: u32
  leg_RemoteSSRC :: u32
  leg_SSRCHistory :: "SSRCChange list"
  leg_PTMap :: "u8 \<rightharpoonup> u8"
  leg_ReversePTMap :: "u8 \<rightharpoonup> u8"

primrec state_text :: "LegState \<Rightarrow> string" where
  "state_text LegStateInit = ''init''"
| "state_text LegStateOfferPending = ''offer_pending''"
| "state_text LegStateAnswerPending = ''answer_pending''"
| "state_text LegStateEstablished = ''established''"
| "state_text LegStateReOfferPending = ''reoffer_pending''"
| "state_text LegStateReAnswerPending = ''reanswer_pending''"
| "state_text LegStateHold = ''hold''"
| "state_text LegStateTerminated = ''terminated''"

definition NewLegStateMachine :: "gtime \<Rightarrow> string \<Rightarrow> string \<Rightarrow> LegStateMachine" where
  "NewLegStateMachine now tag label =
     \<lparr>leg_Tag = tag, leg_Label = label, leg_State = LegStateInit,
      leg_Direction = MediaDirectionSendRecv, leg_PreviousState = None, leg_PreviousDirection = None,
      leg_LocalSDP = [], leg_RemoteSDP = [], leg_OfferSource = [],
      leg_CreatedAt = now, leg_LastStateChange = now, leg_EstablishedAt = 0, leg_HoldStartedAt = 0,
      leg_IsOnHold = False, leg_HoldInitiator = [], leg_EarlyMediaActive = False,
      leg_EarlyMediaStartedAt = 0, leg_LocalSSRC = 0, leg_RemoteSSRC = 0, leg_SSRCHistory = [],
      leg_PTMap = Map.empty, leg_ReversePTMap = Map.empty\<rparr>"

section \<open>Helpers\<close>

definition setState :: "gtime \<Rightarrow> LegState \<Rightarrow> LegStateMachine \<Rightarrow> LegStateMachine" where
  "setState now newState l =
     l\<lparr>leg_PreviousState := Some (leg_State l), leg_State := newState, leg_LastStateChange := now\<rparr>"

fun containsString :: "string \<Rightarrow> string \<Rightarrow> bool" where
  "containsString s substr =
     (if length s < length substr then False
      else if take (length substr) s = substr then True
      else (case s of [] \<Rightarrow> False | _ # s' \<Rightarrow> containsString s' substr))"

declare containsString.simps [simp del]

definition detectHoldFromDirection :: "MediaDirection \<Rightarrow> bool" where
  "detectHoldFromDirection dir \<longleftrightarrow> dir = MediaDirectionSendOnly \<or> dir = MediaDirectionInactive"

definition detectHoldFromSDP :: "string \<Rightarrow> LegStateMachine \<Rightarrow> LegStateMachine" where
  "detectHoldFromSDP sdp l =
     (if containsString sdp ''a=sendonly'' then
        l\<lparr>leg_Direction := MediaDirectionSendOnly, leg_IsOnHold := True, leg_HoldInitiator := ''remote''\<rparr>
      else if containsString sdp ''a=recvonly'' then l\<lparr>leg_Direction := MediaDirectionRecvOnly\<rparr>
      else if containsString sdp ''a=inactive'' then
        l\<lparr>leg_Direction := MediaDirectionInactive, leg_IsOnHold := True, leg_HoldInitiator := ''remote''\<rparr>
      else let l1 = l\<lparr>leg_Direction := MediaDirectionSendRecv\<rparr> in
        if leg_IsOnHold l1 then l1\<lparr>leg_IsOnHold := False, leg_HoldInitiator := []\<rparr> else l1)"

section \<open>Offer and answer\<close>

definition ProcessOffer ::
  "gtime \<Rightarrow> string \<Rightarrow> string \<Rightarrow> LegStateMachine \<Rightarrow> string + LegStateMachine" where
  "ProcessOffer now sdp source l =
     (let finish = (\<lambda>l1. Inr (detectHoldFromSDP sdp (l1\<lparr>leg_RemoteSDP := sdp, leg_OfferSource := source\<rparr>))) in
      case leg_State l of
        LegStateInit \<Rightarrow> finish (setState now LegStateAnswerPending l)
      | LegStateEstablished \<Rightarrow> finish (setState now LegStateReAnswerPending l)
      | LegStateHold \<Rightarrow> finish (setState now LegStateReAnswerPending l)
      | _ \<Rightarrow> Inl (''cannot process offer in state '' @ state_text (leg_State l)))"

definition ProcessAnswer :: "gtime \<Rightarrow> string \<Rightarrow> LegStateMachine \<Rightarrow> string + LegStateMachine" where
  "ProcessAnswer now sdp l =
     (let finish = (\<lambda>l1. Inr (detectHoldFromSDP sdp (l1\<lparr>leg_RemoteSDP := sdp\<rparr>))) in
      case leg_State l of
        LegStateOfferPending \<Rightarrow>
          let l1 = setState now LegStateEstablished l in
          finish (if IsZero (leg_EstablishedAt l1) then l1\<lparr>leg_EstablishedAt := now\<rparr> else l1)
      | LegStateReOfferPending \<Rightarrow>
          if leg_IsOnHold l \<and> \<not> detectHoldFromDirection (leg_Direction l)
          then finish (setState now LegStateEstablished (l\<lparr>leg_IsOnHold := False\<rparr>))
          else finish (setState now LegStateEstablished l)
      | _ \<Rightarrow> Inl (''cannot process answer in state '' @ state_text (leg_State l)))"

definition SendOffer :: "gtime \<Rightarrow> string \<Rightarrow> LegStateMachine \<Rightarrow> string + LegStateMachine" where
  "SendOffer now sdp l =
     (let finish = (\<lambda>l1. Inr (l1\<lparr>leg_LocalSDP := sdp, leg_OfferSource := ''local''\<rparr>)) in
      case leg_State l of
        LegStateInit \<Rightarrow> finish (setState now LegStateOfferPending l)
      | LegStateEstablished \<Rightarrow> finish (setState now LegStateReOfferPending l)
      | LegStateHold \<Rightarrow> finish (setState now LegStateReOfferPending l)
      | _ \<Rightarrow> Inl (''cannot send offer in state '' @ state_text (leg_State l)))"

definition SendAnswer :: "gtime \<Rightarrow> string \<Rightarrow> LegStateMachine \<Rightarrow> string + LegStateMachine" where
  "SendAnswer now sdp l =
     (let finish = (\<lambda>l1. Inr (l1\<lparr>leg_LocalSDP := sdp\<rparr>)) in
      case leg_State l of
        LegStateAnswerPending \<Rightarrow>
          let l1 = setState now LegStateEstablished l in
          finish (if IsZero (leg_EstablishedAt l1) then l1\<lparr>leg_EstablishedAt := now\<rparr> else l1)
      | LegStateReAnswerPending \<Rightarrow> finish (setState now LegStateEstablished l)
      | _ \<Rightarrow> Inl (''cannot send answer in state '' @ state_text (leg_State l)))"

section \<open>Early media, hold, termination\<close>

definition EnableEarlyMedia :: "gtime \<Rightarrow> LegStateMachine \<Rightarrow> LegStateMachine" where
  "EnableEarlyMedia now l =
     (if \<not> leg_EarlyMediaActive l \<and> leg_State l = LegStateOfferPending
      then l\<lparr>leg_EarlyMediaActive := True, leg_EarlyMediaStartedAt := now\<rparr> else l)"

definition DisableEarlyMedia :: "LegStateMachine \<Rightarrow> LegStateMachine" where
  "DisableEarlyMedia l = l\<lparr>leg_EarlyMediaActive := False\<rparr>"

definition SetHold :: "gtime \<Rightarrow> string \<Rightarrow> LegStateMachine \<Rightarrow> LegStateMachine" where
  "SetHold now initiator l =
     (if \<not> leg_IsOnHold l
      then setState now LegStateHold
             (l\<lparr>leg_PreviousState := Some (leg_State l), leg_PreviousDirection := Some (leg_Direction l),
                leg_IsOnHold := True, leg_HoldInitiator := initiator, leg_HoldStartedAt := now\<rparr>)
      else l)"

definition Resume :: "gtime \<Rightarrow> LegStateMachine \<Rightarrow> LegStateMachine" where
  "Resume now l =
     (if leg_IsOnHold l
      then (setState now LegStateEstablished (l\<lparr>leg_IsOnHold := False, leg_HoldInitiator := []\<rparr>))
             \<lparr>leg_Direction := MediaDirectionSendRecv\<rparr>
      else l)"

definition Terminate :: "gtime \<Rightarrow> LegStateMachine \<Rightarrow> LegStateMachine" where
  "Terminate now l = setState now LegStateTerminated l"

section \<open>SSRC, payload types and direction\<close>

definition ssrc_change :: "gtime \<Rightarrow> u32 \<Rightarrow> u32 \<Rightarrow> string \<Rightarrow> SSRCChange list \<Rightarrow> SSRCChange list" where
  "ssrc_change now oldSSRC ssrc reason history =
     (if oldSSRC \<noteq> 0 \<and> oldSSRC \<noteq> ssrc
      then history @ [\<lparr>chg_OldSSRC = oldSSRC, chg_NewSSRC = ssrc, chg_Timestamp = now, chg_Reason = reason\<rparr>]
      else history)"

definition UpdateSSRC :: "gtime \<Rightarrow> u32 \<Rightarrow> bool \<Rightarrow> string \<Rightarrow> LegStateMachine \<Rightarrow> LegStateMachine" where
  "UpdateSSRC now ssrc isLocal reason l =
     (if isLocal
      then l\<lparr>leg_SSRCHistory := ssrc_change now (leg_LocalSSRC l) ssrc reason (leg_SSRCHistory l),
             leg_LocalSSRC := ssrc\<rparr>
      else l\<lparr>leg_SSRCHistory := ssrc_change now (leg_RemoteSSRC l) ssrc reason (leg_SSRCHistory l),
             leg_RemoteSSRC := ssrc\<rparr>)"

definition SetPayloadTypeMapping :: "u8 \<Rightarrow> u8 \<Rightarrow> LegStateMachine \<Rightarrow> LegStateMachine" where
  "SetPayloadTypeMapping remotePT localPT l =
     l\<lparr>leg_PTMap := (leg_PTMap l)(remotePT \<mapsto> localPT),
       leg_ReversePTMap := (leg_ReversePTMap l)(localPT \<mapsto> remotePT)\<rparr>"

definition MapPayloadType :: "u8 \<Rightarrow> LegStateMachine \<Rightarrow> u8" where
  "MapPayloadType remotePT l = (case leg_PTMap l remotePT of Some localPT \<Rightarrow> localPT | None \<Rightarrow> remotePT)"

definition ReverseMapPayloadType :: "u8 \<Rightarrow> LegStateMachine \<Rightarrow> u8" where
  "ReverseMapPayloadType localPT l =
     (case leg_ReversePTMap l localPT of Some remotePT \<Rightarrow> remotePT | None \<Rightarrow> localPT)"

definition SetDirection :: "gtime \<Rightarrow> MediaDirection \<Rightarrow> LegStateMachine \<Rightarrow> LegStateMachine" where
  "SetDirection now dir l =
     (let l1 = l\<lparr>leg_PreviousDirection := Some (leg_Direction l), leg_Direction := dir\<rparr> in
      if detectHoldFromDirection dir \<and> \<not> leg_IsOnHold l1
      then l1\<lparr>leg_IsOnHold := True, leg_HoldStartedAt := now\<rparr> else l1)"

definition IsEstablished :: "LegStateMachine \<Rightarrow> bool" where
  "IsEstablished l \<longleftrightarrow> leg_State l = LegStateEstablished \<or> leg_State l = LegStateHold"

definition CanSendMedia :: "LegStateMachine \<Rightarrow> bool" where
  "CanSendMedia l =
     (if leg_State l \<noteq> LegStateEstablished \<and> leg_State l \<noteq> LegStateHold \<and> \<not> leg_EarlyMediaActive l
      then False
      else leg_Direction l = MediaDirectionSendRecv \<or> leg_Direction l = MediaDirectionSendOnly)"

definition CanReceiveMedia :: "LegStateMachine \<Rightarrow> bool" where
  "CanReceiveMedia l =
     (if leg_State l \<noteq> LegStateEstablished \<and> leg_State l \<noteq> LegStateHold \<and> \<not> leg_EarlyMediaActive l
      then False
      else leg_Direction l = MediaDirectionSendRecv \<or> leg_Direction l = MediaDirectionRecvOnly)"

section \<open>Forked calls\<close>

record ForkedCallManager =
  fcm_CallID :: string
  fcm_FromTag :: string
  fcm_ToTags :: "(string \<times> LegStateMachine) list"
  fcm_SelectedLeg :: string
  fcm_ViaBranches :: "string \<rightharpoonup> string"
  fcm_CreatedAt :: gtime

definition NewForkedCallManager :: "gtime \<Rightarrow> string \<Rightarrow> string \<Rightarrow> ForkedCallManager" where
  "NewForkedCallManager now callID fromTag =
     \<lparr>fcm_CallID = callID, fcm_FromTag = fromTag, fcm_ToTags = [], fcm_SelectedLeg = [],
      fcm_ViaBranches = Map.empty, fcm_CreatedAt = now\<rparr>"

definition AddFork ::
  "gtime \<Rightarrow> string \<Rightarrow> string \<Rightarrow> string \<Rightarrow> ForkedCallManager \<Rightarrow> ForkedCallManager" where
  "AddFork now toTag viaBranch label fcm =
     (let f1 = fcm\<lparr>fcm_ToTags := AList.update toTag (NewLegStateMachine now toTag label) (fcm_ToTags fcm)\<rparr>
      in if viaBranch \<noteq> [] then f1\<lparr>fcm_ViaBranches := (fcm_ViaBranches f1)(viaBranch \<mapsto> toTag)\<rparr> else f1)"

definition GetFork :: "string \<Rightarrow> ForkedCallManager \<Rightarrow> LegStateMachine option" where
  "GetFork toTag fcm = map_of (fcm_ToTags fcm) toTag"

definition GetForkByViaBranch :: "string \<Rightarrow> ForkedCallManager \<Rightarrow> LegStateMachine option" where
  "GetForkByViaBranch viaBranch fcm =
     (case fcm_ViaBranches fcm viaBranch of Some toTag \<Rightarrow> map_of (fcm_ToTags fcm) toTag | None \<Rightarrow> None)"

definition SelectWinner :: "gtime \<Rightarrow> string \<Rightarrow> ForkedCallManager \<Rightarrow> string + ForkedCallManager" where
  "SelectWinner now toTag fcm =
     (if map_of (fcm_ToTags fcm) toTag = None
      then Inl (''fork with to-tag '' @ toTag @ '' not found'')
      else Inr (fcm\<lparr>fcm_SelectedLeg := toTag,
                    fcm_ToTags := map (\<lambda>(tag, l). (tag, if tag \<noteq> toTag then Terminate now l else l))
                                    (fcm_ToTags fcm)\<rparr>))"

definition GetWinner :: "ForkedCallManager \<Rightarrow> LegStateMachine option" where
  "GetWinner fcm =
     (if fcm_SelectedLeg fcm \<noteq> [] then map_of (fcm_ToTags fcm) (fcm_SelectedLeg fcm) else None)"

definition GetAllForks :: "ForkedCallManager \<Rightarrow> LegStateMachine list" where
  "GetAllForks fcm = map snd (fcm_ToTags fcm)"

definition GetActiveForks :: "ForkedCallManager \<Rightarrow> LegStateMachine list" where
  "GetActiveForks fcm = filter (\<lambda>l. leg_State l \<noteq> LegStateTerminated) (map snd (fcm_ToTags fcm))"

definition CancelAllForks :: "gtime \<Rightarrow> ForkedCallManager \<Rightarrow> ForkedCallManager" where
  "CancelAllForks now fcm = fcm\<lparr>fcm_ToTags := map (\<lambda>(tag, l). (tag, Terminate now l)) (fcm_ToTags fcm)\<rparr>"

section \<open>The offer/answer model\<close>

datatype oa = Idle | LocalOffer | RemoteOffer | Stable | Ended

primrec oa_of :: "LegState \<Rightarrow> oa" where
  "oa_of LegStateInit = Idle"
| "oa_of LegStateOfferPending = LocalOffer"
| "oa_of LegStateReOfferPending = LocalOffer"
| "oa_of LegStateAnswerPending = RemoteOffer"
| "oa_of LegStateReAnswerPending = RemoteOffer"
| "oa_of LegStateEstablished = Stable"
| "oa_of LegStateHold = Stable"
| "oa_of LegStateTerminated = Ended"

datatype neg = DoSendOffer string | DoProcessOffer string string | DoSendAnswer string | DoProcessAnswer string

fun oa_step :: "neg \<Rightarrow> oa \<Rightarrow> oa option" where
  "oa_step (DoSendOffer _) s = (if s = Idle \<or> s = Stable then Some LocalOffer else None)"
| "oa_step (DoProcessOffer _ _) s = (if s = Idle \<or> s = Stable then Some RemoteOffer else None)"
| "oa_step (DoSendAnswer _) s = (if s = RemoteOffer then Some Stable else None)"
| "oa_step (DoProcessAnswer _) s = (if s = LocalOffer then Some Stable else None)"

fun oa_run :: "neg list \<Rightarrow> oa \<Rightarrow> oa option" where
  "oa_run [] s = Some s"
| "oa_run (n # ns) s = (case oa_step n s of None \<Rightarrow> None | Some s' \<Rightarrow> oa_run ns s')"

text \<open>
  What an operation of the state machine promises with respect to the model: it succeeds
  exactly when the model allows the step, and then ends in the model's next state.
\<close>

locale offer_answer_op =
  fixes lop :: "LegStateMachine \<Rightarrow> string + LegStateMachine" and n :: neg
  assumes simulates:
    "(case lop l of Inl _ \<Rightarrow> None | Inr l' \<Rightarrow> Some (oa_of (leg_State l'))) = oa_step n (oa_of (leg_State l))"
begin

lemma succeeds_iff: "(\<exists>l'. lop l = Inr l') \<longleftrightarrow> oa_step n (oa_of (leg_State l)) \<noteq> None"
  unfolding simulates [of l, symmetric] by (auto split: sum.splits)

lemma next_state: "lop l = Inr l' \<Longrightarrow> oa_step n (oa_of (leg_State l)) = Some (oa_of (leg_State l'))"
  using simulates [of l] by simp

end

lemma detectHoldFromSDP_frame [simp]:
  "leg_State (detectHoldFromSDP sdp l) = leg_State l"
  "leg_EstablishedAt (detectHoldFromSDP sdp l) = leg_EstablishedAt l"
  "leg_EarlyMediaActive (detectHoldFromSDP sdp l) = leg_EarlyMediaActive l"
  by (simp_all add: detectHoldFromSDP_def Let_def)

lemma setState_simps [simp]:
  "leg_State (setState now s l) = s" "leg_EstablishedAt (setState now s l) = leg_EstablishedAt l"
  "leg_IsOnHold (setState now s l) = leg_IsOnHold l"
  "leg_EarlyMediaActive (setState now s l) = leg_EarlyMediaActive l"
  "leg_Direction (setState now s l) = leg_Direction l"
  by (simp_all add: setState_def)

lemmas negotiation_defs = ProcessOffer_def ProcessAnswer_def SendOffer_def SendAnswer_def

interpretation send_offer: offer_answer_op "SendOffer now sdp" "DoSendOffer sdp" for now sdp
  by unfold_locales (simp add: SendOffer_def Let_def split: LegState.splits)

interpretation process_offer: offer_answer_op "ProcessOffer now sdp src" "DoProcessOffer sdp src" for now sdp src
  by unfold_locales (simp add: ProcessOffer_def Let_def split: LegState.splits)

interpretation send_answer: offer_answer_op "SendAnswer now sdp" "DoSendAnswer sdp" for now sdp
  by unfold_locales (simp add: SendAnswer_def Let_def split: LegState.splits)

interpretation process_answer: offer_answer_op "ProcessAnswer now sdp" "DoProcessAnswer sdp" for now sdp
  by unfold_locales (simp add: ProcessAnswer_def Let_def split: LegState.splits)

section \<open>Runs of a leg\<close>

fun apply_neg :: "gtime \<Rightarrow> neg \<Rightarrow> LegStateMachine \<Rightarrow> string + LegStateMachine" where
  "apply_neg now (DoSendOffer sdp) l = SendOffer now sdp l"
| "apply_neg now (DoProcessOffer sdp src) l = ProcessOffer now sdp src l"
| "apply_neg now (DoSendAnswer sdp) l = SendAnswer now sdp l"
| "apply_neg now (DoProcessAnswer sdp) l = ProcessAnswer now sdp l"

lemma apply_neg_simulates:
  "(case apply_neg now n l of Inl _ \<Rightarrow> None | Inr l' \<Rightarrow> Some (oa_of (leg_State l'))) = oa_step n (oa_of (leg_State l))"
  using send_offer.simulates process_offer.simulates send_answer.simulates process_answer.simulates
  by (cases n) simp_all

fun run_neg :: "(gtime \<times> neg) list \<Rightarrow> LegStateMachine \<Rightarrow> string + LegStateMachine" where
  "run_neg [] l = Inr l"
| "run_neg ((now, n) # ns) l = bindE (apply_neg now n l) (run_neg ns)"

text \<open>Everything a caller can do with a leg, and the legs reachable with a set of operations.\<close>

datatype leg_op =
    Neg neg | EarlyOn | EarlyOff | Hold string | TakeOffHold | End
  | SetSSRC u32 bool string | SetPT u8 u8 | SetDir MediaDirection

fun apply_op :: "gtime \<Rightarrow> leg_op \<Rightarrow> LegStateMachine \<Rightarrow> string + LegStateMachine" where
  "apply_op now (Neg n) l = apply_neg now n l"
| "apply_op now EarlyOn l = Inr (EnableEarlyMedia now l)"
| "apply_op now EarlyOff l = Inr (DisableEarlyMedia l)"
| "apply_op now (Hold who) l = Inr (SetHold now who l)"
| "apply_op now TakeOffHold l = Inr (Resume now l)"
| "apply_op now End l = Inr (Terminate now l)"
| "apply_op now (SetSSRC ssrc isLocal reason) l = Inr (UpdateSSRC now ssrc isLocal reason l)"
| "apply_op now (SetPT r lc) l = Inr (SetPayloadTypeMapping r lc l)"
| "apply_op now (SetDir d) l = Inr (SetDirection now d l)"

inductive leg_reach :: "leg_op set \<Rightarrow> LegStateMachine \<Rightarrow> bool" for A where
  start: "leg_reach A (NewLegStateMachine now tag label)"
| step: "leg_reach A l \<Longrightarrow> op \<in> A \<Longrightarrow> 0 < now \<Longrightarrow> apply_op now op l = Inr l' \<Longrightarrow> leg_reach A l'"

definition no_hold_ops :: "leg_op set" where
  "no_hold_ops = {op. (\<forall>who. op \<noteq> Hold who) \<and> op \<noteq> TakeOffHold}"

text \<open>
  The invariant of negotiation without explicit hold: the establishment time is set exactly
  when the first offer has been answered.
\<close>

fun negotiation_time :: "LegState \<Rightarrow> gtime \<Rightarrow> bool" where
  "negotiation_time LegStateEstablished t = (0 < t)"
| "negotiation_time LegStateReOfferPending t = (0 < t)"
| "negotiation_time LegStateReAnswerPending t = (0 < t)"
| "negotiation_time LegStateTerminated t = (0 \<le> t)"
| "negotiation_time LegStateHold t = False"
| "negotiation_time _ t = (t = 0)"

definition negotiated :: "LegStateMachine \<Rightarrow> bool" where
  "negotiated l \<longleftrightarrow> negotiation_time (leg_State l) (leg_EstablishedAt l)"

lemma negotiated_neg [wf_intros]:
  "negotiated l \<Longrightarrow> 0 < now \<Longrightarrow> apply_neg now n l = Inr l' \<Longrightarrow> negotiated l'"
  by (cases n) (auto simp: negotiation_defs Let_def negotiated_def IsZero_def
      split: LegState.splits if_splits)

lemma negotiated_step [wf_intros]:
  assumes "negotiated l" "0 < now" "op \<in> no_hold_ops" "apply_op now op l = Inr l'"
  shows "negotiated l'"
proof (cases op)
  case (Neg n)
  with assms show ?thesis by (auto intro: negotiated_neg)
qed (use assms in \<open>auto simp: no_hold_ops_def EnableEarlyMedia_def DisableEarlyMedia_def Terminate_def
    UpdateSSRC_def SetPayloadTypeMapping_def SetDirection_def Let_def negotiated_def
    elim: negotiation_time.elims split: if_splits\<close>)

lemma reach_negotiated:
  assumes "leg_reach no_hold_ops l"
  shows "negotiated l"
  using assms
proof (induction rule: leg_reach.induct)
  case (start now tag label)
  show ?case by (simp add: negotiated_def NewLegStateMachine_def)
next
  case (step l op now l')
  then show ?case by (blast intro: negotiated_step)
qed

lemma map_of_map_leg:
  "map_of (map (\<lambda>(tag, l). (tag, f tag l)) xs) k = map_option (f k) (map_of xs k)"
  by (induction xs) auto

lemma filter_only_key:
  assumes "distinct (map fst xs)" "map_of xs k = Some v"
  shows "filter (\<lambda>(k', _). k' = k) xs = [(k, v)]"
  using assms
proof (induction xs)
  case (Cons x xs)
  then show ?case
    by (cases x) (force simp: filter_empty_conv dest: map_of_SomeD split: if_splits)
qed simp

lemma active_after_select:
  "filter (\<lambda>l. leg_State l \<noteq> LegStateTerminated)
     (map snd (map (\<lambda>(tag, l). (tag, if tag \<noteq> t then Terminate now l else l)) xs))
   = filter (\<lambda>l. leg_State l \<noteq> LegStateTerminated) (map snd (filter (\<lambda>(k, _). k = t) xs))"
  by (induction xs) (auto simp: Terminate_def)

section \<open>Properties of the legs\<close>

text \<open>C13. The state machine implements the offer/answer model: a sequence of offers and
  answers, sent and received, is accepted exactly when the model accepts it, that is, when
  at most one offer is outstanding and every answer comes from the other side, and the leg
  ends in the state that the model ends in.\<close>

theorem negotiation_refines:
  "(case run_neg ops l of Inl _ \<Rightarrow> None | Inr l' \<Rightarrow> Some (oa_of (leg_State l')))
     = oa_run (map snd ops) (oa_of (leg_State l))"
proof (induction ops arbitrary: l)
  case (Cons x ops)
  obtain now n where x: "x = (now, n)" by (cases x)
  show ?case
  proof (cases "apply_neg now n l")
    case (Inl e)
    then show ?thesis using apply_neg_simulates [of now n l] x by simp
  next
    case (Inr l')
    then show ?thesis using apply_neg_simulates [of now n l, symmetric] Cons.IH [of l'] x by simp
  qed
qed simp

text \<open>As long as nobody calls \<^verbatim>\<open>SetHold\<close> or \<^verbatim>\<open>Resume\<close>, a leg that reports itself as
  established has completed an offer/answer exchange: its establishment time is set.\<close>

lemma established_was_negotiated:
  assumes "leg_reach no_hold_ops l" and "IsEstablished l"
  shows "0 < leg_EstablishedAt l"
  using reach_negotiated [OF assms(1)] assms(2)
  by (auto simp: negotiated_def IsEstablished_def)

text \<open>Which operations bring a terminated leg back to life: no negotiation step does,
  but \<^verbatim>\<open>SetHold\<close> on a leg that is not on hold and \<^verbatim>\<open>Resume\<close> on one that is do.\<close>

lemma terminated_leg_revived_iff:
  assumes "leg_State l = LegStateTerminated" and "apply_op now op l = Inr l'"
  shows "leg_State l' \<noteq> LegStateTerminated \<longleftrightarrow>
    (\<exists>who. op = Hold who \<and> \<not> leg_IsOnHold l) \<or> (op = TakeOffHold \<and> leg_IsOnHold l)"
proof (cases op)
  case (Neg n)
  with assms show ?thesis by (cases n) (simp_all add: negotiation_defs)
qed (use assms in \<open>auto simp: EnableEarlyMedia_def DisableEarlyMedia_def SetHold_def Resume_def
    Terminate_def UpdateSSRC_def SetPayloadTypeMapping_def SetDirection_def Let_def split: if_splits\<close>)

text \<open>Terminating a leg does not stop its media while early media is on: the leg still
  reports that it can send whenever its direction allows it.\<close>

lemma terminated_early_media_sends:
  "leg_State (Terminate now l) = LegStateTerminated \<and>
   (CanSendMedia (Terminate now l) \<longleftrightarrow>
      leg_EarlyMediaActive l \<and> leg_Direction l \<in> {MediaDirectionSendRecv, MediaDirectionSendOnly}) \<and>
   (\<exists>l0. SendOffer 2 ''v=0'' (NewLegStateMachine 1 ''t'' ''x'') = Inr l0 \<and>
      CanSendMedia (Terminate 4 (EnableEarlyMedia 3 l0)))"
  by (auto simp: Terminate_def CanSendMedia_def SendOffer_def EnableEarlyMedia_def
      NewLegStateMachine_def setState_def)

text \<open>When a fork wins, it is untouched and all others end: the winner is the leg that was
  selected, and no other fork is active afterwards.\<close>

lemma select_winner_only_active:
  assumes "distinct (map fst (fcm_ToTags fcm))" and "toTag \<noteq> []"
    and "GetFork toTag fcm = Some l" and "leg_State l \<noteq> LegStateTerminated"
  shows "\<exists>fcm'. SelectWinner now toTag fcm = Inr fcm' \<and> GetWinner fcm' = Some l \<and> GetActiveForks fcm' = [l]"
proof -
  have l: "map_of (fcm_ToTags fcm) toTag = Some l" using assms(3) by (simp add: GetFork_def)
  then show ?thesis
    using assms(2,4) filter_only_key [OF assms(1) l]
    by (simp add: SelectWinner_def GetWinner_def GetActiveForks_def active_after_select
        map_of_map_leg [where f = "\<lambda>tag l. if tag \<noteq> toTag then Terminate now l else l"] del: map_map)
qed

end
