(* ===== verification/Circuit_Breaker.thy ===== *)
theory Circuit_Breaker
  imports Go_Float
begin

text \<open>
  The circuit breaker, \<^verbatim>\<open>internal/circuit_breaker.go\<close>: closed, open and half-open states, a
  count-based and a rate-based opening condition, and the registry of named breakers.

  An exported operation is one step and reads the clock once, \<open>now\<close>. The function a caller
  wraps is its outcome, \<open>None\<close> for success or \<open>Some e\<close> for the error it returns; a cancelled
  context is a flag with its error. State-change callbacks and the statistics maps are left out.
\<close>

section \<open>State\<close>

datatype CircuitState = CircuitClosed | CircuitOpen | CircuitHalfOpen

primrec CircuitState_String :: "CircuitState \<Rightarrow> string" where
  "CircuitState_String CircuitClosed = ''closed''"
| "CircuitState_String CircuitOpen = ''open''"
| "CircuitState_String CircuitHalfOpen = ''half-open''"

datatype 'e cb_error = ErrCircuitOpen | ErrTooManyRequest | CallError 'e

record CircuitBreakerConfig =
  cbc_Name :: string
  MaxFailures :: int
  Timeout :: duration
  HalfOpenMaxCalls :: int
  SuccessThreshold :: int
  FailureRateWindow :: duration
  FailureRatePercent :: rat

definition DefaultCircuitBreakerConfig :: "string \<Rightarrow> CircuitBreakerConfig" where
  "DefaultCircuitBreakerConfig name = \<lparr>cbc_Name = name, MaxFailures = 5, Timeout = 30 * second,
     HalfOpenMaxCalls = 3, SuccessThreshold = 2, FailureRateWindow = 60 * second, FailureRatePercent = 50\<rparr>"

record callResult =
  cr_timestamp :: gtime
  cr_success :: bool

record CircuitBreaker =
  cb_config :: CircuitBreakerConfig
  cb_state :: CircuitState
  cb_failures :: int
  cb_successes :: int
  cb_lastFailure :: gtime
  cb_openedAt :: gtime
  cb_halfOpenCalls :: int
  cb_recentCalls :: "callResult list"

definition NewCircuitBreaker :: "CircuitBreakerConfig option \<Rightarrow> CircuitBreaker" where
  "NewCircuitBreaker config =
     \<lparr>cb_config = (case config of None \<Rightarrow> DefaultCircuitBreakerConfig ''default'' | Some c \<Rightarrow> c),
      cb_state = CircuitClosed, cb_failures = 0, cb_successes = 0, cb_lastFailure = 0,
      cb_openedAt = 0, cb_halfOpenCalls = 0, cb_recentCalls = []\<rparr>"

section \<open>Operations\<close>

definition transitionTo :: "gtime \<Rightarrow> CircuitState \<Rightarrow> CircuitBreaker \<Rightarrow> CircuitBreaker" where
  "transitionTo now newState cb =
     (if cb_state cb = newState then cb
      else case newState of
        CircuitClosed \<Rightarrow> cb\<lparr>cb_state := newState, cb_failures := 0, cb_successes := 0, cb_halfOpenCalls := 0\<rparr>
      | CircuitOpen \<Rightarrow> cb\<lparr>cb_state := newState, cb_openedAt := now, cb_halfOpenCalls := 0\<rparr>
      | CircuitHalfOpen \<Rightarrow> cb\<lparr>cb_state := newState, cb_successes := 0, cb_halfOpenCalls := 0\<rparr>)"

text \<open>The half-open case of \<^verbatim>\<open>Allow\<close>; the recursive call after a timeout always takes it.\<close>

definition allowHalfOpen :: "CircuitBreaker \<Rightarrow> 'e cb_error option \<times> CircuitBreaker" where
  "allowHalfOpen cb =
     (let calls = cb_halfOpenCalls cb + 1 in
      if calls > HalfOpenMaxCalls (cb_config cb) then (Some ErrTooManyRequest, cb)
      else (None, cb\<lparr>cb_halfOpenCalls := calls\<rparr>))"

definition Allow :: "gtime \<Rightarrow> CircuitBreaker \<Rightarrow> 'e cb_error option \<times> CircuitBreaker" where
  "Allow now cb =
     (case cb_state cb of
        CircuitClosed \<Rightarrow> (None, cb)
      | CircuitOpen \<Rightarrow>
          if \<not> IsZero (cb_openedAt cb) \<and> now - cb_openedAt cb > Timeout (cb_config cb)
          then allowHalfOpen (transitionTo now CircuitHalfOpen cb)
          else (Some ErrCircuitOpen, cb)
      | CircuitHalfOpen \<Rightarrow> allowHalfOpen cb)"

definition recordCall :: "gtime \<Rightarrow> bool \<Rightarrow> CircuitBreaker \<Rightarrow> CircuitBreaker" where
  "recordCall now success cb =
     (let cutoff = now - FailureRateWindow (cb_config cb) in
      cb\<lparr>cb_recentCalls := filter (\<lambda>call. cr_timestamp call > cutoff)
           (cb_recentCalls cb @ [\<lparr>cr_timestamp = now, cr_success = success\<rparr>])\<rparr>)"

definition getFailureRate :: "CircuitBreaker \<Rightarrow> rat" where
  "getFailureRate cb =
     (if cb_recentCalls cb = [] then 0
      else let failures = length (filter (\<lambda>call. \<not> cr_success call) (cb_recentCalls cb))
           in fl (fl (of_nat failures / of_nat (length (cb_recentCalls cb))) * 100))"

definition Success :: "gtime \<Rightarrow> CircuitBreaker \<Rightarrow> CircuitBreaker" where
  "Success now cb0 =
     (let cb = recordCall now True cb0 in
      case cb_state cb of
        CircuitClosed \<Rightarrow> cb\<lparr>cb_failures := 0\<rparr>
      | CircuitOpen \<Rightarrow> cb
      | CircuitHalfOpen \<Rightarrow>
          let successes = cb_successes cb + 1; cb1 = cb\<lparr>cb_successes := successes\<rparr> in
          if successes \<ge> SuccessThreshold (cb_config cb) then transitionTo now CircuitClosed cb1 else cb1)"

definition Failure :: "gtime \<Rightarrow> CircuitBreaker \<Rightarrow> CircuitBreaker" where
  "Failure now cb0 =
     (let cb = (recordCall now False cb0)\<lparr>cb_lastFailure := now\<rparr> in
      case cb_state cb of
        CircuitClosed \<Rightarrow>
          let failures = cb_failures cb + 1; cb1 = cb\<lparr>cb_failures := failures\<rparr> in
          if failures \<ge> MaxFailures (cb_config cb) then transitionTo now CircuitOpen cb1
          else if FailureRatePercent (cb_config cb) > 0 \<and> getFailureRate cb1 \<ge> FailureRatePercent (cb_config cb)
          then transitionTo now CircuitOpen cb1
          else cb1
      | CircuitOpen \<Rightarrow> cb
      | CircuitHalfOpen \<Rightarrow> transitionTo now CircuitOpen cb)"

text \<open>\<open>now\<close> is the clock before the wrapped call and \<open>now'\<close> after it.\<close>

definition Execute ::
  "gtime \<Rightarrow> gtime \<Rightarrow> 'e option \<Rightarrow> CircuitBreaker \<Rightarrow> 'e cb_error option \<times> CircuitBreaker" where
  "Execute now now' fn cb =
     (case Allow now cb of
        (Some err, cb1) \<Rightarrow> (Some err, cb1)
      | (None, cb1) \<Rightarrow>
          (case fn of
             Some e \<Rightarrow> (Some (CallError e), Failure now' cb1)
           | None \<Rightarrow> (None, Success now' cb1)))"

definition ExecuteWithContext ::
  "gtime \<Rightarrow> gtime \<Rightarrow> 'e option \<Rightarrow> 'e option \<Rightarrow> CircuitBreaker \<Rightarrow> 'e cb_error option \<times> CircuitBreaker" where
  "ExecuteWithContext now now' ctxErr fn cb =
     (case Allow now cb of
        (Some err, cb1) \<Rightarrow> (Some err, cb1)
      | (None, cb1) \<Rightarrow>
          (case ctxErr of
             Some e \<Rightarrow> (Some (CallError e), cb1)
           | None \<Rightarrow>
               (case fn of
                  Some e \<Rightarrow> (Some (CallError e), Failure now' cb1)
                | None \<Rightarrow> (None, Success now' cb1))))"

definition WrapWithCircuitBreaker ::
  "gtime \<Rightarrow> gtime \<Rightarrow> 'a \<Rightarrow> 'a \<times> 'e option \<Rightarrow> CircuitBreaker \<Rightarrow> ('a \<times> 'e cb_error option) \<times> CircuitBreaker" where
  "WrapWithCircuitBreaker now now' zero fn cb =
     (case Allow now cb of
        (Some err, cb1) \<Rightarrow> ((zero, Some err), cb1)
      | (None, cb1) \<Rightarrow>
          (case fn of
             (result, Some e) \<Rightarrow> ((result, Some (CallError e)), Failure now' cb1)
           | (result, None) \<Rightarrow> ((result, None), Success now' cb1)))"

definition Reset :: "CircuitBreaker \<Rightarrow> CircuitBreaker" where
  "Reset cb = cb\<lparr>cb_state := CircuitClosed, cb_failures := 0, cb_successes := 0, cb_halfOpenCalls := 0,
     cb_lastFailure := 0, cb_openedAt := 0, cb_recentCalls := []\<rparr>"

section \<open>Registry and predefined breakers\<close>

text \<open>Breakers are shared by pointer, so an operation on a breaker updates the registry's entry.\<close>

type_synonym CircuitBreakerRegistry = "string \<rightharpoonup> CircuitBreaker"

definition Registry_Get :: "string \<Rightarrow> CircuitBreakerRegistry \<Rightarrow> CircuitBreaker \<times> CircuitBreakerRegistry" where
  "Registry_Get name r =
     (case r name of
        Some cb \<Rightarrow> (cb, r)
      | None \<Rightarrow> let cb = NewCircuitBreaker (Some (DefaultCircuitBreakerConfig name)) in (cb, r(name \<mapsto> cb)))"

definition Registry_GetWithConfig ::
  "CircuitBreakerConfig \<Rightarrow> CircuitBreakerRegistry \<Rightarrow> CircuitBreaker \<times> CircuitBreakerRegistry" where
  "Registry_GetWithConfig config r =
     (case r (cbc_Name config) of
        Some cb \<Rightarrow> (cb, r)
      | None \<Rightarrow> let cb = NewCircuitBreaker (Some config) in (cb, r(cbc_Name config \<mapsto> cb)))"

definition Registry_Reset :: "string \<Rightarrow> CircuitBreakerRegistry \<Rightarrow> CircuitBreakerRegistry" where
  "Registry_Reset name r = (case r name of None \<Rightarrow> r | Some cb \<Rightarrow> r(name \<mapsto> Reset cb))"

definition Registry_ResetAll :: "CircuitBreakerRegistry \<Rightarrow> CircuitBreakerRegistry" where
  "Registry_ResetAll r = (\<lambda>name. map_option Reset (r name))"

definition NewRedisCircuitBreaker :: CircuitBreaker where
  "NewRedisCircuitBreaker = NewCircuitBreaker (Some \<lparr>cbc_Name = ''redis'', MaxFailures = 3, Timeout = 10 * second,
     HalfOpenMaxCalls = 2, SuccessThreshold = 2, FailureRateWindow = 30 * second, FailureRatePercent = 50\<rparr>)"


section \<open>Runs\<close>

text \<open>A sequence of wrapped calls: the clock before and after each, and its outcome.\<close>

fun runCalls ::
  "(gtime \<times> gtime \<times> 'e option) list \<Rightarrow> CircuitBreaker \<Rightarrow> 'e cb_error option list \<times> CircuitBreaker" where
  "runCalls [] cb = ([], cb)"
| "runCalls ((now, now', fn) # calls) cb =
     (let (r, cb1) = Execute now now' fn cb; (rs, cb2) = runCalls calls cb1 in (r # rs, cb2))"



section \<open>Invariant\<close>



lemma recordCall_simps [simp]:
  "cb_config (recordCall now b cb) = cb_config cb" "cb_state (recordCall now b cb) = cb_state cb"
  "cb_failures (recordCall now b cb) = cb_failures cb" "cb_successes (recordCall now b cb) = cb_successes cb"
  "cb_halfOpenCalls (recordCall now b cb) = cb_halfOpenCalls cb" "cb_openedAt (recordCall now b cb) = cb_openedAt cb"
  by (simp_all add: recordCall_def Let_def)



section \<open>Half-open breakers\<close>

lemma runCalls_append:
  "runCalls (xs @ ys) cb =
     (let (rs, cb1) = runCalls xs cb; (qs, cb2) = runCalls ys cb1 in (rs @ qs, cb2))"
  by (induction xs arbitrary: cb) (auto simp: Let_def split_beta)

lemma runCalls_exhausted:
  assumes "cb_state cb = CircuitHalfOpen" "HalfOpenMaxCalls (cb_config cb) \<le> cb_halfOpenCalls cb"
  shows "runCalls calls cb = (replicate (length calls) (Some ErrTooManyRequest), cb)"
proof (induction calls)
  case (Cons x calls)
  then show ?case
    using assms by (cases x) (simp add: Execute_def Allow_def allowHalfOpen_def)
qed simp

text \<open>Successful calls in the half-open state: each uses up one slot and counts one success.\<close>

lemma halfOpen_success:
  assumes "cb_state cb = CircuitHalfOpen" "cb_successes cb = cb_halfOpenCalls cb"
    and "cb_halfOpenCalls cb < HalfOpenMaxCalls (cb_config cb)"
    and "HalfOpenMaxCalls (cb_config cb) < SuccessThreshold (cb_config cb)"
  shows "\<exists>cb'. Execute now now' None cb = (None, cb') \<and> cb_state cb' = CircuitHalfOpen \<and>
    cb_successes cb' = cb_halfOpenCalls cb' \<and> cb_halfOpenCalls cb' = cb_halfOpenCalls cb + 1 \<and>
    cb_config cb' = cb_config cb"
  using assms by (simp add: Execute_def Allow_def allowHalfOpen_def Success_def Let_def)

lemma halfOpen_successes:
  fixes probes :: "(gtime \<times> gtime \<times> 'e option) list"
  assumes "cb_state cb = CircuitHalfOpen" "cb_successes cb = cb_halfOpenCalls cb"
    and "HalfOpenMaxCalls (cb_config cb) < SuccessThreshold (cb_config cb)"
    and "cb_halfOpenCalls cb + int (length probes) = HalfOpenMaxCalls (cb_config cb)"
    and "list_all (\<lambda>(_, _, fn). fn = None) probes"
  shows "\<exists>cb'. runCalls probes cb = (replicate (length probes) None, cb') \<and> cb_state cb' = CircuitHalfOpen \<and>
    cb_halfOpenCalls cb' = HalfOpenMaxCalls (cb_config cb) \<and> cb_config cb' = cb_config cb"
  using assms
proof (induction probes arbitrary: cb)
  case (Cons p probes)
  obtain now now' where p: "p = (now, now', None)" using Cons.prems(5) by (cases p) auto
  have "cb_halfOpenCalls cb < HalfOpenMaxCalls (cb_config cb)" using Cons.prems(4) by simp
  then obtain cb1 where 1: "Execute now now' (None :: 'e option) cb = (None, cb1)" "cb_state cb1 = CircuitHalfOpen"
    "cb_successes cb1 = cb_halfOpenCalls cb1" "cb_halfOpenCalls cb1 = cb_halfOpenCalls cb + 1"
    "cb_config cb1 = cb_config cb"
    using halfOpen_success Cons.prems(1,2,3) by metis
  then show ?case using Cons.IH [of cb1] Cons.prems by (auto simp: p)
qed auto

section \<open>Properties of the circuit breaker\<close>



text \<open>A breaker whose success threshold exceeds its half-open call limit never closes again.
  Slots of the half-open state are not given back, so once the limit of successful probes is
  used up every later call is rejected, at any time, for ever.\<close>

lemma half_open_never_closes:
  assumes "cb_state cb = CircuitOpen" and "cb_config cb = c"
    and "cb_openedAt cb \<noteq> 0" and "Timeout c < now - cb_openedAt cb"
    and "HalfOpenMaxCalls c < SuccessThreshold c"
    and "int (length probes) + 1 = HalfOpenMaxCalls c"
    and "list_all (\<lambda>(_, _, fn). fn = None) probes"
  shows "\<exists>cb'. runCalls ((now, now', None) # probes @ calls) cb =
      (replicate (length probes + 1) None @ replicate (length calls) (Some ErrTooManyRequest), cb') \<and>
    cb_state cb' = CircuitHalfOpen"
proof -
  let ?h = "transitionTo now CircuitHalfOpen cb"
  have h: "cb_state ?h = CircuitHalfOpen" "cb_successes ?h = 0" "cb_halfOpenCalls ?h = 0" "cb_config ?h = c"
    using assms(1,2) by (simp_all add: transitionTo_def)
  have e: "Execute now now' fn cb = Execute now now' fn ?h" for fn :: "'a option"
    using assms(1-4) h(1) by (simp add: Execute_def Allow_def IsZero_def)
  obtain cb1 where 1: "runCalls ((now, now', None) # probes) ?h = (replicate (length probes + 1) (None :: 'a cb_error option), cb1)"
    "cb_state cb1 = CircuitHalfOpen" "cb_halfOpenCalls cb1 = HalfOpenMaxCalls c" "cb_config cb1 = c"
    using halfOpen_successes [of ?h "(now, now', None) # probes"] h assms(5-7) by auto
  have "runCalls ((now, now', None) # probes @ calls) cb = runCalls (((now, now', None) # probes) @ calls) ?h"
    by (simp add: e)
  also have "\<dots> = (replicate (length probes + 1) None @ replicate (length calls) (Some ErrTooManyRequest), cb1)"
    using runCalls_exhausted [of cb1 calls] 1(2-4) unfolding runCalls_append 1(1) by simp
  finally show ?thesis using 1(2) by blast
qed

text \<open>The recording breaker is such a breaker: one failure opens it, and one successful probe
  afterwards blocks it.\<close>

end
