(* ===== verification/Hash_Ring.thy ===== *)
theory Hash_Ring
  imports Go_Float
begin

text \<open>
  Consistent hashing of sessions to nodes, \<^verbatim>\<open>internal/consistent_hash.go\<close>: the ring of virtual
  nodes, lookup with and without load balancing, the session router on top of it, and
  rendezvous hashing.

  The digest is the parameter \<open>sha256\<close>, a function from bytes to bytes; nothing is assumed of
  it, so collisions are possible. A Go map that is ranged over is an association list, and the
  order in which the range visits it is an argument. \<open>None\<close> as an outer result is a panic.
\<close>

section \<open>The ring\<close>

record ConsistentHashConfig =
  ReplicationFactor :: int
  LoadFactor :: rat

definition DefaultConsistentHashConfig :: ConsistentHashConfig where
  "DefaultConsistentHashConfig = \<lparr>ReplicationFactor = 150, LoadFactor = 5 / 4\<rparr>"

record HashNode =
  hn_ID :: string
  hn_Address :: string
  hn_Weight :: int
  hn_Healthy :: bool
  hn_Metadata :: "(string \<times> string) list"

record HashRing =
  hr_config :: ConsistentHashConfig
  hr_nodes :: "(string \<times> HashNode) list"
  hr_ring :: "u32 list"
  hr_ringNodes :: "u32 \<rightharpoonup> string"
  hr_nodeLoad :: "(string \<times> int) list"
  hr_totalLoad :: int

definition NewHashRing :: "ConsistentHashConfig option \<Rightarrow> HashRing" where
  "NewHashRing config =
     \<lparr>hr_config = (case config of None \<Rightarrow> DefaultConsistentHashConfig | Some c \<Rightarrow> c),
      hr_nodes = [], hr_ring = [], hr_ringNodes = Map.empty, hr_nodeLoad = [], hr_totalLoad = 0\<rparr>"

type_synonym digest = "u8 list \<Rightarrow> u8 list"

definition bytes_of :: "string \<Rightarrow> u8 list" where
  "bytes_of s = map (\<lambda>c. of_nat (of_char c)) s"

text \<open>\<^verbatim>\<open>binary.BigEndian.Uint32(hash[:4])\<close>; a digest has 32 bytes, so the other case does not arise.\<close>

definition leading32 :: "u8 list \<Rightarrow> u32" where
  "leading32 h = (case get32 h of Some w \<Rightarrow> w | None \<Rightarrow> 0)"

definition hashKey :: "digest \<Rightarrow> string \<Rightarrow> nat \<Rightarrow> u32" where
  "hashKey sha256 nodeID replica = leading32 (sha256 (bytes_of nodeID @ be32 (of_nat replica)))"

definition hashString :: "digest \<Rightarrow> string \<Rightarrow> u32" where
  "hashString sha256 key = leading32 (sha256 (bytes_of key))"

definition replicaCount :: "ConsistentHashConfig \<Rightarrow> HashNode \<Rightarrow> nat" where
  "replicaCount c node =
     nat (if hn_Weight node > 0 then ReplicationFactor c * hn_Weight node else ReplicationFactor c)"

text \<open>The hashes of the virtual nodes of a node, in the order of the loops of \<^verbatim>\<open>AddNode\<close> and
  \<^verbatim>\<open>RemoveNode\<close>.\<close>

definition virtualNodes :: "digest \<Rightarrow> ConsistentHashConfig \<Rightarrow> string \<Rightarrow> HashNode \<Rightarrow> u32 list" where
  "virtualNodes sha256 c nodeID node = map (hashKey sha256 nodeID) [0..<replicaCount c node]"

definition AddNode :: "digest \<Rightarrow> HashNode \<Rightarrow> HashRing \<Rightarrow> HashRing" where
  "AddNode sha256 node hr =
     (if map_of (hr_nodes hr) (hn_ID node) \<noteq> None then hr
      else let hashes = virtualNodes sha256 (hr_config hr) (hn_ID node) node in
        hr\<lparr>hr_nodes := AList.update (hn_ID node) node (hr_nodes hr),
           hr_nodeLoad := AList.update (hn_ID node) 0 (hr_nodeLoad hr),
           hr_ring := sort (hr_ring hr @ hashes),
           hr_ringNodes := fold (\<lambda>hash m. m(hash \<mapsto> hn_ID node)) hashes (hr_ringNodes hr)\<rparr>)"

text \<open>The capacity of the new ring slice is \<^verbatim>\<open>len(hr.ring)-len(hashesToRemove)\<close>; a negative one panics.\<close>

definition RemoveNode :: "digest \<Rightarrow> string \<Rightarrow> HashRing \<Rightarrow> HashRing option" where
  "RemoveNode sha256 nodeID hr =
     (case map_of (hr_nodes hr) nodeID of
        None \<Rightarrow> Some hr
      | Some node \<Rightarrow>
          let hashes = virtualNodes sha256 (hr_config hr) nodeID node in
          if length (hr_ring hr) < length (remdups hashes) then None
          else Some (hr\<lparr>hr_ringNodes := fold (\<lambda>hash m. m(hash := None)) hashes (hr_ringNodes hr),
                        hr_ring := filter (\<lambda>h. h \<notin> set hashes) (hr_ring hr),
                        hr_totalLoad := hr_totalLoad hr -
                          (case map_of (hr_nodeLoad hr) nodeID of None \<Rightarrow> 0 | Some l \<Rightarrow> l),
                        hr_nodes := AList.delete nodeID (hr_nodes hr),
                        hr_nodeLoad := AList.delete nodeID (hr_nodeLoad hr)\<rparr>))"

text \<open>Go's \<^verbatim>\<open>sort.Search\<close>: binary search for the first index that satisfies a predicate.\<close>

function searchLoop :: "(nat \<Rightarrow> bool) \<Rightarrow> nat \<Rightarrow> nat \<Rightarrow> nat" where
  "searchLoop f i j =
     (if i < j then let h = (i + j) div 2 in if \<not> f h then searchLoop f (h + 1) j else searchLoop f i h
      else i)"
  by pat_completeness auto
termination searchLoop by (relation "measure (\<lambda>(f, i, j). j - i)") auto

declare searchLoop.simps [simp del]

definition search :: "u32 \<Rightarrow> HashRing \<Rightarrow> nat" where
  "search hash hr =
     (let idx = searchLoop (\<lambda>i. hr_ring hr ! i \<ge> hash) 0 (length (hr_ring hr)) in
      if idx \<ge> length (hr_ring hr) then 0 else idx)"

text \<open>The node that the ring names at a position; a missing map entry is the empty identifier.\<close>

definition nodeAt :: "HashRing \<Rightarrow> nat \<Rightarrow> string" where
  "nodeAt hr i = (case hr_ringNodes hr (hr_ring hr ! (i mod length (hr_ring hr))) of None \<Rightarrow> [] | Some nodeID \<Rightarrow> nodeID)"

definition GetNode :: "digest \<Rightarrow> string \<Rightarrow> HashRing \<Rightarrow> HashNode option" where
  "GetNode sha256 key hr =
     (if hr_ring hr = [] then None
      else map_of (hr_nodes hr) (nodeAt hr (search (hashString sha256 key) hr)))"

definition loadOf :: "HashRing \<Rightarrow> string \<Rightarrow> int" where
  "loadOf hr nodeID = (case map_of (hr_nodeLoad hr) nodeID of None \<Rightarrow> 0 | Some l \<Rightarrow> l)"

text \<open>The loop of \<^verbatim>\<open>GetNodeWithLoad\<close> over the remaining offsets; dereferencing a missing node panics.\<close>

fun findSuitable :: "HashRing \<Rightarrow> nat \<Rightarrow> int \<Rightarrow> nat list \<Rightarrow> HashNode option option" where
  "findSuitable hr idx maxLoad [] = Some None"
| "findSuitable hr idx maxLoad (i # offsets) =
     (case map_of (hr_nodes hr) (nodeAt hr (idx + i)) of
        None \<Rightarrow> None
      | Some node \<Rightarrow>
          if hn_Healthy node \<and> loadOf hr (nodeAt hr (idx + i)) < maxLoad then Some (Some node)
          else findSuitable hr idx maxLoad offsets)"

definition maxLoadOf :: "HashRing \<Rightarrow> int" where
  "maxLoadOf hr =
     (let avgLoad = fl (of_int (hr_totalLoad hr) / of_nat (length (hr_nodes hr)));
          maxLoad = trunc (fl (avgLoad * LoadFactor (hr_config hr)))
      in if maxLoad < 1 then 1 else maxLoad)"

definition firstHealthy :: "string list \<Rightarrow> HashRing \<Rightarrow> HashNode option" where
  "firstHealthy order hr =
     (case filter hn_Healthy (List.map_filter (map_of (hr_nodes hr)) order) of [] \<Rightarrow> None | n # _ \<Rightarrow> Some n)"

definition GetNodeWithLoad :: "digest \<Rightarrow> string list \<Rightarrow> string \<Rightarrow> HashRing \<Rightarrow> HashNode option option" where
  "GetNodeWithLoad sha256 order key hr =
     (if hr_ring hr = [] then Some None
      else let idx = search (hashString sha256 key) hr in
        case findSuitable hr idx (maxLoadOf hr) [0..<length (hr_ring hr)] of
          None \<Rightarrow> None
        | Some (Some node) \<Rightarrow> Some (Some node)
        | Some None \<Rightarrow>
            (case firstHealthy order hr of
               Some node \<Rightarrow> Some (Some node)
             | None \<Rightarrow> Some (map_of (hr_nodes hr) (nodeAt hr idx))))"

fun collectNodes :: "HashRing \<Rightarrow> nat \<Rightarrow> int \<Rightarrow> nat list \<Rightarrow> string list \<Rightarrow> HashNode option list \<Rightarrow> HashNode option list" where
  "collectNodes hr idx num [] seen result = result"
| "collectNodes hr idx num (i # offsets) seen result =
     (if int (length result) < num
      then let nodeID = nodeAt hr (idx + i) in
        if nodeID \<notin> set seen
        then collectNodes hr idx num offsets (nodeID # seen) (result @ [map_of (hr_nodes hr) nodeID])
        else collectNodes hr idx num offsets seen result
      else result)"

text \<open>A negative capacity of the result slice panics.\<close>

definition GetNodes :: "digest \<Rightarrow> string \<Rightarrow> int \<Rightarrow> HashRing \<Rightarrow> HashNode option list option" where
  "GetNodes sha256 key num hr =
     (if hr_ring hr = [] then Some []
      else if num < 0 then None
      else Some (collectNodes hr (search (hashString sha256 key) hr) num [0..<length (hr_ring hr)] [] []))"

definition IncrementLoad :: "string \<Rightarrow> HashRing \<Rightarrow> HashRing" where
  "IncrementLoad nodeID hr =
     (case map_of (hr_nodeLoad hr) nodeID of
        None \<Rightarrow> hr
      | Some l \<Rightarrow> hr\<lparr>hr_nodeLoad := AList.update nodeID (l + 1) (hr_nodeLoad hr), hr_totalLoad := hr_totalLoad hr + 1\<rparr>)"

definition DecrementLoad :: "string \<Rightarrow> HashRing \<Rightarrow> HashRing" where
  "DecrementLoad nodeID hr =
     (case map_of (hr_nodeLoad hr) nodeID of
        None \<Rightarrow> hr
      | Some l \<Rightarrow>
          if l > 0
          then hr\<lparr>hr_nodeLoad := AList.update nodeID (l - 1) (hr_nodeLoad hr), hr_totalLoad := hr_totalLoad hr - 1\<rparr>
          else hr)"

definition SetNodeHealth :: "string \<Rightarrow> bool \<Rightarrow> HashRing \<Rightarrow> HashRing" where
  "SetNodeHealth nodeID healthy hr =
     (case map_of (hr_nodes hr) nodeID of
        None \<Rightarrow> hr
      | Some node \<Rightarrow> hr\<lparr>hr_nodes := AList.update nodeID (node\<lparr>hn_Healthy := healthy\<rparr>) (hr_nodes hr)\<rparr>)"

definition GetHealthyNodes :: "string list \<Rightarrow> HashRing \<Rightarrow> HashNode list" where
  "GetHealthyNodes order hr = filter hn_Healthy (List.map_filter (map_of (hr_nodes hr)) order)"

section \<open>The session router\<close>

record SessionRouter =
  sr_ring :: HashRing
  sr_sticky :: "string \<rightharpoonup> string"

definition NewSessionRouter :: "ConsistentHashConfig option \<Rightarrow> SessionRouter" where
  "NewSessionRouter config = \<lparr>sr_ring = NewHashRing config, sr_sticky = Map.empty\<rparr>"

definition Router_RemoveNode :: "digest \<Rightarrow> string \<Rightarrow> SessionRouter \<Rightarrow> SessionRouter option" where
  "Router_RemoveNode sha256 nodeID sr =
     map_option (\<lambda>hr. sr\<lparr>sr_ring := hr, sr_sticky := (\<lambda>s. if sr_sticky sr s = Some nodeID then None else sr_sticky sr s)\<rparr>)
       (RemoveNode sha256 nodeID (sr_ring sr))"

definition RouteSession :: "digest \<Rightarrow> string list \<Rightarrow> string \<Rightarrow> SessionRouter \<Rightarrow> (HashNode option \<times> SessionRouter) option" where
  "RouteSession sha256 order sessionID sr =
     (let stuck = (case sr_sticky sr sessionID of
           None \<Rightarrow> []
         | Some nodeID \<Rightarrow> filter (\<lambda>node. hn_ID node = nodeID \<and> hn_Healthy node) (List.map_filter (map_of (hr_nodes (sr_ring sr))) order)) in
      case stuck of
        node # _ \<Rightarrow> Some (Some node, sr)
      | [] \<Rightarrow>
          (case GetNodeWithLoad sha256 order sessionID (sr_ring sr) of
             None \<Rightarrow> None
           | Some None \<Rightarrow> Some (None, sr)
           | Some (Some node) \<Rightarrow>
               Some (Some node, sr\<lparr>sr_sticky := (sr_sticky sr)(sessionID \<mapsto> hn_ID node),
                                   sr_ring := IncrementLoad (hn_ID node) (sr_ring sr)\<rparr>)))"

definition EndSession :: "string \<Rightarrow> SessionRouter \<Rightarrow> SessionRouter" where
  "EndSession sessionID sr =
     (let sr1 = sr\<lparr>sr_sticky := (sr_sticky sr)(sessionID := None)\<rparr> in
      case sr_sticky sr sessionID of
        None \<Rightarrow> sr1
      | Some nodeID \<Rightarrow> sr1\<lparr>sr_ring := DecrementLoad nodeID (sr_ring sr1)\<rparr>)"

section \<open>Rendezvous hashing\<close>

type_synonym RendezvousHash = "(string \<times> HashNode) list"

definition computeWeight :: "digest \<Rightarrow> string \<Rightarrow> string \<Rightarrow> u32" where
  "computeWeight sha256 key nodeID = leading32 (sha256 (bytes_of (key @ nodeID)))"

definition heavier :: "digest \<Rightarrow> string \<Rightarrow> HashNode \<Rightarrow> (HashNode \<times> u32) option \<Rightarrow> (HashNode \<times> u32) option" where
  "heavier sha256 key node best =
     (if \<not> hn_Healthy node then best
      else let weight = computeWeight sha256 key (hn_ID node) in
        case best of
          None \<Rightarrow> Some (node, weight)
        | Some (_, maxWeight) \<Rightarrow> if weight > maxWeight then Some (node, weight) else best)"

definition Rendezvous_GetNode :: "digest \<Rightarrow> string list \<Rightarrow> string \<Rightarrow> RendezvousHash \<Rightarrow> HashNode option" where
  "Rendezvous_GetNode sha256 order key rh =
     map_option fst (fold (heavier sha256 key) (List.map_filter (map_of rh) order) None)"

definition Rendezvous_AddNode :: "HashNode \<Rightarrow> RendezvousHash \<Rightarrow> RendezvousHash" where
  "Rendezvous_AddNode node rh = AList.update (hn_ID node) node rh"

definition Rendezvous_RemoveNode :: "string \<Rightarrow> RendezvousHash \<Rightarrow> RendezvousHash" where
  "Rendezvous_RemoveNode nodeID rh = AList.delete nodeID rh"

section \<open>Binary search and the owning point\<close>

lemma searchLoop_spec:
  assumes "i \<le> j" "j \<le> n" "\<And>k m. k \<le> m \<Longrightarrow> m < n \<Longrightarrow> f k \<Longrightarrow> f m"
    and "\<And>k. k < i \<Longrightarrow> \<not> f k" "\<And>k. j \<le> k \<Longrightarrow> k < n \<Longrightarrow> f k"
  shows "searchLoop f i j \<le> n \<and> (\<forall>k < searchLoop f i j. \<not> f k) \<and> (\<forall>k. searchLoop f i j \<le> k \<longrightarrow> k < n \<longrightarrow> f k)"
  using assms(1,2,4,5)
proof (induction "j - i" arbitrary: i j rule: less_induct)
  case less
  let ?h = "(i + j) div 2"
  consider "\<not> i < j" | "i < j" "f ?h" | "i < j" "\<not> f ?h" by blast
  then show ?case
  proof cases
    case 1
    then have "searchLoop f i j = i" by (simp add: searchLoop.simps [of f i j])
    then show ?thesis using 1 less.prems by auto
  next
    case 2
    have h: "f k" if "?h \<le> k" "k < n" for k using assms(3) [OF that 2(2)] .
    have "searchLoop f i j = searchLoop f i ?h" using 2 by (simp add: searchLoop.simps [of f i j] Let_def)
    then show ?thesis using less.hyps [of ?h i] less.prems 2(1) h by simp
  next
    case 3
    have "?h < n" using 3(1) less.prems(2) by linarith
    then have h: "\<not> f k" if "k < ?h + 1" for k using assms(3) [of k ?h] that 3 by auto
    have "searchLoop f i j = searchLoop f (?h + 1) j" using 3 by (simp add: searchLoop.simps [of f i j] Let_def)
    then show ?thesis using less.hyps [of j "?h + 1"] less.prems 3(1) h by simp
  qed
qed

text \<open>Reference: the first point at or after the hash, or the first of all when there is none.\<close>

definition ring_point :: "u32 set \<Rightarrow> u32 \<Rightarrow> u32" where
  "ring_point H hash = (if \<exists>h\<in>H. hash \<le> h then Min {h \<in> H. hash \<le> h} else Min H)"

lemma ring_point_in: "finite H \<Longrightarrow> H \<noteq> {} \<Longrightarrow> ring_point H hash \<in> H"
proof -
  assume H: "finite H" "H \<noteq> {}"
  have "Min {h \<in> H. hash \<le> h} \<in> {h \<in> H. hash \<le> h}" if "\<exists>h\<in>H. hash \<le> h"
    using that H by (intro Min_in) auto
  then show ?thesis using H by (auto simp: ring_point_def)
qed

text \<open>Taking away points that do not own the hash does not change its owner.\<close>

lemma ring_point_subset:
  assumes "finite H" "K \<subseteq> H" "ring_point H hash \<in> K"
  shows "ring_point K hash = ring_point H hash"
proof (cases "\<exists>h\<in>H. hash \<le> h")
  case True
  let ?p = "ring_point H hash"
  have p: "?p = Min {h \<in> H. hash \<le> h}" using True by (simp add: ring_point_def)
  have "?p \<in> {h \<in> H. hash \<le> h}" unfolding p using True assms(1) by (intro Min_in) auto
  then have K: "?p \<in> {h \<in> K. hash \<le> h}" using assms(3) by simp
  have "?p \<le> h" if "h \<in> {h \<in> K. hash \<le> h}" for h
    unfolding p using that assms(1,2) by (intro Min_le) auto
  then have "Min {h \<in> K. hash \<le> h} = ?p"
    using K assms(1,2) by (intro Min_eqI) (auto intro: finite_subset)
  then show ?thesis using K unfolding ring_point_def [of K] by auto
next
  case False
  have "ring_point H hash \<le> h" if "h \<in> K" for h
    using False that assms(1,2) by (auto simp: ring_point_def)
  then have "Min K = ring_point H hash"
    using assms by (intro Min_eqI) (auto intro: finite_subset)
  then show ?thesis using False assms(2) by (auto simp: ring_point_def)
qed

lemma search_point:
  assumes "sorted (hr_ring hr)" "hr_ring hr \<noteq> []"
  shows "search hash hr < length (hr_ring hr)" "hr_ring hr ! search hash hr = ring_point (set (hr_ring hr)) hash"
proof -
  let ?r = "hr_ring hr" and ?f = "\<lambda>i. hr_ring hr ! i \<ge> hash"
  let ?i = "searchLoop ?f 0 (length ?r)"
  have mono: "hash \<le> ?r ! m" if "k \<le> m" "m < length ?r" "hash \<le> ?r ! k" for k m
    by (rule order_trans [OF that(3) sorted_nth_mono [OF assms(1) that(1,2)]])
  have "?i \<le> length ?r \<and> (\<forall>k<?i. \<not> ?f k) \<and> (\<forall>k. ?i \<le> k \<longrightarrow> k < length ?r \<longrightarrow> ?f k)"
  proof (rule searchLoop_spec [of 0 "length ?r" "length ?r" ?f])
    show "hash \<le> ?r ! m" if "k \<le> m" "m < length ?r" "hash \<le> ?r ! k" for k m using that by (rule mono)
  qed simp_all
  then have i: "?i \<le> length ?r" "\<And>k. k < ?i \<Longrightarrow> \<not> hash \<le> ?r ! k" "\<And>k. ?i \<le> k \<Longrightarrow> k < length ?r \<Longrightarrow> hash \<le> ?r ! k"
    by blast+
  show "search hash hr < length ?r" using assms(2) by (simp add: search_def Let_def)
  show "?r ! search hash hr = ring_point (set ?r) hash"
  proof (cases "?i < length ?r")
    case True
    have ex: "\<exists>h\<in>set ?r. hash \<le> h" using i(3) [of ?i] True by auto
    have "Min {h \<in> set ?r. hash \<le> h} = ?r ! ?i"
    proof (rule Min_eqI)
      fix y assume "y \<in> {h \<in> set ?r. hash \<le> h}"
      then obtain k where "k < length ?r" "y = ?r ! k" "hash \<le> ?r ! k" by (auto simp: in_set_conv_nth)
      then show "?r ! ?i \<le> y" using i(2) [of k] sorted_nth_mono [OF assms(1), of ?i k] by (metis not_less)
    qed (use i(3) [of ?i] True in auto)
    then show ?thesis using ex True by (simp add: ring_point_def search_def)
  next
    case False
    then have "\<not> (\<exists>h\<in>set ?r. hash \<le> h)" using i(1,2) by (auto simp: in_set_conv_nth)
    moreover have "Min (set ?r) = ?r ! 0"
      using assms by (cases ?r) (auto intro!: Min_eqI)
    ultimately show ?thesis using False by (simp add: ring_point_def search_def Let_def)
  qed
qed

section \<open>Invariant of the ring\<close>

definition hr_inv :: "digest \<Rightarrow> HashRing \<Rightarrow> bool" where
  "hr_inv sha256 hr \<longleftrightarrow> sorted (hr_ring hr) \<and>
     (\<forall>h\<in>set (hr_ring hr). \<exists>nodeID. hr_ringNodes hr h = Some nodeID) \<and>
     (\<forall>h nodeID. hr_ringNodes hr h = Some nodeID \<longrightarrow>
        (\<exists>node. map_of (hr_nodes hr) nodeID = Some node \<and> h \<in> set (virtualNodes sha256 (hr_config hr) nodeID node))) \<and>
     (\<forall>nodeID node. map_of (hr_nodes hr) nodeID = Some node \<longrightarrow> hn_ID node = nodeID)"

lemma fold_map_upd: "fold (\<lambda>hash m. m(hash \<mapsto> v)) hs m = (\<lambda>h. if h \<in> set hs then Some v else m h)"
  by (induction hs arbitrary: m) (auto simp: fun_eq_iff)

lemma fold_map_del: "fold (\<lambda>hash m. m(hash := None)) hs m = (\<lambda>h. if h \<in> set hs then None else m h)"
  by (induction hs arbitrary: m) (auto simp: fun_eq_iff)

lemma virtualNodes_health [simp]:
  "virtualNodes sha256 c nodeID (node\<lparr>hn_Healthy := b\<rparr>) = virtualNodes sha256 c nodeID node"
  by (simp add: virtualNodes_def replicaCount_def)

lemma hr_inv_Add: "hr_inv sha256 hr \<Longrightarrow> hr_inv sha256 (AddNode sha256 node hr)"
  unfolding hr_inv_def AddNode_def Let_def
  by (auto simp: fold_map_upd update_conv') (metis option.distinct(1))

text \<open>What is left after a removal that does not panic.\<close>

lemma RemoveNode_SomeD:
  assumes "RemoveNode sha256 nodeID hr = Some hr'" "map_of (hr_nodes hr) nodeID = Some node"
  shows "hr_ring hr' = filter (\<lambda>h. h \<notin> set (virtualNodes sha256 (hr_config hr) nodeID node)) (hr_ring hr)"
    "hr_ringNodes hr' = (\<lambda>h. if h \<in> set (virtualNodes sha256 (hr_config hr) nodeID node) then None else hr_ringNodes hr h)"
    "hr_config hr' = hr_config hr" "map_of (hr_nodes hr') = (map_of (hr_nodes hr))(nodeID := None)"
  using assms by (auto simp: RemoveNode_def Let_def fold_map_del delete_conv' split: if_splits)

lemma hr_inv_Remove:
  assumes inv: "hr_inv sha256 hr" and rm: "RemoveNode sha256 nodeID hr = Some hr'"
  shows "hr_inv sha256 hr'"
proof (cases "map_of (hr_nodes hr) nodeID")
  case (Some node)
  note r = RemoveNode_SomeD [OF rm Some]
  have owner: "\<exists>n. map_of (hr_nodes hr) i = Some n \<and> h \<in> set (virtualNodes sha256 (hr_config hr) i n)"
    if "hr_ringNodes hr h = Some i" for h i using inv that by (auto simp: hr_inv_def)
  have "i \<noteq> nodeID" if "hr_ringNodes hr' h = Some i" for h i
    using that owner [of h i] Some by (auto simp: r split: if_splits)
  then show ?thesis
    using inv owner unfolding hr_inv_def r by (auto simp: sorted_wrt_filter split: if_splits)
qed (use assms in \<open>simp add: RemoveNode_def\<close>)

inductive hr_step :: "digest \<Rightarrow> HashRing \<Rightarrow> HashRing \<Rightarrow> bool" for sha256 where
  add: "hr_step sha256 hr (AddNode sha256 node hr)"
| remove: "RemoveNode sha256 nodeID hr = Some hr' \<Longrightarrow> hr_step sha256 hr hr'"
| inc: "hr_step sha256 hr (IncrementLoad nodeID hr)"
| dec: "hr_step sha256 hr (DecrementLoad nodeID hr)"
| health: "hr_step sha256 hr (SetNodeHealth nodeID healthy hr)"

inductive hr_reach :: "digest \<Rightarrow> HashRing \<Rightarrow> bool" for sha256 where
  new: "hr_reach sha256 (NewHashRing config)"
| step: "hr_reach sha256 hr \<Longrightarrow> hr_step sha256 hr hr' \<Longrightarrow> hr_reach sha256 hr'"

lemma hr_inv_health: "hr_inv sha256 hr \<Longrightarrow> hr_inv sha256 (SetNodeHealth nodeID healthy hr)"
  unfolding hr_inv_def SetNodeHealth_def by (auto simp: update_conv' split: option.splits) (metis option.inject)

lemma hr_inv_load:
  "hr_inv sha256 (IncrementLoad nodeID hr) = hr_inv sha256 hr"
  "hr_inv sha256 (DecrementLoad nodeID hr) = hr_inv sha256 hr"
  by (simp_all add: hr_inv_def IncrementLoad_def DecrementLoad_def split: option.split)

lemma hr_reach_inv: "hr_reach sha256 hr \<Longrightarrow> hr_inv sha256 hr"
proof (induction rule: hr_reach.induct)
  case new
  show ?case by (simp add: hr_inv_def NewHashRing_def)
next
  case (step hr hr')
  from step(2,3) show ?case
    by (cases rule: hr_step.cases) (auto simp: hr_inv_load intro: hr_inv_Add hr_inv_Remove hr_inv_health)
qed

text \<open>Lookup finds the node of the owning point.\<close>

lemma GetNode_point:
  assumes inv: "hr_inv sha256 hr" and ne: "hr_ring hr \<noteq> []"
  obtains node where "GetNode sha256 key hr = Some node"
    "hr_ringNodes hr (ring_point (set (hr_ring hr)) (hashString sha256 key)) = Some (hn_ID node)"
    "map_of (hr_nodes hr) (hn_ID node) = Some node"
proof -
  let ?p = "ring_point (set (hr_ring hr)) (hashString sha256 key)"
  have s: "sorted (hr_ring hr)" using inv by (simp add: hr_inv_def)
  note sp = search_point [OF s ne, of "hashString sha256 key"]
  have "?p \<in> set (hr_ring hr)" using ne by (intro ring_point_in) auto
  then obtain i node where i: "hr_ringNodes hr ?p = Some i" "map_of (hr_nodes hr) i = Some node"
    using inv unfolding hr_inv_def by metis
  then have "hn_ID node = i" using inv by (auto simp: hr_inv_def)
  moreover have "nodeAt hr (search (hashString sha256 key) hr) = i" using sp i by (simp add: nodeAt_def)
  ultimately show ?thesis using i ne by (intro that [of node]) (simp_all add: GetNode_def)
qed

section \<open>Properties of the ring\<close>

text \<open>C21. The binary search of the ring computes the reference: in every reachable state a
  non-empty ring assigns a key to the node that owns the first virtual node at or after the
  hash of the key, or the first of all when there is none.\<close>

theorem GetNode_is_successor:
  assumes "hr_reach sha256 hr" and "hr_ring hr \<noteq> []"
  shows "\<exists>node. GetNode sha256 key hr = Some node \<and> map_of (hr_nodes hr) (hn_ID node) = Some node \<and>
    hr_ringNodes hr (ring_point (set (hr_ring hr)) (hashString sha256 key)) = Some (hn_ID node)"
  using GetNode_point [OF hr_reach_inv [OF assms(1)] assms(2), of key] by metis

text \<open>A digest for examples: the length of the data and its first bytes.\<close>

definition sample_digest :: digest where
  "sample_digest data = take 32 (map (\<lambda>b. b XOR of_nat (length data)) data @ replicate 32 0)"

definition sample_node :: "string \<Rightarrow> HashNode" where
  "sample_node name = \<lparr>hn_ID = name, hn_Address = [], hn_Weight = 0, hn_Healthy = True, hn_Metadata = []\<rparr>"

definition sample_ring :: HashRing where
  "sample_ring = AddNode sample_digest (sample_node ''bbbb'')
     (AddNode sample_digest (sample_node ''aaaa'') (NewHashRing (Some \<lparr>ReplicationFactor = 1, LoadFactor = 1\<rparr>)))"

lemma sample_ring_reach: "hr_reach sample_digest sample_ring"
  unfolding sample_ring_def by (intro hr_reach.step [OF _ hr_step.add] hr_reach.new)

lemma sample_ring_nodes:
  "GetNode sample_digest ''k'' sample_ring = Some (sample_node ''bbbb'')"
  "hr_ring sample_ring \<noteq> []"
  by code_simp+

theorem GetNode_is_successor_witness:
  "\<exists>node. GetNode sample_digest ''k'' sample_ring = Some node \<and> map_of (hr_nodes sample_ring) (hn_ID node) = Some node"
  using GetNode_is_successor [OF sample_ring_reach sample_ring_nodes(2), of "''k''"] by blast

lemma GetNode_owner:
  assumes "hr_inv sha256 hr" "GetNode sha256 key hr = Some node"
  defines "p \<equiv> ring_point (set (hr_ring hr)) (hashString sha256 key)"
  shows "p \<in> set (hr_ring hr)" "hr_ringNodes hr p = Some (hn_ID node)" "map_of (hr_nodes hr) (hn_ID node) = Some node"
    and "p \<in> set (virtualNodes sha256 (hr_config hr) (hn_ID node) node)"
proof -
  have ne: "hr_ring hr \<noteq> []" using assms(2) by (auto simp: GetNode_def split: if_splits)
  show "p \<in> set (hr_ring hr)" using ne unfolding p_def by (intro ring_point_in) auto
  show o: "hr_ringNodes hr p = Some (hn_ID node)" "map_of (hr_nodes hr) (hn_ID node) = Some node"
    using assms(2) unfolding p_def by (auto intro: GetNode_point [OF assms(1) ne, of key])
  have "\<exists>b. map_of (hr_nodes hr) (hn_ID node) = Some b \<and> p \<in> set (virtualNodes sha256 (hr_config hr) (hn_ID node) b)"
    using assms(1) o(1) unfolding hr_inv_def by blast
  then show "p \<in> set (virtualNodes sha256 (hr_config hr) (hn_ID node) node)" using o(2) by simp
qed

lemma RemoveNode_keeps_owner:
  assumes "hr_inv sha256 hr" and "GetNode sha256 key hr = Some node"
    and "RemoveNode sha256 gone hr = Some hr'" and "hn_ID node \<noteq> gone"
    and "\<And>a b. map_of (hr_nodes hr) gone = Some a \<Longrightarrow> map_of (hr_nodes hr) (hn_ID node) = Some b \<Longrightarrow>
      set (virtualNodes sha256 (hr_config hr) gone a) \<inter> set (virtualNodes sha256 (hr_config hr) (hn_ID node) b) = {}"
  shows "GetNode sha256 key hr' = Some node"
proof -
  let ?hash = "hashString sha256 key" and ?c = "hr_config hr"
  let ?p = "ring_point (set (hr_ring hr)) ?hash"
  note inv = assms(1)
  note p = GetNode_owner(1) [OF assms(1,2)] and owner = GetNode_owner(2,3) [OF assms(1,2)] and v = GetNode_owner(4) [OF assms(1,2)]
  show "GetNode sha256 key hr' = Some node"
  proof (cases "map_of (hr_nodes hr) gone")
    case None
    then show ?thesis using assms(2,3) by (simp add: RemoveNode_def)
  next
    case (Some a)
    note r = RemoveNode_SomeD [OF assms(3) Some]
    have out: "?p \<notin> set (virtualNodes sha256 ?c gone a)" using assms(5) [OF Some owner(2)] v by blast
    have p': "ring_point (set (hr_ring hr')) ?hash = ?p"
      using p out by (intro ring_point_subset) (auto simp: r)
    have "hr_ring hr' \<noteq> []" using p out by (auto simp: r filter_empty_conv)
    then obtain n where "GetNode sha256 key hr' = Some n"
      "hr_ringNodes hr' (ring_point (set (hr_ring hr')) ?hash) = Some (hn_ID n)"
      "map_of (hr_nodes hr') (hn_ID n) = Some n"
      by (rule GetNode_point [OF hr_inv_Remove [OF inv assms(3)]])
    then show ?thesis using owner out assms(4) unfolding p' by (simp add: r split: if_splits)
  qed
qed

lemma AddNode_moves_to_new:
  assumes "hr_inv sha256 hr" and "GetNode sha256 key hr = Some node" and "map_of (hr_nodes hr) (hn_ID new) = None"
  shows "GetNode sha256 key (AddNode sha256 new hr) = Some node \<or> GetNode sha256 key (AddNode sha256 new hr) = Some new"
proof -
  let ?hash = "hashString sha256 key" and ?c = "hr_config hr"
  let ?p = "ring_point (set (hr_ring hr)) ?hash"
  note inv = assms(1)
  note p = GetNode_owner(1) [OF assms(1,2)] and owner = GetNode_owner(2,3) [OF assms(1,2)]
  let ?A = "AddNode sha256 new hr"
  have A: "set (hr_ring ?A) = set (hr_ring hr) \<union> set (virtualNodes sha256 ?c (hn_ID new) new)"
    "hr_ringNodes ?A = (\<lambda>h. if h \<in> set (virtualNodes sha256 ?c (hn_ID new) new) then Some (hn_ID new) else hr_ringNodes hr h)"
    "map_of (hr_nodes ?A) = (map_of (hr_nodes hr))(hn_ID new \<mapsto> new)"
    using assms(3) by (simp_all add: AddNode_def Let_def fold_map_upd update_conv')
  let ?q = "ring_point (set (hr_ring ?A)) ?hash"
  have neA: "hr_ring ?A \<noteq> []" using p A(1) by auto
  then obtain n where n: "GetNode sha256 key ?A = Some n" "hr_ringNodes ?A ?q = Some (hn_ID n)"
    "map_of (hr_nodes ?A) (hn_ID n) = Some n"
    by (rule GetNode_point [OF hr_inv_Add [OF inv]])
  have "?q \<in> set (hr_ring ?A)" using neA by (intro ring_point_in) auto
  then consider "?q \<in> set (virtualNodes sha256 ?c (hn_ID new) new)"
    | "?q \<in> set (hr_ring hr)" "?q \<notin> set (virtualNodes sha256 ?c (hn_ID new) new)" using A(1) by auto
  then show "GetNode sha256 key ?A = Some node \<or> GetNode sha256 key ?A = Some new"
  proof cases
    case 1
    then show ?thesis using n A(2,3) by simp
  next
    case 2
    have sub: "set (hr_ring hr) \<subseteq> set (hr_ring ?A)" by (simp add: A(1))
    have qp: "?q = ?p" by (rule ring_point_subset [OF _ sub 2(1), symmetric]) simp
    have "hr_ringNodes ?A ?q = hr_ringNodes hr ?q" unfolding A(2) using 2(2) by (rule if_not_P)
    also have "\<dots> = Some (hn_ID node)" unfolding qp by (rule owner(1))
    finally have "Some (hn_ID n) = Some (hn_ID node)" by (rule trans [OF n(2) [symmetric]])
    then have id: "hn_ID n = hn_ID node" by simp
    then have "hn_ID n \<noteq> hn_ID new" using owner(2) assms(3) by (metis option.distinct(1))
    then have "map_of (hr_nodes hr) (hn_ID n) = Some n" using n(3) unfolding A(3) by (metis fun_upd_other)
    then have "n = node" using owner(2) unfolding id by (metis option.inject)
    then show ?thesis using n(1) by blast
  qed
qed

text \<open>C22. Minimal disruption. Removing a node whose virtual nodes collide with no other node
  leaves the assignment of every other key alone, and adding a node moves keys to the
  new node only.\<close>

theorem ring_minimal_disruption:
  assumes "hr_reach sha256 hr" and "GetNode sha256 key hr = Some node"
    and "RemoveNode sha256 gone hr = Some hr'" and "hn_ID node \<noteq> gone"
    and "\<And>a b. map_of (hr_nodes hr) gone = Some a \<Longrightarrow> map_of (hr_nodes hr) (hn_ID node) = Some b \<Longrightarrow>
      set (virtualNodes sha256 (hr_config hr) gone a) \<inter> set (virtualNodes sha256 (hr_config hr) (hn_ID node) b) = {}"
    and "map_of (hr_nodes hr) (hn_ID new) = None"
  shows "GetNode sha256 key hr' = Some node \<and>
    (GetNode sha256 key (AddNode sha256 new hr) = Some node \<or> GetNode sha256 key (AddNode sha256 new hr) = Some new)"
  using RemoveNode_keeps_owner [OF hr_reach_inv [OF assms(1)] assms(2-5)]
    AddNode_moves_to_new [OF hr_reach_inv [OF assms(1)] assms(2,6)] by blast

theorem ring_minimal_disruption_witness:
  "GetNode sample_digest ''k'' (the (RemoveNode sample_digest ''aaaa'' sample_ring)) = Some (sample_node ''bbbb'')"
proof -
  have gone: "RemoveNode sample_digest ''aaaa'' sample_ring = Some (the (RemoveNode sample_digest ''aaaa'' sample_ring))"
    by code_simp
  have nodes: "map_of (hr_nodes sample_ring) = [''aaaa'' \<mapsto> sample_node ''aaaa'', ''bbbb'' \<mapsto> sample_node ''bbbb'']"
    by (simp add: sample_ring_def AddNode_def NewHashRing_def sample_node_def Let_def fun_eq_iff)
  have disj: "set (virtualNodes sample_digest (hr_config sample_ring) ''aaaa'' (sample_node ''aaaa'')) \<inter>
      set (virtualNodes sample_digest (hr_config sample_ring) ''bbbb'' (sample_node ''bbbb'')) = {}"
    by code_simp
  show ?thesis
    by (rule ring_minimal_disruption [OF sample_ring_reach sample_ring_nodes(1) gone, of "sample_node ''cccc''", THEN conjunct1])
      (use disj in \<open>auto simp: nodes sample_node_def\<close>)
qed

lemma length_filter_sort: "length (filter P (sort xs)) = length (filter P xs)"
  by (metis mset_filter mset_sort size_mset)

text \<open>Removing both nodes of a ring whose virtual nodes share a hash panics: the first removal
  takes the shared point away, and the second computes a negative slice capacity.\<close>

lemma colliding_removal_panics:
  assumes "hn_ID a \<noteq> hn_ID b"
    and "distinct (virtualNodes sha256 c (hn_ID a) a)" and "distinct (virtualNodes sha256 c (hn_ID b) b)"
    and "h \<in> set (virtualNodes sha256 c (hn_ID a) a)" and "h \<in> set (virtualNodes sha256 c (hn_ID b) b)"
  shows "\<exists>hr'. RemoveNode sha256 (hn_ID a) (AddNode sha256 b (AddNode sha256 a (NewHashRing (Some c)))) = Some hr' \<and>
    RemoveNode sha256 (hn_ID b) hr' = None"
proof -
  let ?hr = "AddNode sha256 b (AddNode sha256 a (NewHashRing (Some c)))"
  let ?A = "virtualNodes sha256 c (hn_ID a) a" and ?B = "virtualNodes sha256 c (hn_ID b) b"
  have hr: "hr_ring ?hr = sort (sort ?A @ ?B)" "hr_config ?hr = c"
    "map_of (hr_nodes ?hr) (hn_ID a) = Some a" "map_of (hr_nodes ?hr) (hn_ID b) = Some b"
    using assms(1) by (simp_all add: AddNode_def NewHashRing_def Let_def update_conv')
  have "\<not> length (hr_ring ?hr) < length (remdups ?A)" by (simp add: hr length_remdups_leq not_less trans_le_add1)
  then obtain hr' where r: "RemoveNode sha256 (hn_ID a) ?hr = Some hr'"
    using hr by (simp add: RemoveNode_def Let_def)
  note d = RemoveNode_SomeD [OF r hr(3)]
  have "length (hr_ring hr') = length (filter (\<lambda>x. x \<notin> set ?A) ?B)"
    by (simp add: d hr length_filter_sort)
  also have "\<dots> < length ?B" using assms(4,5) by (intro length_filter_less) auto
  finally have "length (hr_ring hr') < length (remdups ?B)" using assms(3) by (simp add: distinct_remdups_id)
  moreover have "map_of (hr_nodes hr') (hn_ID b) = Some b" "hr_config hr' = c" using d hr assms(1) by simp_all
  ultimately show ?thesis using r by (auto simp: RemoveNode_def Let_def)
qed

end
