(* ===== verification/Token_Bucket.thy ===== *)
theory Token_Bucket
  imports Go_Float
begin

text \<open>
  The token bucket that Karl's limiters are built on. The source has it three times:
  \<^verbatim>\<open>TokenBucket\<close> in \<^verbatim>\<open>internal/rate_limiter.go\<close>, \<^verbatim>\<open>TokenBucketLimiter\<close> in
  \<^verbatim>\<open>internal/dos_protection.go\<close> and the unexported \<^verbatim>\<open>bucket\<close> of \<^verbatim>\<open>internal/auth/ratelimit.go\<close>. The contract
  \<open>token_bucket\<close> says what they promise, rounding errors included: what is granted is paid for, and
  a bucket that has had time to refill grants. The first two are modelled here, the third in the
  theory of its limiter. Floating point is \<^const>\<open>fl\<close> after each operation.
\<close>

section \<open>\<^verbatim>\<open>TokenBucket\<close>\<close>

record TokenBucket =
  tb_tokens :: rat
  tb_maxTokens :: rat
  tb_refillRate :: rat
  tb_lastRefill :: gtime

definition NewTokenBucket :: "gtime \<Rightarrow> rat \<Rightarrow> rat \<Rightarrow> TokenBucket" where
  "NewTokenBucket now maxTokens refillRate =
     \<lparr>tb_tokens = maxTokens, tb_maxTokens = maxTokens, tb_refillRate = refillRate, tb_lastRefill = now\<rparr>"

definition refill :: "gtime \<Rightarrow> TokenBucket \<Rightarrow> TokenBucket" where
  "refill now tb =
     (let elapsed = Seconds (now - tb_lastRefill tb);
          tokens = fl (tb_tokens tb + fl (elapsed * tb_refillRate tb))
      in tb\<lparr>tb_lastRefill := now,
            tb_tokens := if tokens > tb_maxTokens tb then tb_maxTokens tb else tokens\<rparr>)"

definition TokenBucket_Allow :: "gtime \<Rightarrow> TokenBucket \<Rightarrow> bool \<times> TokenBucket" where
  "TokenBucket_Allow now tb =
     (let tb1 = refill now tb in
      if tb_tokens tb1 \<ge> 1 then (True, tb1\<lparr>tb_tokens := fl (tb_tokens tb1 - 1)\<rparr>) else (False, tb1))"

section \<open>\<^verbatim>\<open>TokenBucketLimiter\<close>\<close>

record TokenBucketLimiter =
  tl_rate :: rat
  tl_burst :: int
  tl_tokens :: rat
  tl_lastUpdate :: gtime

definition NewTokenBucketLimiter :: "gtime \<Rightarrow> rat \<Rightarrow> int \<Rightarrow> TokenBucketLimiter" where
  "NewTokenBucketLimiter now rate burst =
     \<lparr>tl_rate = rate, tl_burst = burst, tl_tokens = fl (of_int burst), tl_lastUpdate = now\<rparr>"

definition TokenBucketLimiter_AllowN :: "gtime \<Rightarrow> int \<Rightarrow> TokenBucketLimiter \<Rightarrow> bool \<times> TokenBucketLimiter" where
  "TokenBucketLimiter_AllowN now n l =
     (let elapsed = Seconds (now - tl_lastUpdate l);
          l1 = l\<lparr>tl_lastUpdate := now\<rparr>;
          tokens = fl (tl_tokens l1 + fl (elapsed * tl_rate l1));
          l2 = l1\<lparr>tl_tokens := if tokens > fl (of_int (tl_burst l1)) then fl (of_int (tl_burst l1)) else tokens\<rparr>
      in if tl_tokens l2 \<ge> fl (of_int n)
         then (True, l2\<lparr>tl_tokens := fl (tl_tokens l2 - fl (of_int n))\<rparr>) else (False, l2))"

definition TokenBucketLimiter_Allow :: "gtime \<Rightarrow> TokenBucketLimiter \<Rightarrow> bool \<times> TokenBucketLimiter" where
  "TokenBucketLimiter_Allow now l =
     (let elapsed = Seconds (now - tl_lastUpdate l);
          l1 = l\<lparr>tl_lastUpdate := now\<rparr>;
          tokens = fl (tl_tokens l1 + fl (elapsed * tl_rate l1));
          l2 = l1\<lparr>tl_tokens := if tokens > fl (of_int (tl_burst l1)) then fl (of_int (tl_burst l1)) else tokens\<rparr>
      in if tl_tokens l2 \<ge> 1 then (True, l2\<lparr>tl_tokens := fl (tl_tokens l2 - 1)\<rparr>) else (False, l2))"

definition Available :: "gtime \<Rightarrow> TokenBucketLimiter \<Rightarrow> rat" where
  "Available now l =
     (let elapsed = Seconds (now - tl_lastUpdate l);
          tokens = fl (tl_tokens l + fl (elapsed * tl_rate l))
      in if tokens > fl (of_int (tl_burst l)) then fl (of_int (tl_burst l)) else tokens)"

section \<open>Contract\<close>

text \<open>How many of the requests at the given times are granted.\<close>

fun grants :: "(gtime \<Rightarrow> 's \<Rightarrow> bool \<times> 's) \<Rightarrow> gtime list \<Rightarrow> 's \<Rightarrow> nat" where
  "grants draw [] s = 0"
| "grants draw (t # ts) s = of_bool (fst (draw t s)) + grants draw ts (snd (draw t s))"

abbreviation rate_slack :: rat where
  "rate_slack \<equiv> 1 + 1 / 2 ^ 49"

text \<open>
  \<open>level\<close> is the number of tokens at time \<open>stamp\<close>, \<open>cap\<close> the capacity and \<open>rate\<close> the tokens gained per
  nanosecond.
\<close>

locale token_bucket =
  fixes level cap rate :: "'s \<Rightarrow> rat"
    and stamp :: "'s \<Rightarrow> gtime"
    and draw :: "gtime \<Rightarrow> 's \<Rightarrow> bool \<times> 's"
    and wf :: "'s \<Rightarrow> bool"
  assumes wf_draw: "wf s \<Longrightarrow> stamp s \<le> now \<Longrightarrow> wf (snd (draw now s))"
    and cap_draw: "cap (snd (draw now s)) = cap s"
    and rate_draw: "rate (snd (draw now s)) = rate s"
    and stamp_draw: "stamp (snd (draw now s)) = now"
    and level_bounds: "wf s \<Longrightarrow> 0 \<le> level s \<and> level s \<le> cap s"
    and rate_nonneg: "wf s \<Longrightarrow> 0 \<le> rate s"
    and spend: "wf s \<Longrightarrow> stamp s \<le> now \<Longrightarrow>
      level (snd (draw now s)) + of_bool (fst (draw now s)) \<le>
        level s + rate s * of_int (now - stamp s) * rate_slack + cap s / 2 ^ 52"
    and refilled: "wf s \<Longrightarrow> stamp s \<le> now \<Longrightarrow> 1 \<le> cap s \<Longrightarrow>
      rate_slack \<le> rate s * of_int (now - stamp s) \<Longrightarrow> fst (draw now s)"
begin

lemma grants_level:
  "wf s \<Longrightarrow> sorted (stamp s # ts) \<Longrightarrow>
   of_nat (grants draw ts s) \<le>
     level s + rate s * of_int (last (stamp s # ts) - stamp s) * rate_slack + of_nat (length ts) * (cap s / 2 ^ 52)"
proof (induction ts arbitrary: s)
  case Nil
  then show ?case using level_bounds [of s] by simp
next
  case (Cons t ts)
  let ?s = "snd (draw t s)"
  have le: "stamp s \<le> t" using Cons.prems by simp
  have "of_nat (grants draw ts ?s) \<le>
      level ?s + rate s * of_int (last (t # ts) - t) * rate_slack + of_nat (length ts) * (cap s / 2 ^ 52)"
    using Cons.IH [of ?s] Cons.prems wf_draw [OF Cons.prems(1) le] by (simp add: stamp_draw rate_draw cap_draw)
  moreover have "level ?s + of_bool (fst (draw t s)) \<le> level s + rate s * of_int (t - stamp s) * rate_slack + cap s / 2 ^ 52"
    by (rule spend [OF Cons.prems(1) le])
  moreover have "rate s * of_int (last (stamp s # t # ts) - stamp s) * rate_slack =
      rate s * of_int (last (t # ts) - t) * rate_slack + rate s * of_int (t - stamp s) * rate_slack"
    by (simp only: flip: distrib_right distrib_left of_int_add) simp
  moreover have "of_nat (length (t # ts)) * (cap s / 2 ^ 52) = of_nat (length ts) * (cap s / 2 ^ 52) + cap s / 2 ^ 52"
    by (simp add: distrib_right)
  moreover have "(of_nat (grants draw (t # ts) s) :: rat) = of_bool (fst (draw t s)) + of_nat (grants draw ts ?s)" by simp
  ultimately show ?case by linarith
qed

lemma grants_bound:
  "wf s \<Longrightarrow> sorted (stamp s # ts) \<Longrightarrow>
   of_nat (grants draw ts s) \<le>
     cap s + rate s * of_int (last (stamp s # ts) - stamp s) * rate_slack + of_nat (length ts) * (cap s / 2 ^ 52)"
  using grants_level [of s ts] level_bounds [of s] by simp

end

text \<open>The arithmetic that the three implementations share.\<close>

lemma refill_bounds:
  fixes t cap r :: rat
  assumes t: "0 \<le> t" "t \<le> cap" and r: "0 \<le> r" and d: "0 \<le> d"
    and x: "x = fl (t + fl (Seconds d * r))"
  shows "0 \<le> x" "x \<le> t + r * (of_int d / 10 ^ 9) * (1 + 1 / 2 ^ 50) + cap / 2 ^ 53"
    "r * (of_int d / 10 ^ 9) * (1 - 1 / 2 ^ 50) \<le> x"
proof -
  let ?u = "1 / 2 ^ 53 :: rat"
  define y i where "y = r * (of_int d / 10 ^ 9)" and "i = fl (Seconds d * r)"
  have y: "0 \<le> y" using r d by (simp add: y_def)
  have S: "of_int d / 10 ^ 9 * (1 - 1 / 2 ^ 51) \<le> Seconds d" "Seconds d \<le> of_int d / 10 ^ 9 * (1 + 1 / 2 ^ 51)"
    by (rule Seconds_bounds [OF d])+
  then have S0: "0 \<le> Seconds d" using d by (intro order_trans [OF _ S(1)]) simp
  then have i: "0 \<le> i" "Seconds d * r * (1 - ?u) \<le> i" "i \<le> Seconds d * r * (1 + ?u)"
    using r fl_bounds [of "Seconds d * r"] fl_lower [of "Seconds d * r"] by (simp_all add: i_def)
  have "Seconds d * r \<le> of_int d / 10 ^ 9 * (1 + 1 / 2 ^ 51) * r" "of_int d / 10 ^ 9 * (1 - 1 / 2 ^ 51) * r \<le> Seconds d * r"
    using S r by (intro mult_right_mono; simp)+
  then have "Seconds d * r \<le> y * (1 + 1 / 2 ^ 51)" "y * (1 - 1 / 2 ^ 51) \<le> Seconds d * r" by (simp_all add: y_def mult_ac)
  then have "Seconds d * r * (1 + ?u) \<le> y * (1 + 1 / 2 ^ 51) * (1 + ?u)" "y * (1 - 1 / 2 ^ 51) * (1 - ?u) \<le> Seconds d * r * (1 - ?u)"
    by (intro mult_right_mono; simp)+
  then have I: "i \<le> y * ((1 + 1 / 2 ^ 51) * (1 + ?u))" "y * ((1 - 1 / 2 ^ 51) * (1 - ?u)) \<le> i"
    using i(2,3) unfolding mult.assoc by (blast intro: order_trans)+
  have ti: "0 \<le> t + i" using t i by simp
  have X: "0 \<le> x" "x \<le> (t + i) * (1 + ?u)" "(t + i) * (1 - ?u) \<le> x"
    using fl_bounds [OF ti] fl_lower [OF ti] by (simp_all add: x i_def)
  show "0 \<le> x" by (rule X)
  have "i * (1 + ?u) \<le> y * ((1 + 1 / 2 ^ 51) * (1 + ?u)) * (1 + ?u)" using I(1) by (rule mult_right_mono) simp
  also have "\<dots> = y * ((1 + 1 / 2 ^ 51) * (1 + ?u) * (1 + ?u))" by simp
  also have "\<dots> \<le> y * (1 + 1 / 2 ^ 50)" using y by (intro mult_left_mono) (simp_all add: field_simps)
  finally show "x \<le> t + r * (of_int d / 10 ^ 9) * (1 + 1 / 2 ^ 50) + cap / 2 ^ 53"
    using X(2) t(2) by (simp add: algebra_simps y_def)
  have "y * (1 - 1 / 2 ^ 50) \<le> y * ((1 - 1 / 2 ^ 51) * (1 - ?u) * (1 - ?u))" using y by (intro mult_left_mono) (simp_all add: field_simps)
  also have "\<dots> = y * ((1 - 1 / 2 ^ 51) * (1 - ?u)) * (1 - ?u)" by simp
  also have "\<dots> \<le> i * (1 - ?u)" using I(2) by (rule mult_right_mono) simp
  also have "\<dots> \<le> (t + i) * (1 - ?u)" using t by (intro mult_right_mono) simp_all
  finally show "r * (of_int d / 10 ^ 9) * (1 - 1 / 2 ^ 50) \<le> x" using X(3) by (simp add: y_def)
qed

text \<open>\<open>r'\<close> is the rate as the code computes it, \<open>r\<close> the exact one.\<close>

lemma capped_bounds:
  fixes t cap r :: rat
  assumes "0 \<le> t" "t \<le> cap" "0 \<le> r" "0 \<le> d"
    and r': "r * (1 - 1 / 2 ^ 53) \<le> r'" "r' \<le> r * (1 + 1 / 2 ^ 53)"
    and x: "x = fl (t + fl (Seconds d * r'))" and y: "y = (if x > cap then cap else x)"
  shows "0 \<le> y" "y \<le> cap" "y \<le> t + r * (of_int d / 10 ^ 9) * rate_slack + cap / 2 ^ 53"
    "1 \<le> cap \<Longrightarrow> rate_slack \<le> r * (of_int d / 10 ^ 9) \<Longrightarrow> 1 \<le> y"
proof -
  let ?u = "1 / 2 ^ 53 :: rat" and ?s = "of_int d / 10 ^ 9 :: rat"
  have "0 \<le> r * (1 - ?u)" using assms(3) by simp
  then have r0: "0 \<le> r'" using r'(1) by (rule order_trans)
  note b = refill_bounds [OF assms(1,2) r0 assms(4) x]
  have s: "0 \<le> ?s" and z: "0 \<le> r * ?s" using assms by simp_all
  show "0 \<le> y" "y \<le> cap" using b(1) assms(1,2) by (auto simp: y)
  have "r' * ?s * (1 + 1 / 2 ^ 50) \<le> r * (1 + ?u) * ?s * (1 + 1 / 2 ^ 50)"
    using r'(2) s by (intro mult_right_mono) simp_all
  also have "\<dots> = r * ?s * ((1 + ?u) * (1 + 1 / 2 ^ 50))" by (simp only: mult_ac)
  also have "\<dots> \<le> r * ?s * rate_slack" using z by (intro mult_left_mono) simp_all
  finally show "y \<le> t + r * ?s * rate_slack + cap / 2 ^ 53" using b(2) by (auto simp: y)
  assume c: "1 \<le> cap" "rate_slack \<le> r * ?s"
  have "rate_slack * ((1 - ?u) * (1 - 1 / 2 ^ 50)) \<le> r * ?s * ((1 - ?u) * (1 - 1 / 2 ^ 50))"
    using c(2) by (intro mult_right_mono) simp_all
  also have "\<dots> = r * (1 - ?u) * ?s * (1 - 1 / 2 ^ 50)" by (simp only: mult_ac)
  also have "\<dots> \<le> r' * ?s * (1 - 1 / 2 ^ 50)" using r'(1) s by (intro mult_right_mono) simp_all
  finally show "1 \<le> y" using b(3) c(1) by (auto simp: y)
qed

lemma exact_rate: "0 \<le> r \<Longrightarrow> r * (1 - 1 / 2 ^ 53) \<le> r" "0 \<le> r \<Longrightarrow> r \<le> r * (1 + 1 / 2 ^ 53 :: rat)"
  by (simp_all add: field_simps)

lemma spent_bounds:
  assumes "1 \<le> y" "y \<le> (cap :: rat)" "cap \<le> 2 ^ 53"
  shows "0 \<le> fl (y - 1)" "fl (y - 1) \<le> y - 1 + cap / 2 ^ 53" "fl (y - 1) \<le> cap"
proof -
  have y: "0 \<le> y - 1" using assms by simp
  have "fl (y - 1) \<le> (y - 1) * (1 + 1 / 2 ^ 53)" by (rule fl_bounds [OF y])
  also have "\<dots> = y - 1 + (y - 1) / 2 ^ 53" by (simp only: distrib_left mult_1_right times_divide_eq_right)
  finally have f: "fl (y - 1) \<le> y - 1 + (y - 1) / 2 ^ 53" .
  show "0 \<le> fl (y - 1)" by (rule fl_bounds [OF y])
  show "fl (y - 1) \<le> y - 1 + cap / 2 ^ 53" using f assms by (auto intro: order_trans)
  have "(y - 1) / 2 ^ 53 \<le> 1" using assms by simp
  then show "fl (y - 1) \<le> cap" using f assms by linarith
qed

section \<open>The implementations keep the contract\<close>

definition tb_wf :: "TokenBucket \<Rightarrow> bool" where
  "tb_wf tb \<longleftrightarrow> 0 \<le> tb_tokens tb \<and> tb_tokens tb \<le> tb_maxTokens tb \<and> tb_maxTokens tb \<le> 2 ^ 53 \<and> 0 \<le> tb_refillRate tb"

lemma refill_fields [simp]:
  "tb_lastRefill (refill now tb) = now" "tb_maxTokens (refill now tb) = tb_maxTokens tb"
  "tb_refillRate (refill now tb) = tb_refillRate tb"
  by (simp_all add: refill_def Let_def)

lemma refill_level:
  "tb_tokens (refill now tb) =
     (if fl (tb_tokens tb + fl (Seconds (now - tb_lastRefill tb) * tb_refillRate tb)) > tb_maxTokens tb then tb_maxTokens tb
      else fl (tb_tokens tb + fl (Seconds (now - tb_lastRefill tb) * tb_refillRate tb)))"
  by (simp add: refill_def Let_def)

lemma refill_tokens:
  assumes "tb_wf tb" "tb_lastRefill tb \<le> now"
  shows "0 \<le> tb_tokens (refill now tb)" "tb_tokens (refill now tb) \<le> tb_maxTokens tb"
    "tb_tokens (refill now tb) \<le> tb_tokens tb + tb_refillRate tb * (of_int (now - tb_lastRefill tb) / 10 ^ 9) * rate_slack + tb_maxTokens tb / 2 ^ 53"
    "1 \<le> tb_maxTokens tb \<Longrightarrow> rate_slack \<le> tb_refillRate tb * (of_int (now - tb_lastRefill tb) / 10 ^ 9) \<Longrightarrow> 1 \<le> tb_tokens (refill now tb)"
  using assms capped_bounds [of "tb_tokens tb" "tb_maxTokens tb" "tb_refillRate tb" "now - tb_lastRefill tb", OF _ _ _ _ exact_rate refl refill_level [of now tb]]
  by (simp_all add: tb_wf_def)

interpretation tb: token_bucket tb_tokens tb_maxTokens "\<lambda>tb. tb_refillRate tb / 10 ^ 9" tb_lastRefill TokenBucket_Allow tb_wf
proof
  fix tb now
  assume wf: "tb_wf tb" and le: "tb_lastRefill tb \<le> now"
  note r = refill_tokens [OF wf le]
  have c: "tb_maxTokens tb \<le> 2 ^ 53" "0 \<le> tb_refillRate tb" using wf by (simp_all add: tb_wf_def)
  note s = spent_bounds [OF _ r(2) c(1)]
  show "tb_wf (snd (TokenBucket_Allow now tb))"
    using r(1,2) c s(1,3) by (simp add: TokenBucket_Allow_def Let_def tb_wf_def)
  have "tb_tokens (snd (TokenBucket_Allow now tb)) + of_bool (fst (TokenBucket_Allow now tb)) \<le>
      tb_tokens (refill now tb) + tb_maxTokens tb / 2 ^ 53"
    using s(2) order_trans [OF r(1,2)] by (cases "1 \<le> tb_tokens (refill now tb)") (simp_all add: TokenBucket_Allow_def Let_def)
  then show "tb_tokens (snd (TokenBucket_Allow now tb)) + of_bool (fst (TokenBucket_Allow now tb)) \<le>
      tb_tokens tb + tb_refillRate tb / 10 ^ 9 * of_int (now - tb_lastRefill tb) * rate_slack + tb_maxTokens tb / 2 ^ 52"
    using r(3) by simp
  assume "1 \<le> tb_maxTokens tb" "rate_slack \<le> tb_refillRate tb / 10 ^ 9 * of_int (now - tb_lastRefill tb)"
  then show "fst (TokenBucket_Allow now tb)" using r(4) by (simp add: TokenBucket_Allow_def Let_def)
qed (simp_all add: tb_wf_def TokenBucket_Allow_def Let_def)

definition tl_wf :: "TokenBucketLimiter \<Rightarrow> bool" where
  "tl_wf l \<longleftrightarrow> 0 \<le> tl_tokens l \<and> tl_tokens l \<le> of_int (tl_burst l) \<and> 0 \<le> tl_burst l \<and> tl_burst l < 2 ^ 53 \<and> 0 \<le> tl_rate l"

lemma TokenBucketLimiter_Allow_conv:
  "TokenBucketLimiter_Allow now l =
     (let y = Available now l; l' = l\<lparr>tl_lastUpdate := now, tl_tokens := y\<rparr> in
      if y \<ge> 1 then (True, l'\<lparr>tl_tokens := fl (y - 1)\<rparr>) else (False, l'))"
  by (simp add: TokenBucketLimiter_Allow_def Available_def Let_def)

lemma Available_bounds:
  assumes "tl_wf l" "tl_lastUpdate l \<le> now"
  shows "0 \<le> Available now l" "Available now l \<le> of_int (tl_burst l)"
    "Available now l \<le> tl_tokens l + tl_rate l * (of_int (now - tl_lastUpdate l) / 10 ^ 9) * rate_slack + of_int (tl_burst l) / 2 ^ 53"
    "1 \<le> tl_burst l \<Longrightarrow> rate_slack \<le> tl_rate l * (of_int (now - tl_lastUpdate l) / 10 ^ 9) \<Longrightarrow> 1 \<le> Available now l"
proof -
  have f: "fl (of_int (tl_burst l)) = of_int (tl_burst l)" using assms(1) by (simp add: tl_wf_def)
  have a: "Available now l =
      (if fl (tl_tokens l + fl (Seconds (now - tl_lastUpdate l) * tl_rate l)) > of_int (tl_burst l) then of_int (tl_burst l)
       else fl (tl_tokens l + fl (Seconds (now - tl_lastUpdate l) * tl_rate l)))"
    by (simp add: Available_def Let_def f)
  note b = capped_bounds [of "tl_tokens l" "of_int (tl_burst l)" "tl_rate l" "now - tl_lastUpdate l", OF _ _ _ _ exact_rate refl a]
  show "0 \<le> Available now l" "Available now l \<le> of_int (tl_burst l)"
    "Available now l \<le> tl_tokens l + tl_rate l * (of_int (now - tl_lastUpdate l) / 10 ^ 9) * rate_slack + of_int (tl_burst l) / 2 ^ 53"
    "1 \<le> tl_burst l \<Longrightarrow> rate_slack \<le> tl_rate l * (of_int (now - tl_lastUpdate l) / 10 ^ 9) \<Longrightarrow> 1 \<le> Available now l"
    using assms b by (simp_all add: tl_wf_def)
qed

interpretation tl: token_bucket tl_tokens "\<lambda>l. of_int (tl_burst l)" "\<lambda>l. tl_rate l / 10 ^ 9" tl_lastUpdate
  TokenBucketLimiter_Allow tl_wf
proof
  fix l now
  assume wf: "tl_wf l" and le: "tl_lastUpdate l \<le> now"
  note r = Available_bounds [OF wf le]
  have c: "0 \<le> tl_burst l" "tl_burst l < 2 ^ 53" "0 \<le> tl_rate l" using wf by (simp_all add: tl_wf_def)
  then have "(of_int (tl_burst l) :: rat) \<le> of_int (2 ^ 53)" by (simp only: of_int_le_iff)
  then have c': "of_int (tl_burst l) \<le> (2 ^ 53 :: rat)" by simp
  note s = spent_bounds [OF _ r(2) c']
  show "tl_wf (snd (TokenBucketLimiter_Allow now l))"
    using r(1,2) c s(1,3) by (simp add: TokenBucketLimiter_Allow_conv Let_def tl_wf_def)
  have "tl_tokens (snd (TokenBucketLimiter_Allow now l)) + of_bool (fst (TokenBucketLimiter_Allow now l)) \<le>
      Available now l + of_int (tl_burst l) / 2 ^ 53"
    using s(2) order_trans [OF r(1,2)] by (cases "1 \<le> Available now l") (simp_all add: TokenBucketLimiter_Allow_conv Let_def)
  then show "tl_tokens (snd (TokenBucketLimiter_Allow now l)) + of_bool (fst (TokenBucketLimiter_Allow now l)) \<le>
      tl_tokens l + tl_rate l / 10 ^ 9 * of_int (now - tl_lastUpdate l) * rate_slack + of_int (tl_burst l) / 2 ^ 52"
    using r(3) by simp
  assume "1 \<le> (of_int (tl_burst l) :: rat)" "rate_slack \<le> tl_rate l / 10 ^ 9 * of_int (now - tl_lastUpdate l)"
  then show "fst (TokenBucketLimiter_Allow now l)" using r(4) by (simp add: TokenBucketLimiter_Allow_conv Let_def)
qed (simp_all add: tl_wf_def TokenBucketLimiter_Allow_conv Let_def)

end
