(* ===== verification/Go_Net.thy ===== *)
theory Go_Net
  imports Karl_Prelude
begin

text \<open>
  What the components use of Go's package \<^verbatim>\<open>net\<close>: splitting a \<^verbatim>\<open>host:port\<close> text, and the equality of addresses. The
  error of \<^verbatim>\<open>net.SplitHostPort\<close> is only tested against \<^verbatim>\<open>nil\<close>, so it is \<open>None\<close>. A \<^verbatim>\<open>net.IP\<close> is its bytes.
\<close>

text \<open>\<^verbatim>\<open>bytealg.LastIndexByteString\<close>: the position of the last occurrence.\<close>

definition LastIndexByte :: "'a list \<Rightarrow> 'a \<Rightarrow> nat option" where
  "LastIndexByte xs c = map_option (\<lambda>i. length xs - 1 - i) (IndexByte (rev xs) c)"

definition SplitHostPort :: "string \<Rightarrow> (string \<times> string) option" where
  "SplitHostPort hostport =
     (case LastIndexByte hostport (CHR '':'') of None \<Rightarrow> None
      | Some i \<Rightarrow>
          (let finish = (\<lambda>host j k.
                 if CHR ''['' \<in> set (drop j hostport) \<or> CHR '']'' \<in> set (drop k hostport) then None
                 else Some (host, drop (i + 1) hostport)) in
           if hostport ! 0 = CHR ''['' then
             (case IndexByte hostport (CHR '']'') of None \<Rightarrow> None
              | Some e \<Rightarrow>
                  if e + 1 = length hostport then None
                  else if e + 1 = i then finish (take (e - 1) (drop 1 hostport)) 1 (e + 1)
                  else None)
           else
             (let host = take i hostport in
              if CHR '':'' \<in> set host then None else finish host 0 0)))"

lemma LastIndexByte_append: "c \<notin> set ys \<Longrightarrow> LastIndexByte (xs @ c # ys) c = Some (length xs)"
  by (simp add: LastIndexByte_def IndexByte_append)

text \<open>A plain host followed by a port is split at the colon, and a bracketed address loses its brackets.\<close>

lemma SplitHostPort_plain:
  assumes "set host \<inter> {CHR '':'', CHR ''['', CHR '']''} = {}" "set port \<inter> {CHR '':'', CHR ''['', CHR '']''} = {}"
  shows "SplitHostPort (host @ CHR '':'' # port) = Some (host, port)"
proof -
  have "(host @ CHR '':'' # port) ! 0 \<noteq> CHR ''[''" using assms by (cases host) auto
  then show ?thesis
    using assms LastIndexByte_append [of "CHR '':''" port host] by (simp add: SplitHostPort_def Let_def)
qed

lemma SplitHostPort_bracketed:
  assumes "set host \<inter> {CHR ''['', CHR '']''} = {}" "set port \<inter> {CHR '':'', CHR ''['', CHR '']''} = {}"
  shows "SplitHostPort (CHR ''['' # host @ CHR '']'' # CHR '':'' # port) = Some (host, port)"
proof -
  have "LastIndexByte (CHR ''['' # host @ CHR '']'' # CHR '':'' # port) (CHR '':'') = Some (length host + 2)"
    using assms LastIndexByte_append [of "CHR '':''" port "CHR ''['' # host @ ['']'' ! 0]"] by simp
  moreover have "IndexByte (CHR ''['' # host @ CHR '']'' # CHR '':'' # port) (CHR '']'') = Some (length host + 1)"
    using assms IndexByte_append [of "CHR '']''" "CHR ''['' # host" "CHR '':'' # port"] by simp
  ultimately show ?thesis using assms by (simp add: SplitHostPort_def Let_def)
qed

text \<open>\<^verbatim>\<open>net.IP.Equal\<close>: a 4-byte address equals the 16-byte address that embeds it.\<close>

type_synonym net_IP = "u8 list"

definition v4InV6Prefix :: net_IP where
  "v4InV6Prefix = replicate 10 0 @ [0xff, 0xff]"

definition IP_Equal :: "net_IP \<Rightarrow> net_IP \<Rightarrow> bool" where
  "IP_Equal ip x =
     (if length ip = length x then ip = x
      else if length ip = 4 \<and> length x = 16 then take 12 x = v4InV6Prefix \<and> ip = drop 12 x
      else if length ip = 16 \<and> length x = 4 then take 12 ip = v4InV6Prefix \<and> drop 12 ip = x
      else False)"

lemma IP_Equal_refl [simp]: "IP_Equal ip ip"
  by (simp add: IP_Equal_def)

lemma IP_Equal_sym: "IP_Equal ip x = IP_Equal x ip"
  by (auto simp: IP_Equal_def)

lemma IP_Equal_trans: "IP_Equal a b \<Longrightarrow> IP_Equal b c \<Longrightarrow> IP_Equal a c"
  using append_take_drop_id [of 12 a] append_take_drop_id [of 12 c]
  by (auto simp: IP_Equal_def split: if_splits) (metis append_take_drop_id)+

end
