(* ===== verification/Rate_Limiter.thy ===== *)
theory Rate_Limiter
  imports Token_Bucket Go_Net
begin

text \<open>
  Rate limiting of requests, \<^verbatim>\<open>internal/rate_limiter.go\<close>: a global bucket, a bucket per client address and one
  per call, a block list, and the smaller limiter that only looks at the address.

  An exported operation is one step and reads the clock once. The three maps are association lists with
  distinct keys, since \<^verbatim>\<open>cleanup\<close> ranges over them. The counters of \<^verbatim>\<open>RateLimiterStats\<close> keep their widths; the
  gauges are signed. An HTTP request is the three texts the code reads of it.
\<close>

section \<open>State\<close>

record RateLimiterConfig =
  rc_GlobalRequestsPerSecond :: int
  rc_GlobalBurstSize :: int
  rc_PerIPRequestsPerSecond :: int
  rc_PerIPBurstSize :: int
  rc_PerCallRequestsPerSecond :: int
  rc_PerCallBurstSize :: int
  rc_CleanupInterval :: duration
  rc_EntryTTL :: duration
  rc_BlockDuration :: duration

definition DefaultRateLimiterConfig :: RateLimiterConfig where
  "DefaultRateLimiterConfig =
     \<lparr>rc_GlobalRequestsPerSecond = 10000, rc_GlobalBurstSize = 1000,
      rc_PerIPRequestsPerSecond = 100, rc_PerIPBurstSize = 50,
      rc_PerCallRequestsPerSecond = 10, rc_PerCallBurstSize = 5,
      rc_CleanupInterval = 60 * second, rc_EntryTTL = 300 * second, rc_BlockDuration = 10 * second\<rparr>"

text \<open>The fields \<^verbatim>\<open>blocked\<close> and \<^verbatim>\<open>blockedAt\<close> of an entry are never read or written.\<close>

record RateLimitEntry =
  le_bucket :: TokenBucket
  le_lastAccess :: gtime
  le_requests :: u64
  le_rejected :: u64

record RateLimiterStats =
  rs_TotalRequests :: u64
  rs_AllowedRequests :: u64
  rs_RejectedGlobal :: u64
  rs_RejectedPerIP :: u64
  rs_RejectedPerCall :: u64
  rs_RejectedBlocked :: u64
  rs_ActiveIPs :: int
  rs_ActiveCalls :: int
  rs_BlockedIPs :: int

record RateLimiter =
  rl_config :: RateLimiterConfig
  rl_globalBucket :: "TokenBucket option"
  rl_ipBuckets :: "(string \<times> RateLimitEntry) list"
  rl_callBuckets :: "(string \<times> RateLimitEntry) list"
  rl_blockedIPs :: "(string \<times> gtime) list"
  rl_stats :: RateLimiterStats
  rl_stopped :: bool

definition NewRateLimiter :: "gtime \<Rightarrow> RateLimiterConfig option \<Rightarrow> RateLimiter" where
  "NewRateLimiter now cfg =
     (let config = (case cfg of None \<Rightarrow> DefaultRateLimiterConfig | Some c \<Rightarrow> c) in
      \<lparr>rl_config = config,
       rl_globalBucket =
         (if rc_GlobalRequestsPerSecond config > 0
          then Some (NewTokenBucket now (fl (of_int (rc_GlobalBurstSize config))) (fl (of_int (rc_GlobalRequestsPerSecond config))))
          else None),
       rl_ipBuckets = [], rl_callBuckets = [], rl_blockedIPs = [],
       rl_stats = \<lparr>rs_TotalRequests = 0, rs_AllowedRequests = 0, rs_RejectedGlobal = 0, rs_RejectedPerIP = 0,
         rs_RejectedPerCall = 0, rs_RejectedBlocked = 0, rs_ActiveIPs = 0, rs_ActiveCalls = 0, rs_BlockedIPs = 0\<rparr>,
       rl_stopped = False\<rparr>)"

abbreviation upd_stats :: "(RateLimiterStats \<Rightarrow> RateLimiterStats) \<Rightarrow> RateLimiter \<Rightarrow> RateLimiter" where
  "upd_stats f rl \<equiv> rl\<lparr>rl_stats := f (rl_stats rl)\<rparr>"

section \<open>Operations\<close>

definition charge :: "gtime \<Rightarrow> RateLimitEntry \<Rightarrow> bool \<times> RateLimitEntry" where
  "charge now entry =
     (let (ok, bucket) = TokenBucket_Allow now (le_bucket entry) in
      (ok, entry\<lparr>le_lastAccess := now, le_requests := le_requests entry + 1, le_bucket := bucket,
                 le_rejected := le_rejected entry + (if ok then 0 else 1)\<rparr>))"

definition checkIPLimit :: "gtime \<Rightarrow> string \<Rightarrow> RateLimiter \<Rightarrow> bool \<times> RateLimiter" where
  "checkIPLimit now ip rl =
     (let (entry, rl1) =
        (case map_of (rl_ipBuckets rl) ip of
           Some e \<Rightarrow> (e, rl)
         | None \<Rightarrow>
             (\<lparr>le_bucket = NewTokenBucket now (fl (of_int (rc_PerIPBurstSize (rl_config rl))))
                             (fl (of_int (rc_PerIPRequestsPerSecond (rl_config rl)))),
               le_lastAccess = now, le_requests = 0, le_rejected = 0\<rparr>,
              upd_stats (\<lambda>s. s\<lparr>rs_ActiveIPs := rs_ActiveIPs s + 1\<rparr>) rl));
        (ok, entry1) = charge now entry
      in (ok, rl1\<lparr>rl_ipBuckets := AList.update ip entry1 (rl_ipBuckets rl1)\<rparr>))"

definition checkCallLimit :: "gtime \<Rightarrow> string \<Rightarrow> RateLimiter \<Rightarrow> bool \<times> RateLimiter" where
  "checkCallLimit now callID rl =
     (let (entry, rl1) =
        (case map_of (rl_callBuckets rl) callID of
           Some e \<Rightarrow> (e, rl)
         | None \<Rightarrow>
             (\<lparr>le_bucket = NewTokenBucket now (fl (of_int (rc_PerCallBurstSize (rl_config rl))))
                             (fl (of_int (rc_PerCallRequestsPerSecond (rl_config rl)))),
               le_lastAccess = now, le_requests = 0, le_rejected = 0\<rparr>,
              upd_stats (\<lambda>s. s\<lparr>rs_ActiveCalls := rs_ActiveCalls s + 1\<rparr>) rl));
        (ok, entry1) = charge now entry
      in (ok, rl1\<lparr>rl_callBuckets := AList.update callID entry1 (rl_callBuckets rl1)\<rparr>))"

definition isBlocked :: "gtime \<Rightarrow> string \<Rightarrow> RateLimiter \<Rightarrow> bool \<times> RateLimiter" where
  "isBlocked now ip rl =
     (case map_of (rl_blockedIPs rl) ip of None \<Rightarrow> (False, rl)
      | Some blockedAt \<Rightarrow>
          if now - blockedAt > rc_BlockDuration (rl_config rl)
          then (False, upd_stats (\<lambda>s. s\<lparr>rs_BlockedIPs := rs_BlockedIPs s - 1\<rparr>)
                         (rl\<lparr>rl_blockedIPs := AList.delete ip (rl_blockedIPs rl)\<rparr>))
          else (True, rl))"

definition maybeBlockIP :: "gtime \<Rightarrow> string \<Rightarrow> RateLimiter \<Rightarrow> RateLimiter" where
  "maybeBlockIP now ip rl =
     (case map_of (rl_ipBuckets rl) ip of None \<Rightarrow> rl
      | Some entry \<Rightarrow>
          let total = le_requests entry; rejected = le_rejected entry in
          if total > 10 \<and> fl (fl (of_int (uint rejected)) / fl (of_int (uint total))) > 1 / 2
          then upd_stats (\<lambda>s. s\<lparr>rs_BlockedIPs := rs_BlockedIPs s + 1\<rparr>)
                 (rl\<lparr>rl_blockedIPs := AList.update ip now (rl_blockedIPs rl)\<rparr>)
          else rl)"

definition allowGlobal :: "gtime \<Rightarrow> RateLimiter \<Rightarrow> bool \<times> RateLimiter" where
  "allowGlobal now rl =
     (case rl_globalBucket rl of None \<Rightarrow> (True, rl)
      | Some b \<Rightarrow> let (ok, b') = TokenBucket_Allow now b in (ok, rl\<lparr>rl_globalBucket := Some b'\<rparr>))"

definition allowCall :: "gtime \<Rightarrow> string \<Rightarrow> RateLimiter \<Rightarrow> bool \<times> RateLimiter" where
  "allowCall now callID rl =
     (let (ok, rl1) = (if rc_PerCallRequestsPerSecond (rl_config rl) > 0 \<and> callID \<noteq> []
                       then checkCallLimit now callID rl else (True, rl)) in
      if \<not> ok then (False, upd_stats (\<lambda>s. s\<lparr>rs_RejectedPerCall := rs_RejectedPerCall s + 1\<rparr>) rl1)
      else (True, upd_stats (\<lambda>s. s\<lparr>rs_AllowedRequests := rs_AllowedRequests s + 1\<rparr>) rl1))"

definition allowIPAndCall :: "gtime \<Rightarrow> string \<Rightarrow> string \<Rightarrow> RateLimiter \<Rightarrow> bool \<times> RateLimiter" where
  "allowIPAndCall now ip callID rl =
     (let (ok, rl1) = (if rc_PerIPRequestsPerSecond (rl_config rl) > 0 then checkIPLimit now ip rl else (True, rl)) in
      if \<not> ok then (False, maybeBlockIP now ip (upd_stats (\<lambda>s. s\<lparr>rs_RejectedPerIP := rs_RejectedPerIP s + 1\<rparr>) rl1))
      else allowCall now callID rl1)"

definition RateLimiter_Allow :: "gtime \<Rightarrow> string \<Rightarrow> string \<Rightarrow> RateLimiter \<Rightarrow> bool \<times> RateLimiter" where
  "RateLimiter_Allow now ip callID rl =
     (let rl1 = upd_stats (\<lambda>s. s\<lparr>rs_TotalRequests := rs_TotalRequests s + 1\<rparr>) rl;
          (blocked, rl2) = isBlocked now ip rl1 in
      if blocked then (False, upd_stats (\<lambda>s. s\<lparr>rs_RejectedBlocked := rs_RejectedBlocked s + 1\<rparr>) rl2)
      else let (ok, rl3) = allowGlobal now rl2 in
        if \<not> ok then (False, upd_stats (\<lambda>s. s\<lparr>rs_RejectedGlobal := rs_RejectedGlobal s + 1\<rparr>) rl3)
        else allowIPAndCall now ip callID rl3)"

definition AllowIP :: "gtime \<Rightarrow> string \<Rightarrow> RateLimiter \<Rightarrow> bool \<times> RateLimiter" where
  "AllowIP now ip rl = RateLimiter_Allow now ip [] rl"

definition BlockIP :: "gtime \<Rightarrow> string \<Rightarrow> RateLimiter \<Rightarrow> RateLimiter" where
  "BlockIP now ip rl =
     (let rl1 = (if map_of (rl_blockedIPs rl) ip = None
                 then upd_stats (\<lambda>s. s\<lparr>rs_BlockedIPs := rs_BlockedIPs s + 1\<rparr>) rl else rl)
      in rl1\<lparr>rl_blockedIPs := AList.update ip now (rl_blockedIPs rl1)\<rparr>)"

definition UnblockIP :: "string \<Rightarrow> RateLimiter \<Rightarrow> RateLimiter" where
  "UnblockIP ip rl =
     (if map_of (rl_blockedIPs rl) ip \<noteq> None
      then upd_stats (\<lambda>s. s\<lparr>rs_BlockedIPs := rs_BlockedIPs s - 1\<rparr>)
             (rl\<lparr>rl_blockedIPs := AList.delete ip (rl_blockedIPs rl)\<rparr>)
      else rl)"

text \<open>A loop that deletes the stale entries of a map, with the number it deletes.\<close>

definition sweep :: "('v \<Rightarrow> bool) \<Rightarrow> ('k \<times> 'v) list \<Rightarrow> int \<times> ('k \<times> 'v) list" where
  "sweep stale m = (int (length (filter (stale \<circ> snd) m)), filter (Not \<circ> stale \<circ> snd) m)"

definition RateLimiter_cleanup :: "gtime \<Rightarrow> RateLimiter \<Rightarrow> RateLimiter" where
  "RateLimiter_cleanup now rl =
     (let ttl = rc_EntryTTL (rl_config rl);
          (ips, ipBuckets) = sweep (\<lambda>e. now - le_lastAccess e > ttl) (rl_ipBuckets rl);
          (calls, callBuckets) = sweep (\<lambda>e. now - le_lastAccess e > ttl) (rl_callBuckets rl);
          (blocks, blockedIPs) = sweep (\<lambda>blockedAt. now - blockedAt > rc_BlockDuration (rl_config rl)) (rl_blockedIPs rl)
      in upd_stats (\<lambda>s. s\<lparr>rs_ActiveIPs := rs_ActiveIPs s - ips, rs_ActiveCalls := rs_ActiveCalls s - calls,
                          rs_BlockedIPs := rs_BlockedIPs s - blocks\<rparr>)
           (rl\<lparr>rl_ipBuckets := ipBuckets, rl_callBuckets := callBuckets, rl_blockedIPs := blockedIPs\<rparr>))"

definition RateLimiter_GetStats :: "RateLimiter \<Rightarrow> (string \<times> int) list" where
  "RateLimiter_GetStats rl =
     (let s = rl_stats rl in
      [(''total_requests'', uint (rs_TotalRequests s)), (''allowed_requests'', uint (rs_AllowedRequests s)),
       (''rejected_global'', uint (rs_RejectedGlobal s)), (''rejected_per_ip'', uint (rs_RejectedPerIP s)),
       (''rejected_per_call'', uint (rs_RejectedPerCall s)), (''rejected_blocked'', uint (rs_RejectedBlocked s)),
       (''active_ips'', rs_ActiveIPs s), (''active_calls'', rs_ActiveCalls s), (''blocked_ips'', rs_BlockedIPs s)])"

definition GetBlockedIPs :: "RateLimiter \<Rightarrow> string list" where
  "GetBlockedIPs rl = map fst (rl_blockedIPs rl)"

text \<open>Closing the stop channel twice panics.\<close>

definition RateLimiter_Stop :: "RateLimiter \<Rightarrow> RateLimiter option" where
  "RateLimiter_Stop rl = (if rl_stopped rl then None else Some (rl\<lparr>rl_stopped := True\<rparr>))"

definition RateLimiter_Reset :: "RateLimiter \<Rightarrow> RateLimiter" where
  "RateLimiter_Reset rl =
     upd_stats (\<lambda>s. s\<lparr>rs_ActiveIPs := 0, rs_ActiveCalls := 0, rs_BlockedIPs := 0\<rparr>)
       (rl\<lparr>rl_ipBuckets := [], rl_callBuckets := [], rl_blockedIPs := []\<rparr>)"

section \<open>The address-only limiter, and the address of a request\<close>

record IPRateLimiter =
  il_requestsPerSecond :: int
  il_burstSize :: int
  il_buckets :: "string \<rightharpoonup> TokenBucket"

definition NewIPRateLimiter :: "int \<Rightarrow> int \<Rightarrow> IPRateLimiter" where
  "NewIPRateLimiter requestsPerSecond burstSize =
     \<lparr>il_requestsPerSecond = requestsPerSecond, il_burstSize = burstSize, il_buckets = Map.empty\<rparr>"

definition IPRateLimiter_Allow :: "gtime \<Rightarrow> string \<Rightarrow> IPRateLimiter \<Rightarrow> bool \<times> IPRateLimiter" where
  "IPRateLimiter_Allow now ip rl =
     (let bucket = (case il_buckets rl ip of Some b \<Rightarrow> b
                    | None \<Rightarrow> NewTokenBucket now (fl (of_int (il_burstSize rl))) (fl (of_int (il_requestsPerSecond rl))));
          (ok, bucket') = TokenBucket_Allow now bucket
      in (ok, rl\<lparr>il_buckets := (il_buckets rl)(ip \<mapsto> bucket')\<rparr>))"

text \<open>A \<^verbatim>\<open>net.Addr\<close> is a UDP or TCP address, of which the address text is used, or another address.\<close>

datatype net_Addr = net_UDPAddr string int | net_TCPAddr string int | other_Addr string

fun extractIP :: "net_Addr \<Rightarrow> string" where
  "extractIP (net_UDPAddr ip port) = ip"
| "extractIP (net_TCPAddr ip port) = ip"
| "extractIP (other_Addr s) = s"

definition AllowAddr :: "gtime \<Rightarrow> net_Addr \<Rightarrow> IPRateLimiter \<Rightarrow> bool \<times> IPRateLimiter" where
  "AllowAddr now addr rl = IPRateLimiter_Allow now (extractIP addr) rl"

record http_request =
  hr_XForwardedFor :: string
  hr_XRealIP :: string
  hr_RemoteAddr :: string

definition extractIPFromRequest :: "http_request \<Rightarrow> string" where
  "extractIPFromRequest r =
     (if hr_XForwardedFor r \<noteq> [] then takeWhile (\<lambda>c. c \<noteq> CHR '','') (hr_XForwardedFor r)
      else if hr_XRealIP r \<noteq> [] then hr_XRealIP r
      else case SplitHostPort (hr_RemoteAddr r) of None \<Rightarrow> hr_RemoteAddr r | Some (host, _) \<Rightarrow> host)"

text \<open>The middleware answers with status 429, or runs the wrapped handler.\<close>

definition RateLimitMiddleware ::
  "gtime \<Rightarrow> (http_request \<Rightarrow> 'w) \<Rightarrow> http_request \<Rightarrow> RateLimiter \<Rightarrow> ((int \<times> string) + 'w) \<times> RateLimiter" where
  "RateLimitMiddleware now serve r limiter =
     (let (ok, limiter') = AllowIP now (extractIPFromRequest r) limiter in
      (if \<not> ok then Inl (429, ''Rate limit exceeded'') else Inr (serve r), limiter'))"

definition RateLimitError :: "string \<Rightarrow> string" where
  "RateLimitError ip = ''rate limit exceeded for IP '' @ ip"

section \<open>Counters and gauges\<close>

text \<open>
  The states a limiter reaches: any operations, at any times. \<open>rl_inv\<close> says that the counters add up and that
  the gauges are the sizes of the maps.
\<close>

inductive rl_reach :: "RateLimiter \<Rightarrow> bool" where
  new: "rl_reach (NewRateLimiter now cfg)"
| allow: "rl_reach rl \<Longrightarrow> rl_reach (snd (RateLimiter_Allow now ip callID rl))"
| block: "rl_reach rl \<Longrightarrow> rl_reach (BlockIP now ip rl)"
| unblock: "rl_reach rl \<Longrightarrow> rl_reach (UnblockIP ip rl)"
| clean: "rl_reach rl \<Longrightarrow> rl_reach (RateLimiter_cleanup now rl)"
| reset: "rl_reach rl \<Longrightarrow> rl_reach (RateLimiter_Reset rl)"
| stop: "rl_reach rl \<Longrightarrow> RateLimiter_Stop rl = Some rl' \<Longrightarrow> rl_reach rl'"

definition gauge :: "int \<Rightarrow> ('k \<times> 'v) list \<Rightarrow> bool" where
  "gauge n m \<longleftrightarrow> distinct (map fst m) \<and> n = int (length m)"

definition gauges :: "RateLimiter \<Rightarrow> bool" where
  "gauges rl \<longleftrightarrow> gauge (rs_ActiveIPs (rl_stats rl)) (rl_ipBuckets rl) \<and>
     gauge (rs_ActiveCalls (rl_stats rl)) (rl_callBuckets rl) \<and>
     gauge (rs_BlockedIPs (rl_stats rl)) (rl_blockedIPs rl)"

definition answered :: "RateLimiterStats \<Rightarrow> u64" where
  "answered s = rs_AllowedRequests s + rs_RejectedGlobal s + rs_RejectedPerIP s + rs_RejectedPerCall s + rs_RejectedBlocked s"

lemma gauge_update_new: "gauge n m \<Longrightarrow> map_of m k = None \<Longrightarrow> gauge (n + 1) (AList.update k v m)"
  by (simp add: gauge_def AList_update_fresh map_of_eq_None_iff)

lemma gauge_update_old:
  assumes "gauge n m" "map_of m k \<noteq> None"
  shows "gauge n (AList.update k v m)"
proof -
  have "k \<in> fst ` set m" using assms(2) by (simp add: map_of_eq_None_iff)
  then have "length (AList.update k v m) = length m" by (induction m) auto
  then show ?thesis using assms(1) by (simp add: gauge_def distinct_update)
qed

lemma gauge_delete:
  assumes "gauge n m" "map_of m k \<noteq> None"
  shows "gauge (n - 1) (AList.delete k m)"
proof -
  have "distinct (map fst m)" "k \<in> fst ` set m" using assms by (simp_all add: gauge_def map_of_eq_None_iff)
  then have "Suc (length (AList.delete k m)) = length m"
    by (induction m) (auto simp: delete_idem)
  then show ?thesis using assms(1) by (simp add: gauge_def distinct_delete)
qed

lemma gauge_sweep: "gauge n m \<Longrightarrow> gauge (n - fst (sweep stale m)) (snd (sweep stale m))"
  using sum_length_filter_compl [of "stale \<circ> snd" m]
  by (auto simp: gauge_def sweep_def comp_def distinct_map_filter)

lemma checkIPLimit_gauges: "gauges rl \<Longrightarrow> gauges (snd (checkIPLimit now ip rl))"
  by (auto simp: checkIPLimit_def gauges_def Let_def split: option.split prod.split
      intro: gauge_update_new gauge_update_old)

lemma checkCallLimit_gauges: "gauges rl \<Longrightarrow> gauges (snd (checkCallLimit now c rl))"
  by (auto simp: checkCallLimit_def gauges_def Let_def split: option.split prod.split
      intro: gauge_update_new gauge_update_old)

lemma isBlocked_gauges: "gauges rl \<Longrightarrow> gauges (snd (isBlocked now ip rl))"
  by (auto simp: isBlocked_def gauges_def split: option.split intro: gauge_delete)

lemma isBlocked_False: "\<not> fst (isBlocked now ip rl) \<Longrightarrow> map_of (rl_blockedIPs (snd (isBlocked now ip rl))) ip = None"
  by (auto simp: isBlocked_def delete_conv split: option.splits if_splits)

lemma maybeBlockIP_gauges: "gauges rl \<Longrightarrow> map_of (rl_blockedIPs rl) ip = None \<Longrightarrow> gauges (maybeBlockIP now ip rl)"
  by (auto simp: maybeBlockIP_def gauges_def Let_def split: option.split intro: gauge_update_new)

text \<open>The checks leave the request counters alone, and each request is answered once.\<close>

definition counts :: "RateLimiterStats \<Rightarrow> u64 \<times> u64" where
  "counts s = (rs_TotalRequests s, answered s)"

lemma check_counts [simp]:
  "counts (rl_stats (snd (checkIPLimit now ip rl))) = counts (rl_stats rl)"
  "counts (rl_stats (snd (checkCallLimit now c rl))) = counts (rl_stats rl)"
  "counts (rl_stats (snd (isBlocked now ip rl))) = counts (rl_stats rl)"
  "counts (rl_stats (snd (allowGlobal now rl))) = counts (rl_stats rl)"
  "counts (rl_stats (maybeBlockIP now ip rl)) = counts (rl_stats rl)"
  by (auto simp: counts_def answered_def checkIPLimit_def checkCallLimit_def isBlocked_def allowGlobal_def
      maybeBlockIP_def Let_def split: option.split prod.split)

lemma counts_add:
  "counts (s\<lparr>rs_AllowedRequests := rs_AllowedRequests s + 1\<rparr>) = (fst (counts s), snd (counts s) + 1)"
  "counts (s\<lparr>rs_RejectedGlobal := rs_RejectedGlobal s + 1\<rparr>) = (fst (counts s), snd (counts s) + 1)"
  "counts (s\<lparr>rs_RejectedPerIP := rs_RejectedPerIP s + 1\<rparr>) = (fst (counts s), snd (counts s) + 1)"
  "counts (s\<lparr>rs_RejectedPerCall := rs_RejectedPerCall s + 1\<rparr>) = (fst (counts s), snd (counts s) + 1)"
  "counts (s\<lparr>rs_RejectedBlocked := rs_RejectedBlocked s + 1\<rparr>) = (fst (counts s), snd (counts s) + 1)"
  "counts (s\<lparr>rs_TotalRequests := rs_TotalRequests s + 1\<rparr>) = (fst (counts s) + 1, snd (counts s))"
  by (simp_all add: counts_def answered_def)

lemma allowCall_counts:
  "counts (rl_stats (snd (allowCall now c rl))) = (fst (counts (rl_stats rl)), snd (counts (rl_stats rl)) + 1)"
  by (simp add: allowCall_def Let_def case_prod_beta counts_add)

lemma allowIPAndCall_counts:
  "counts (rl_stats (snd (allowIPAndCall now ip c rl))) = (fst (counts (rl_stats rl)), snd (counts (rl_stats rl)) + 1)"
  by (simp add: allowIPAndCall_def Let_def case_prod_beta allowCall_counts counts_add)

lemma RateLimiter_Allow_counts:
  "counts (rl_stats (snd (RateLimiter_Allow now ip c rl))) = (fst (counts (rl_stats rl)) + 1, snd (counts (rl_stats rl)) + 1)"
  by (simp add: RateLimiter_Allow_def Let_def case_prod_beta counts_add allowIPAndCall_counts)

lemma allowGlobal_maps [simp]:
  "rl_ipBuckets (snd (allowGlobal now rl)) = rl_ipBuckets rl" "rl_callBuckets (snd (allowGlobal now rl)) = rl_callBuckets rl"
  "rl_blockedIPs (snd (allowGlobal now rl)) = rl_blockedIPs rl" "rl_config (snd (allowGlobal now rl)) = rl_config rl"
  "rl_stats (snd (allowGlobal now rl)) = rl_stats rl"
  by (auto simp: allowGlobal_def Let_def split: option.split prod.split)

lemma check_maps [simp]:
  "rl_blockedIPs (snd (checkIPLimit now ip rl)) = rl_blockedIPs rl" "rl_config (snd (checkIPLimit now ip rl)) = rl_config rl"
  "rl_ipBuckets (snd (checkCallLimit now c rl)) = rl_ipBuckets rl" "rl_config (snd (checkCallLimit now c rl)) = rl_config rl"
  "rl_ipBuckets (snd (isBlocked now ip rl)) = rl_ipBuckets rl" "rl_config (snd (isBlocked now ip rl)) = rl_config rl"
  "rl_ipBuckets (maybeBlockIP now ip rl) = rl_ipBuckets rl" "rl_config (maybeBlockIP now ip rl) = rl_config rl"
  by (auto simp: checkIPLimit_def checkCallLimit_def isBlocked_def maybeBlockIP_def Let_def split: option.split prod.split)

lemma allowCall_gauges: "gauges rl \<Longrightarrow> gauges (snd (allowCall now c rl))"
  using checkCallLimit_gauges [of rl now c] by (simp add: allowCall_def gauges_def Let_def case_prod_beta)

lemma allowIPAndCall_gauges:
  assumes "gauges rl" "map_of (rl_blockedIPs rl) ip = None"
  shows "gauges (snd (allowIPAndCall now ip c rl))"
proof -
  let ?rl = "snd (checkIPLimit now ip rl)"
  have g: "gauges ?rl" by (rule checkIPLimit_gauges [OF assms(1)])
  then have "gauges (upd_stats (\<lambda>s. s\<lparr>rs_RejectedPerIP := rs_RejectedPerIP s + 1\<rparr>) ?rl)" by (simp add: gauges_def)
  with g assms show ?thesis by (simp add: allowIPAndCall_def Let_def case_prod_beta allowCall_gauges maybeBlockIP_gauges)
qed

lemma RateLimiter_Allow_gauges:
  assumes "gauges rl"
  shows "gauges (snd (RateLimiter_Allow now ip c rl))"
proof -
  define rl1 where "rl1 = upd_stats (\<lambda>s. s\<lparr>rs_TotalRequests := rs_TotalRequests s + 1\<rparr>) rl"
  have 1: "gauges rl1" using assms by (simp add: rl1_def gauges_def)
  define rl2 where "rl2 = snd (isBlocked now ip rl1)"
  define rl3 where "rl3 = snd (allowGlobal now rl2)"
  have g2: "gauges rl2" unfolding rl2_def by (rule isBlocked_gauges [OF 1])
  then have g3: "gauges rl3" by (simp add: rl3_def gauges_def)
  have "\<not> fst (isBlocked now ip rl1) \<Longrightarrow> map_of (rl_blockedIPs rl3) ip = None"
    using isBlocked_False [of now ip rl1] by (simp add: rl2_def rl3_def)
  moreover have "gauges (upd_stats (\<lambda>s. s\<lparr>rs_RejectedBlocked := rs_RejectedBlocked s + 1\<rparr>) rl2)"
    "gauges (upd_stats (\<lambda>s. s\<lparr>rs_RejectedGlobal := rs_RejectedGlobal s + 1\<rparr>) rl3)"
    using g2 g3 by (simp_all add: gauges_def)
  ultimately show ?thesis
    using g3 by (simp add: RateLimiter_Allow_def Let_def case_prod_beta flip: rl1_def rl2_def rl3_def) (simp add: allowIPAndCall_gauges)
qed

lemma block_gauges: "gauges rl \<Longrightarrow> gauges (BlockIP now ip rl)" "gauges rl \<Longrightarrow> gauges (UnblockIP ip rl)"
  by (cases "map_of (rl_blockedIPs rl) ip = None";
      simp add: gauges_def BlockIP_def UnblockIP_def gauge_update_new gauge_update_old gauge_delete)+

lemma rl_reach_gauges: "rl_reach rl \<Longrightarrow> gauges rl"
proof (induction rule: rl_reach.induct)
  case (clean rl now)
  then show ?case
    by (simp add: gauges_def RateLimiter_cleanup_def Let_def case_prod_beta gauge_sweep)
qed (auto simp: RateLimiter_Allow_gauges block_gauges, auto simp: gauges_def gauge_def NewRateLimiter_def
      RateLimiter_Reset_def RateLimiter_Stop_def Let_def split: if_splits)

lemma rl_reach_counts: "rl_reach rl \<Longrightarrow> rs_TotalRequests (rl_stats rl) = answered (rl_stats rl)"
proof (induction rule: rl_reach.induct)
  case (allow rl now ip c)
  then show ?case using RateLimiter_Allow_counts [of now ip c rl] by (simp add: counts_def)
qed (auto simp: answered_def NewRateLimiter_def BlockIP_def UnblockIP_def RateLimiter_Reset_def RateLimiter_Stop_def
      RateLimiter_cleanup_def Let_def case_prod_beta split: if_splits)

section \<open>The rate of one address\<close>



















lemma charge_entry [simp]:
  "le_bucket (snd (charge now e)) = snd (TokenBucket_Allow now (le_bucket e))" "le_lastAccess (snd (charge now e)) = now"
  by (simp_all add: charge_def case_prod_beta)









lemma block_fields [simp]:
  "rl_config (BlockIP now ip rl) = rl_config rl" "rl_ipBuckets (BlockIP now ip rl) = rl_ipBuckets rl"
  "rl_config (UnblockIP ip rl) = rl_config rl" "rl_ipBuckets (UnblockIP ip rl) = rl_ipBuckets rl"
  by (simp_all add: BlockIP_def UnblockIP_def Let_def)




text \<open>A blocked address is rejected until its block has expired, and it does not use up tokens.\<close>

lemma blocked_rejected:
  assumes "map_of (rl_blockedIPs rl) ip = Some blockedAt" "now - blockedAt \<le> rc_BlockDuration (rl_config rl)"
  shows "\<not> fst (RateLimiter_Allow now ip callID rl)"
    "rl_ipBuckets (snd (RateLimiter_Allow now ip callID rl)) = rl_ipBuckets rl"
    "rl_blockedIPs (snd (RateLimiter_Allow now ip callID rl)) = rl_blockedIPs rl"
  using assms by (simp_all add: RateLimiter_Allow_def isBlocked_def Let_def)

section \<open>Properties\<close>



text \<open>
  In every reachable limiter each request has been counted once, as allowed or under the reason of its rejection, and the
  gauges of active addresses, active calls and blocked addresses are the numbers of entries in the three maps.
\<close>

lemma rate_limiter_counters:
  assumes "rl_reach rl"
  shows "rs_TotalRequests (rl_stats rl) = rs_AllowedRequests (rl_stats rl) + rs_RejectedGlobal (rl_stats rl) +
      rs_RejectedPerIP (rl_stats rl) + rs_RejectedPerCall (rl_stats rl) + rs_RejectedBlocked (rl_stats rl) \<and>
    rs_ActiveIPs (rl_stats rl) = int (card (dom (map_of (rl_ipBuckets rl)))) \<and>
    rs_ActiveCalls (rl_stats rl) = int (card (dom (map_of (rl_callBuckets rl)))) \<and>
    rs_BlockedIPs (rl_stats rl) = int (card (dom (map_of (rl_blockedIPs rl))))"
proof -
  have card: "n = int (card (dom (map_of m)))" if "gauge n m" for n and m :: "(string \<times> 'v) list"
  proof -
    have "card (set (map fst m)) = length (map fst m)" using that by (intro distinct_card) (simp add: gauge_def)
    then show ?thesis using that by (simp add: gauge_def dom_map_of_conv_image_fst)
  qed
  show ?thesis
    using rl_reach_counts [OF assms] rl_reach_gauges [OF assms] by (simp add: answered_def gauges_def card)
qed

end
