(* ===== verification/Auth_Rate_Limiter.thy ===== *)
theory Auth_Rate_Limiter
  imports Token_Bucket
begin

text \<open>
  The limiters of the HTTP API, \<^verbatim>\<open>internal/auth/ratelimit.go\<close>: a token bucket per client key, a sliding window, and
  a bucket with a rate of its own for some keys. The router of \<^verbatim>\<open>internal/api/router.go\<close> uses the first, with a
  period of one minute.

  An exported operation is one step and reads the clock once. The model is for a period other than zero, since
  the code divides by it in floating point. The duration \<open>period\<close> is in nanoseconds, as everywhere in Go.
\<close>

section \<open>Token buckets\<close>

record auth_bucket =
  ab_tokens :: rat
  ab_lastRefill :: gtime

record auth_RateLimiter =
  ar_rate :: int
  ar_period :: duration
  ar_buckets :: "(string \<times> auth_bucket) list"
  ar_stopped :: bool

definition auth_NewRateLimiter :: "int \<Rightarrow> duration \<Rightarrow> auth_RateLimiter" where
  "auth_NewRateLimiter rate period = \<lparr>ar_rate = rate, ar_period = period, ar_buckets = [], ar_stopped = False\<rparr>"

definition cleanup_stale :: "gtime \<Rightarrow> auth_RateLimiter \<Rightarrow> auth_RateLimiter" where
  "cleanup_stale now rl =
     (let staleThreshold = now + (- 5 * ar_period rl) in
      rl\<lparr>ar_buckets := filter (\<lambda>(key, b). \<not> ab_lastRefill b < staleThreshold) (ar_buckets rl)\<rparr>)"

text \<open>The tokens of a bucket at time \<open>now\<close>, capped at the rate.\<close>

definition bucket_level :: "int \<Rightarrow> duration \<Rightarrow> gtime \<Rightarrow> auth_bucket \<Rightarrow> rat" where
  "bucket_level rate period now b =
     (let elapsed = now - ab_lastRefill b;
          refillRate = fl (fl (of_int rate) / fl (of_int period));
          tokens = fl (ab_tokens b + fl (Seconds elapsed * refillRate))
      in if tokens > fl (of_int rate) then fl (of_int rate) else tokens)"

text \<open>Refill, cap and spend, the code that \<^verbatim>\<open>AllowN\<close> and the limiter with rates per key have in common.\<close>

definition bucket_AllowN :: "int \<Rightarrow> duration \<Rightarrow> rat \<Rightarrow> gtime \<Rightarrow> auth_bucket \<Rightarrow> bool \<times> auth_bucket" where
  "bucket_AllowN rate period n now b =
     (let tokens = bucket_level rate period now b; b' = b\<lparr>ab_tokens := tokens, ab_lastRefill := now\<rparr> in
      if tokens \<ge> n then (True, b'\<lparr>ab_tokens := fl (tokens - n)\<rparr>) else (False, b'))"

definition auth_AllowN :: "gtime \<Rightarrow> string \<Rightarrow> int \<Rightarrow> auth_RateLimiter \<Rightarrow> bool \<times> auth_RateLimiter" where
  "auth_AllowN now key n rl =
     (let b = (case map_of (ar_buckets rl) key of Some b \<Rightarrow> b
               | None \<Rightarrow> \<lparr>ab_tokens = fl (of_int (ar_rate rl)), ab_lastRefill = now\<rparr>);
          (ok, b') = bucket_AllowN (ar_rate rl) (ar_period rl) (fl (of_int n)) now b
      in (ok, rl\<lparr>ar_buckets := AList.update key b' (ar_buckets rl)\<rparr>))"

definition auth_Allow :: "gtime \<Rightarrow> string \<Rightarrow> auth_RateLimiter \<Rightarrow> bool \<times> auth_RateLimiter" where
  "auth_Allow now key rl = auth_AllowN now key 1 rl"

definition auth_Remaining :: "gtime \<Rightarrow> string \<Rightarrow> auth_RateLimiter \<Rightarrow> int" where
  "auth_Remaining now key rl =
     (case map_of (ar_buckets rl) key of None \<Rightarrow> ar_rate rl
      | Some b \<Rightarrow> trunc (bucket_level (ar_rate rl) (ar_period rl) now b))"

definition auth_Reset :: "string \<Rightarrow> auth_RateLimiter \<Rightarrow> auth_RateLimiter" where
  "auth_Reset key rl = rl\<lparr>ar_buckets := AList.delete key (ar_buckets rl)\<rparr>"

definition ResetAll :: "auth_RateLimiter \<Rightarrow> auth_RateLimiter" where
  "ResetAll rl = rl\<lparr>ar_buckets := []\<rparr>"

definition SetRate :: "int \<Rightarrow> auth_RateLimiter \<Rightarrow> auth_RateLimiter" where
  "SetRate rate rl = rl\<lparr>ar_rate := rate\<rparr>"

definition auth_Stop :: "auth_RateLimiter \<Rightarrow> auth_RateLimiter option" where
  "auth_Stop rl = (if ar_stopped rl then None else Some (rl\<lparr>ar_stopped := True\<rparr>))"

record auth_Stats =
  as_Rate :: int
  as_Period :: duration
  as_ActiveBuckets :: int

definition auth_GetStats :: "auth_RateLimiter \<Rightarrow> auth_Stats" where
  "auth_GetStats rl =
     \<lparr>as_Rate = ar_rate rl, as_Period = ar_period rl, as_ActiveBuckets = int (length (ar_buckets rl))\<rparr>"

section \<open>Sliding window\<close>

record SlidingWindowRateLimiter =
  sw_rate :: int
  sw_window :: duration
  sw_requests :: "string \<rightharpoonup> gtime list"

definition NewSlidingWindowRateLimiter :: "int \<Rightarrow> duration \<Rightarrow> SlidingWindowRateLimiter" where
  "NewSlidingWindowRateLimiter rate window = \<lparr>sw_rate = rate, sw_window = window, sw_requests = Map.empty\<rparr>"

definition SlidingWindow_Allow :: "gtime \<Rightarrow> string \<Rightarrow> SlidingWindowRateLimiter \<Rightarrow> bool \<times> SlidingWindowRateLimiter" where
  "SlidingWindow_Allow now key rl =
     (let windowStart = now - sw_window rl;
          reqs = (case sw_requests rl key of None \<Rightarrow> [] | Some r \<Rightarrow> r);
          filtered = filter (\<lambda>t. t > windowStart) reqs
      in if int (length filtered) \<ge> sw_rate rl
         then (False, rl\<lparr>sw_requests := (sw_requests rl)(key \<mapsto> filtered)\<rparr>)
         else (True, rl\<lparr>sw_requests := (sw_requests rl)(key \<mapsto> filtered @ [now])\<rparr>))"

definition SlidingWindow_Remaining :: "gtime \<Rightarrow> string \<Rightarrow> SlidingWindowRateLimiter \<Rightarrow> int" where
  "SlidingWindow_Remaining now key rl =
     (case sw_requests rl key of None \<Rightarrow> sw_rate rl
      | Some reqs \<Rightarrow>
          let remaining = sw_rate rl - int (length (filter (\<lambda>t. t > now - sw_window rl) reqs)) in
          if remaining < 0 then 0 else remaining)"

definition SlidingWindow_Reset :: "string \<Rightarrow> SlidingWindowRateLimiter \<Rightarrow> SlidingWindowRateLimiter" where
  "SlidingWindow_Reset key rl = rl\<lparr>sw_requests := (sw_requests rl)(key := None)\<rparr>"

section \<open>Rates per key\<close>

record PerKeyRateLimiter =
  pk_defaultRate :: int
  pk_period :: duration
  pk_keyRates :: "string \<rightharpoonup> int"
  pk_buckets :: "string \<rightharpoonup> auth_bucket"

definition NewPerKeyRateLimiter :: "int \<Rightarrow> duration \<Rightarrow> PerKeyRateLimiter" where
  "NewPerKeyRateLimiter defaultRate period =
     \<lparr>pk_defaultRate = defaultRate, pk_period = period, pk_keyRates = Map.empty, pk_buckets = Map.empty\<rparr>"

definition SetKeyRate :: "string \<Rightarrow> int \<Rightarrow> PerKeyRateLimiter \<Rightarrow> PerKeyRateLimiter" where
  "SetKeyRate key rate rl = rl\<lparr>pk_keyRates := (pk_keyRates rl)(key \<mapsto> rate)\<rparr>"

definition PerKey_Allow :: "gtime \<Rightarrow> string \<Rightarrow> PerKeyRateLimiter \<Rightarrow> bool \<times> PerKeyRateLimiter" where
  "PerKey_Allow now key rl =
     (let rate = (case pk_keyRates rl key of Some r \<Rightarrow> r | None \<Rightarrow> pk_defaultRate rl);
          b = (case pk_buckets rl key of Some b \<Rightarrow> b
               | None \<Rightarrow> \<lparr>ab_tokens = fl (of_int rate), ab_lastRefill = now\<rparr>);
          (ok, b') = bucket_AllowN rate (pk_period rl) 1 now b
      in (ok, rl\<lparr>pk_buckets := (pk_buckets rl)(key \<mapsto> b')\<rparr>))"

section \<open>The bucket keeps the contract, at a rate that is too small\<close>

text \<open>
  The code divides the rate by the period in nanoseconds and multiplies by seconds, so the tokens gained per
  nanosecond are \<open>rate / (period * 10 ^ 9)\<close> where \<open>rate / period\<close> was meant.
\<close>

definition ab_wf :: "int \<Rightarrow> duration \<Rightarrow> auth_bucket \<Rightarrow> bool" where
  "ab_wf rate period b \<longleftrightarrow> 0 \<le> rate \<and> rate < 2 ^ 53 \<and> 0 < period \<and> period < 2 ^ 53 \<and>
     0 \<le> ab_tokens b \<and> ab_tokens b \<le> of_int rate"

lemma bucket_level_bounds:
  assumes "ab_wf rate period b" "ab_lastRefill b \<le> now"
  shows "0 \<le> bucket_level rate period now b" "bucket_level rate period now b \<le> of_int rate"
    "bucket_level rate period now b \<le>
       ab_tokens b + of_int rate / of_int period * (of_int (now - ab_lastRefill b) / 10 ^ 9) * rate_slack + of_int rate / 2 ^ 53"
    "1 \<le> rate \<Longrightarrow> rate_slack \<le> of_int rate / of_int period * (of_int (now - ab_lastRefill b) / 10 ^ 9) \<Longrightarrow>
       1 \<le> bucket_level rate period now b"
proof -
  let ?r = "of_int rate / of_int period :: rat"
  have w: "0 \<le> rate" "rate < 2 ^ 53" "0 < period" "period < 2 ^ 53" using assms(1) by (simp_all add: ab_wf_def)
  have r: "0 \<le> ?r" using w by simp
  have f: "fl (of_int rate) = of_int rate" "fl (of_int period) = of_int period" using w by simp_all
  have l: "bucket_level rate period now b =
      (if fl (ab_tokens b + fl (Seconds (now - ab_lastRefill b) * fl ?r)) > of_int rate then of_int rate
       else fl (ab_tokens b + fl (Seconds (now - ab_lastRefill b) * fl ?r)))"
    by (simp only: bucket_level_def Let_def f)
  note b = capped_bounds [OF _ _ r _ fl_lower [OF r] fl_bounds(2) [OF r] refl l]
  have *: "0 \<le> ab_tokens b" "ab_tokens b \<le> of_int rate" "0 \<le> now - ab_lastRefill b" using assms by (simp_all add: ab_wf_def)
  show "0 \<le> bucket_level rate period now b" "bucket_level rate period now b \<le> of_int rate"
    "bucket_level rate period now b \<le> ab_tokens b + ?r * (of_int (now - ab_lastRefill b) / 10 ^ 9) * rate_slack + of_int rate / 2 ^ 53"
    using b(1-3) * by blast+
  show "1 \<le> rate \<Longrightarrow> rate_slack \<le> ?r * (of_int (now - ab_lastRefill b) / 10 ^ 9) \<Longrightarrow> 1 \<le> bucket_level rate period now b"
    using b(4) [OF *] by (simp only: of_int_1_le_iff)
qed

interpretation ab: token_bucket ab_tokens "\<lambda>b. of_int rate" "\<lambda>b. of_int rate / of_int period / 10 ^ 9" ab_lastRefill
  "bucket_AllowN rate period 1" "ab_wf rate period" for rate period
proof
  fix b now
  assume wf: "ab_wf rate period b" and le: "ab_lastRefill b \<le> now"
  note r = bucket_level_bounds [OF wf le]
  have c: "0 \<le> rate" "rate < 2 ^ 53" "0 < period" "period < 2 ^ 53" using wf by (simp_all add: ab_wf_def)
  then have "(of_int rate :: rat) \<le> of_int (2 ^ 53)" by (simp only: of_int_le_iff)
  then have c': "of_int rate \<le> (2 ^ 53 :: rat)" by simp
  note s = spent_bounds [OF _ r(2) c']
  let ?A = "bucket_AllowN rate period 1 now b"
  show "ab_wf rate period (snd ?A)" using r(1,2) c s(1,3) by (simp add: bucket_AllowN_def Let_def ab_wf_def)
  have "ab_tokens (snd ?A) + of_bool (fst ?A) \<le> bucket_level rate period now b + of_int rate / 2 ^ 53"
    using s(2) order_trans [OF r(1,2)] by (cases "1 \<le> bucket_level rate period now b") (simp_all add: bucket_AllowN_def Let_def)
  then show "ab_tokens (snd ?A) + of_bool (fst ?A) \<le>
      ab_tokens b + of_int rate / of_int period / 10 ^ 9 * of_int (now - ab_lastRefill b) * rate_slack + of_int rate / 2 ^ 52"
    using r(3) by simp
  assume "1 \<le> (of_int rate :: rat)" "rate_slack \<le> of_int rate / of_int period / 10 ^ 9 * of_int (now - ab_lastRefill b)"
  then show "fst ?A" using r(4) by (simp add: bucket_AllowN_def Let_def)
qed (simp_all add: ab_wf_def bucket_AllowN_def Let_def)

section \<open>Runs of the API limiter\<close>

text \<open>Requests of any keys and passes of the clean-up loop; \<open>auth_grants\<close> counts what one key is granted.\<close>

datatype auth_event = AuthRequest string | AuthCleanup

fun auth_apply :: "gtime \<Rightarrow> auth_event \<Rightarrow> auth_RateLimiter \<Rightarrow> bool \<times> auth_RateLimiter" where
  "auth_apply now (AuthRequest key) rl = auth_Allow now key rl"
| "auth_apply now AuthCleanup rl = (False, cleanup_stale now rl)"

fun auth_grants :: "string \<Rightarrow> (gtime \<times> auth_event) list \<Rightarrow> auth_RateLimiter \<Rightarrow> nat" where
  "auth_grants key [] rl = 0"
| "auth_grants key ((now, ev) # evs) rl =
     of_bool (ev = AuthRequest key \<and> fst (auth_apply now ev rl)) + auth_grants key evs (snd (auth_apply now ev rl))"

text \<open>The key asks again before five periods have passed, so the clean-up loop keeps its bucket.\<close>

fun keeps_asking :: "duration \<Rightarrow> string \<Rightarrow> gtime \<Rightarrow> (gtime \<times> auth_event) list \<Rightarrow> bool" where
  "keeps_asking period key asked [] \<longleftrightarrow> True"
| "keeps_asking period key asked ((now, ev) # evs) \<longleftrightarrow>
     now - asked \<le> 5 * period \<and> keeps_asking period key (if ev = AuthRequest key then now else asked) evs"

definition request_times :: "string \<Rightarrow> (gtime \<times> auth_event) list \<Rightarrow> gtime list" where
  "request_times key evs = map fst (filter (\<lambda>(_, ev). ev = AuthRequest key) evs)"

lemma auth_grants_bucket:
  "map_of (ar_buckets rl) key = Some b \<Longrightarrow> distinct (map fst (ar_buckets rl)) \<Longrightarrow>
   keeps_asking (ar_period rl) key (ab_lastRefill b) evs \<Longrightarrow>
   auth_grants key evs rl = grants (bucket_AllowN (ar_rate rl) (ar_period rl) 1) (request_times key evs) b"
proof (induction evs arbitrary: rl b)
  case (Cons x evs)
  obtain now ev where x: "x = (now, ev)" by fastforce
  show ?case
  proof (cases ev)
    case (AuthRequest k)
    let ?A = "auth_Allow now k rl" and ?B = "bucket_AllowN (ar_rate rl) (ar_period rl) 1 now b"
    have one: "fl 1 = 1" using fl_of_int [of 1] by simp
    have f: "ar_rate (snd ?A) = ar_rate rl" "ar_period (snd ?A) = ar_period rl" "distinct (map fst (ar_buckets (snd ?A)))"
      using Cons.prems(2) by (simp_all add: auth_Allow_def auth_AllowN_def case_prod_beta Let_def distinct_update)
    have m: "map_of (ar_buckets (snd ?A)) key = Some (if k = key then snd ?B else b)" "k = key \<Longrightarrow> fst ?A = fst ?B"
      using Cons.prems(1) by (auto simp: auth_Allow_def auth_AllowN_def case_prod_beta Let_def update_conv' one)
    have "keeps_asking (ar_period rl) key (ab_lastRefill (if k = key then snd ?B else b)) evs"
      using Cons.prems(3) by (simp add: x AuthRequest ab.stamp_draw split: if_splits)
    then show ?thesis
      using Cons.IH [OF m(1) f(3)] m(2) by (simp add: x AuthRequest f(1,2) request_times_def)
  next
    case AuthCleanup
    have "\<not> ab_lastRefill b < now + (- 5 * ar_period rl)" using Cons.prems(3) by (simp add: x)
    then have "map_of (ar_buckets (cleanup_stale now rl)) key = Some b"
      using Cons.prems(1,2) by (auto simp: cleanup_stale_def Let_def map_of_eq_Some_iff distinct_map_filter)
    moreover have "distinct (map fst (ar_buckets (cleanup_stale now rl)))"
      using Cons.prems(2) by (simp add: cleanup_stale_def Let_def distinct_map_filter)
    ultimately show ?thesis
      using Cons.IH [of "cleanup_stale now rl" b] Cons.prems(3) AuthCleanup
      by (simp add: x request_times_def cleanup_stale_def Let_def)
  qed
qed (simp add: request_times_def)

lemma request_times_sorted:
  "sorted (t0 # map fst evs) \<Longrightarrow>
   sorted (t0 # request_times key evs) \<and> last (t0 # request_times key evs) \<le> last (t0 # map fst evs) \<and>
   length (request_times key evs) \<le> length evs"
proof (induction evs arbitrary: t0)
  case (Cons x evs)
  obtain now ev where x: "x = (now, ev)" by fastforce
  have s: "t0 \<le> now" "sorted (now # map fst evs)" "sorted (t0 # map fst evs)" using Cons.prems by (simp_all add: x)
  have l: "last (t0 # map fst evs) \<le> last (t0 # map fst (x # evs))" using s(1) by (simp add: x)
  show ?case
  proof (cases "ev = AuthRequest key")
    case True
    then show ?thesis using Cons.IH [OF s(2)] s(1) by (auto simp: x request_times_def)
  next
    case False
    then have "request_times key (x # evs) = request_times key evs" by (simp add: x request_times_def)
    then show ?thesis using Cons.IH [OF s(3)] l by simp
  qed
qed (simp add: request_times_def)

section \<open>Properties\<close>

text \<open>A client of the API that has used up its bucket is locked out. With \<open>rate\<close> requests per \<open>period\<close> configured, it is
  granted no request at all during the next \<open>period * 10 ^ 9 / (2 * rate)\<close>, almost sixteen years for sixty requests per
  minute, as long as it asks at least once in five periods, whatever other clients and the clean-up loop do.
\<close>

lemma auth_client_locked_out:
  assumes "map_of (ar_buckets rl) key = Some \<lparr>ab_tokens = 0, ab_lastRefill = t0\<rparr>" "distinct (map fst (ar_buckets rl))"
    and "0 < ar_rate rl" "ar_rate rl < 2 ^ 53" "0 < ar_period rl" "ar_period rl < 2 ^ 53"
    and "sorted (t0 # map fst evs)" "keeps_asking (ar_period rl) key t0 evs"
    and "2 * ar_rate rl * (last (t0 # map fst evs) - t0) \<le> ar_period rl * 10 ^ 9"
    and "int (length evs) * ar_rate rl \<le> 2 ^ 50"
  shows "auth_grants key evs rl = 0"
proof -
  let ?b = "\<lparr>ab_tokens = 0, ab_lastRefill = t0\<rparr>" and ?ts = "request_times key evs" and ?R = "of_int (ar_rate rl) :: rat"
  let ?d = "of_int (last (t0 # ?ts) - t0) :: rat" and ?n = "grants (bucket_AllowN (ar_rate rl) (ar_period rl) 1) (request_times key evs) ?b"
  note ts = request_times_sorted [OF assms(7), of key]
  have "ab_wf (ar_rate rl) (ar_period rl) ?b" using assms(3-6) by (simp add: ab_wf_def)
  then have n: "of_nat ?n \<le> ?R / of_int (ar_period rl) / 10 ^ 9 * ?d * rate_slack + of_nat (length ?ts) * (?R / 2 ^ 52)"
    using ab.grants_level [of "ar_rate rl" "ar_period rl" ?b ?ts] ts by simp
  have "2 * ar_rate rl * (last (t0 # ?ts) - t0) \<le> 2 * ar_rate rl * (last (t0 # map fst evs) - t0)"
    using ts assms(3) by (intro mult_left_mono) auto
  then have "2 * ar_rate rl * (last (t0 # ?ts) - t0) \<le> ar_period rl * 10 ^ 9" using assms(9) by linarith
  then have "(of_int (2 * ar_rate rl * (last (t0 # ?ts) - t0)) :: rat) \<le> of_int (ar_period rl * 10 ^ 9)" by (simp only: of_int_le_iff)
  then have "2 * (?R * ?d) \<le> of_int (ar_period rl) * 10 ^ 9" by (simp only: of_int_mult of_int_numeral of_int_power mult.assoc)
  then have "?R / of_int (ar_period rl) / 10 ^ 9 * ?d \<le> 1 / 2" using assms(5) by (simp add: divide_simps mult_ac)
  then have a: "?R / of_int (ar_period rl) / 10 ^ 9 * ?d * rate_slack \<le> 1 / 2 * rate_slack" by (rule mult_right_mono) simp
  have "int (length ?ts) * ar_rate rl \<le> int (length evs) * ar_rate rl" using ts assms(3) by (intro mult_right_mono) auto
  then have "int (length ?ts) * ar_rate rl \<le> 2 ^ 50" using assms(10) by linarith
  then have "(of_int (int (length ?ts) * ar_rate rl) :: rat) \<le> of_int (2 ^ 50)" by (simp only: of_int_le_iff)
  then have "of_nat (length ?ts) * (?R / 2 ^ 52) \<le> 1 / 4" by (simp add: mult.commute)
  with n a have "of_nat ?n \<le> 1 / 2 * rate_slack + 1 / 4" by linarith
  also have "\<dots> < of_nat 1" by simp
  finally have "of_nat ?n < (of_nat 1 :: rat)" .
  then have "?n = 0" by (simp only: of_nat_less_iff less_one)
  then show ?thesis using auth_grants_bucket [OF assms(1,2), of evs] assms(8) by simp
qed

text \<open>The requests of a key that a run of the sliding window limiter has granted, oldest first.\<close>

fun sw_run :: "(gtime \<times> string) list \<Rightarrow> SlidingWindowRateLimiter \<Rightarrow> SlidingWindowRateLimiter" where
  "sw_run [] rl = rl"
| "sw_run ((now, key) # evs) rl = sw_run evs (snd (SlidingWindow_Allow now key rl))"

fun sw_granted :: "string \<Rightarrow> (gtime \<times> string) list \<Rightarrow> SlidingWindowRateLimiter \<Rightarrow> gtime list" where
  "sw_granted key [] rl = []"
| "sw_granted key ((now, k) # evs) rl =
     (if k = key \<and> fst (SlidingWindow_Allow now k rl) then [now] else []) @
     sw_granted key evs (snd (SlidingWindow_Allow now k rl))"

text \<open>
  \<open>hist\<close> are the granted times of the key; the limiter remembers those inside the window of the last request.
\<close>

definition sw_remembers :: "string \<Rightarrow> gtime \<Rightarrow> gtime list \<Rightarrow> SlidingWindowRateLimiter \<Rightarrow> bool" where
  "sw_remembers key now hist rl \<longleftrightarrow>
     (\<exists>seen \<le> now. (case sw_requests rl key of None \<Rightarrow> [] | Some r \<Rightarrow> r) = filter (\<lambda>t. t > seen - sw_window rl) hist)"

lemma filter_later: "a \<le> b \<Longrightarrow> (\<lambda>x. a < x \<and> b < x) = (\<lambda>x. b < (x :: int))"
  by auto

lemma sw_remembers_count:
  assumes "sw_remembers key now hist rl"
  shows "fst (SlidingWindow_Allow now key rl) \<longleftrightarrow> int (length (filter (\<lambda>t. t > now - sw_window rl) hist)) < sw_rate rl"
  using assms by (auto simp: sw_remembers_def SlidingWindow_Allow_def Let_def filter_later not_le)

lemma sw_fields [simp]:
  "sw_rate (snd (SlidingWindow_Allow now k rl)) = sw_rate rl" "sw_window (snd (SlidingWindow_Allow now k rl)) = sw_window rl"
  by (simp_all add: SlidingWindow_Allow_def Let_def)

lemma sw_remembers_step:
  assumes "sw_remembers key now hist rl" "0 < sw_window rl"
  shows "sw_remembers key now (hist @ (if k = key \<and> fst (SlidingWindow_Allow now k rl) then [now] else [])) (snd (SlidingWindow_Allow now k rl))"
proof (cases "k = key")
  case True
  then have "(case sw_requests (snd (SlidingWindow_Allow now k rl)) key of None \<Rightarrow> [] | Some r \<Rightarrow> r) =
      filter (\<lambda>t. t > now - sw_window rl) (hist @ (if fst (SlidingWindow_Allow now k rl) then [now] else []))"
    using assms by (auto simp: sw_remembers_def SlidingWindow_Allow_def Let_def filter_later)
  then show ?thesis using True unfolding sw_remembers_def by (intro exI [of _ now] conjI) (simp_all only: sw_fields simp_thms order_refl)
qed (use assms in \<open>auto simp: sw_remembers_def SlidingWindow_Allow_def Let_def\<close>)

lemma sw_run_fields [simp]: "sw_rate (sw_run evs rl) = sw_rate rl" "sw_window (sw_run evs rl) = sw_window rl"
  by (induction evs rl rule: sw_run.induct) simp_all

lemma sw_remembers_later: "sw_remembers key now hist rl \<Longrightarrow> now \<le> now' \<Longrightarrow> sw_remembers key now' hist rl"
  by (auto simp: sw_remembers_def intro: order_trans)

lemma sw_run_remembers:
  "sw_remembers key t0 hist rl \<Longrightarrow> 0 < sw_window rl \<Longrightarrow> sorted (t0 # map fst evs) \<Longrightarrow>
   sw_remembers key (last (t0 # map fst evs)) (hist @ sw_granted key evs rl) (sw_run evs rl)"
proof (induction evs arbitrary: t0 hist rl)
  case (Cons x evs)
  obtain now k where x: "x = (now, k)" by fastforce
  have "sw_remembers key now hist rl" using Cons.prems(1,3) by (intro sw_remembers_later [OF Cons.prems(1)]) (simp add: x)
  from Cons.IH [OF sw_remembers_step [OF this Cons.prems(2), of k]] Cons.prems show ?case by (simp add: x)
qed simp

lemma sorted_snoc_hd:
  assumes "sorted (xs @ [y])"
  shows "sorted (hd (xs @ [y]) # xs)" "last (hd (xs @ [y]) # xs) \<le> y"
proof -
  show "sorted (hd (xs @ [y]) # xs)" using assms by (cases xs) (auto simp: sorted_append)
  show "last (hd (xs @ [y]) # xs) \<le> y"
  proof (cases "xs = []")
    case False
    then show ?thesis using assms last_in_set [OF False] by (auto simp: sorted_append)
  qed simp
qed

text \<open>The sliding window limiter grants a request exactly when fewer than \<open>rate\<close> requests of the same key were granted
  within the window before it, although it only remembers the recent ones.
\<close>

lemma sliding_window_exact:
  assumes "0 < window" "sorted (map fst evs @ [now])"
  shows "fst (SlidingWindow_Allow now key (sw_run evs (NewSlidingWindowRateLimiter rate window))) \<longleftrightarrow>
    int (length (filter (\<lambda>t. t > now - window) (sw_granted key evs (NewSlidingWindowRateLimiter rate window)))) < rate"
proof -
  let ?rl = "NewSlidingWindowRateLimiter rate window"
  define t0 where "t0 = hd (map fst evs @ [now])"
  have s: "sorted (t0 # map fst evs)" "last (t0 # map fst evs) \<le> now"
    using sorted_snoc_hd [OF assms(2)] by (simp_all add: t0_def)
  have "sw_remembers key t0 [] ?rl" by (auto simp: sw_remembers_def NewSlidingWindowRateLimiter_def)
  then have "sw_remembers key (last (t0 # map fst evs)) (sw_granted key evs ?rl) (sw_run evs ?rl)"
    using sw_run_remembers [of key t0 "[]" ?rl evs] s assms(1) by (simp add: NewSlidingWindowRateLimiter_def)
  from sw_remembers_count [OF sw_remembers_later [OF this s(2)]] show ?thesis by (simp add: NewSlidingWindowRateLimiter_def)
qed

end
