(* ===== verification/DoS_Protection.thy ===== *)
theory DoS_Protection
  imports Token_Bucket Go_Net
begin

text \<open>
  Denial-of-service protection, \<^verbatim>\<open>internal/dos_protection.go\<close>: request checks (lists, bans, sizes, rates), violations that lead to a
  ban, connection and request accounting, and the small wrappers around them.

  An exported operation is one step and reads the clock once. \<open>None\<close> is a panic: the state of a new address is made with a
  slice whose capacity is \<^verbatim>\<open>BanThreshold\<close>, which must not be negative. Maps that the clean-up ranges over are association lists.
  The atomic 32-bit counters that the code compares with limits wrap; the 64-bit statistics do not. The timeout and
  header limits of the configuration and the field \<^verbatim>\<open>connections\<close> of an address are not used by the code, and are left out,
  as is the context argument.
\<close>

section \<open>State\<close>

datatype dos_error =
    ErrRateLimitExceeded | ErrConnectionLimit | ErrRequestTooLarge int int | ErrClientBanned
  | ErrResourceExhausted | ErrSlowClientDetected

record DoSProtectionConfig =
  dc_GlobalRequestsPerSecond :: int
  dc_GlobalBurstSize :: int
  dc_PerIPRequestsPerSecond :: int
  dc_PerIPBurstSize :: int
  dc_MaxConnectionsPerIP :: int
  dc_MaxTotalConnections :: int
  dc_MaxRequestSize :: int
  dc_SlowClientTimeout :: duration
  dc_BanThreshold :: int
  dc_BanDuration :: duration
  dc_ViolationWindow :: duration
  dc_MaxConcurrentRequests :: int
  dc_MaxPendingRequests :: int
  dc_WhitelistedIPs :: "string list"
  dc_BlacklistedIPs :: "string list"

definition DefaultDoSProtectionConfig :: DoSProtectionConfig where
  "DefaultDoSProtectionConfig =
     \<lparr>dc_GlobalRequestsPerSecond = 10000, dc_GlobalBurstSize = 1000, dc_PerIPRequestsPerSecond = 100,
      dc_PerIPBurstSize = 50, dc_MaxConnectionsPerIP = 100, dc_MaxTotalConnections = 10000,
      dc_MaxRequestSize = 1024 * 1024, dc_SlowClientTimeout = 10 * second,
      dc_BanThreshold = 10, dc_BanDuration = 15 * 60 * second, dc_ViolationWindow = 60 * second,
      dc_MaxConcurrentRequests = 1000, dc_MaxPendingRequests = 5000,
      dc_WhitelistedIPs = [], dc_BlacklistedIPs = []\<rparr>"

record ipState =
  ips_limiter :: TokenBucketLimiter
  ips_violations :: "gtime list"
  ips_lastSeen :: gtime

record DoSStats =
  ds_TotalRequests :: int
  ds_RateLimitedRequests :: int
  ds_BannedRequests :: int
  ds_OversizedRequests :: int
  ds_SlowClientRequests :: int
  ds_ConnectionsRejected :: int
  ds_CurrentConnections :: int
  ds_CurrentBannedIPs :: int
  ds_ActiveIPs :: int

record DoSProtector =
  dp_config :: DoSProtectionConfig
  dp_globalLimiter :: TokenBucketLimiter
  dp_ipStates :: "(string \<times> ipState) list"
  dp_connectionsPerIP :: "string \<rightharpoonup> int"
  dp_totalConnections :: int
  dp_concurrentRequests :: int
  dp_pendingRequests :: int
  dp_bans :: "(string \<times> gtime) list"
  dp_whitelist :: "string set"
  dp_blacklist :: "string set"
  dp_stats :: DoSStats
  dp_stopped :: bool

text \<open>The value of a 32-bit signed computation or conversion whose exact result is \<open>x\<close>.\<close>

definition wrap32 :: "int \<Rightarrow> int" where
  "wrap32 x = (x + 2 ^ 31) mod 2 ^ 32 - 2 ^ 31"

lemma wrap32_id [simp]: "- (2 ^ 31) \<le> x \<Longrightarrow> x < 2 ^ 31 \<Longrightarrow> wrap32 x = x"
  by (simp add: wrap32_def)

abbreviation dos_upd :: "(DoSStats \<Rightarrow> DoSStats) \<Rightarrow> DoSProtector \<Rightarrow> DoSProtector" where
  "dos_upd f p \<equiv> p\<lparr>dp_stats := f (dp_stats p)\<rparr>"

definition NewDoSProtector :: "gtime \<Rightarrow> DoSProtectionConfig option \<Rightarrow> DoSProtector" where
  "NewDoSProtector now cfg =
     (let config = (case cfg of None \<Rightarrow> DefaultDoSProtectionConfig | Some c \<Rightarrow> c) in
      \<lparr>dp_config = config,
       dp_globalLimiter = NewTokenBucketLimiter now (fl (of_int (dc_GlobalRequestsPerSecond config))) (dc_GlobalBurstSize config),
       dp_ipStates = [], dp_connectionsPerIP = Map.empty, dp_totalConnections = 0,
       dp_concurrentRequests = 0, dp_pendingRequests = 0, dp_bans = [],
       dp_whitelist = set (dc_WhitelistedIPs config), dp_blacklist = set (dc_BlacklistedIPs config),
       dp_stats = \<lparr>ds_TotalRequests = 0, ds_RateLimitedRequests = 0, ds_BannedRequests = 0, ds_OversizedRequests = 0,
         ds_SlowClientRequests = 0, ds_ConnectionsRejected = 0, ds_CurrentConnections = 0, ds_CurrentBannedIPs = 0, ds_ActiveIPs = 0\<rparr>,
       dp_stopped = False\<rparr>)"

text \<open>Both branches after the failed split return the text itself, whether or not it is an address.\<close>

definition dosExtractIP :: "string \<Rightarrow> string" where
  "dosExtractIP addr = (if addr = [] then [] else case SplitHostPort addr of Some (host, _) \<Rightarrow> host | None \<Rightarrow> addr)"

section \<open>Bans and violations\<close>

definition getOrCreateIPState :: "gtime \<Rightarrow> string \<Rightarrow> DoSProtector \<Rightarrow> (ipState \<times> DoSProtector) option" where
  "getOrCreateIPState now ip p =
     (case map_of (dp_ipStates p) ip of Some st \<Rightarrow> Some (st, p)
      | None \<Rightarrow>
          if dc_BanThreshold (dp_config p) < 0 then None
          else let st = \<lparr>ips_limiter = NewTokenBucketLimiter now (fl (of_int (dc_PerIPRequestsPerSecond (dp_config p))))
                            (dc_PerIPBurstSize (dp_config p)),
                         ips_violations = [], ips_lastSeen = now\<rparr>
               in Some (st, dos_upd (\<lambda>s. s\<lparr>ds_ActiveIPs := ds_ActiveIPs s + 1\<rparr>)
                              (p\<lparr>dp_ipStates := AList.update ip st (dp_ipStates p)\<rparr>)))"

definition setIPState :: "string \<Rightarrow> ipState \<Rightarrow> DoSProtector \<Rightarrow> DoSProtector" where
  "setIPState ip st p = p\<lparr>dp_ipStates := AList.update ip st (dp_ipStates p)\<rparr>"

definition ban :: "gtime \<Rightarrow> string \<Rightarrow> DoSProtector \<Rightarrow> DoSProtector" where
  "ban now ip p =
     (let p1 = (if map_of (dp_bans p) ip = None
                then dos_upd (\<lambda>s. s\<lparr>ds_CurrentBannedIPs := ds_CurrentBannedIPs s + 1\<rparr>) p else p)
      in p1\<lparr>dp_bans := AList.update ip (now + dc_BanDuration (dp_config p)) (dp_bans p1)\<rparr>)"

definition isBanned :: "gtime \<Rightarrow> string \<Rightarrow> DoSProtector \<Rightarrow> bool \<times> DoSProtector" where
  "isBanned now ip p =
     (case map_of (dp_bans p) ip of None \<Rightarrow> (False, p)
      | Some expiry \<Rightarrow>
          if now > expiry
          then (False, dos_upd (\<lambda>s. s\<lparr>ds_CurrentBannedIPs := ds_CurrentBannedIPs s - 1\<rparr>)
                         (p\<lparr>dp_bans := AList.delete ip (dp_bans p)\<rparr>))
          else (True, p))"


definition recordViolation :: "gtime \<Rightarrow> string \<Rightarrow> DoSProtector \<Rightarrow> DoSProtector option" where
  "recordViolation now ip p =
     (case getOrCreateIPState now ip p of None \<Rightarrow> None
      | Some (st, p1) \<Rightarrow>
          let cutoff = now - dc_ViolationWindow (dp_config p);
              violations = filter (\<lambda>t. t > cutoff) (ips_violations st) @ [now] in
          if int (length violations) \<ge> dc_BanThreshold (dp_config p)
          then Some (setIPState ip (st\<lparr>ips_violations := []\<rparr>) (ban now ip p1))
          else Some (setIPState ip (st\<lparr>ips_violations := violations\<rparr>) p1))"

definition checkIPRateLimit :: "gtime \<Rightarrow> string \<Rightarrow> DoSProtector \<Rightarrow> (dos_error option \<times> DoSProtector) option" where
  "checkIPRateLimit now ip p =
     (case getOrCreateIPState now ip p of None \<Rightarrow> None
      | Some (st, p1) \<Rightarrow>
          let (ok, l) = TokenBucketLimiter_Allow now (ips_limiter st);
              p2 = setIPState ip (st\<lparr>ips_lastSeen := now, ips_limiter := l\<rparr>) p1
          in Some (if ok then None else Some ErrRateLimitExceeded, p2))"

text \<open>A check that fails also records a violation.\<close>

definition reject :: "gtime \<Rightarrow> string \<Rightarrow> dos_error \<Rightarrow> DoSProtector \<Rightarrow> (dos_error option \<times> DoSProtector) option" where
  "reject now ip err p = map_option (Pair (Some err)) (recordViolation now ip p)"

definition checkRates :: "gtime \<Rightarrow> string \<Rightarrow> bool \<Rightarrow> DoSProtector \<Rightarrow> (dos_error option \<times> DoSProtector) option" where
  "checkRates now ip whitelisted p =
     (let limited = dos_upd (\<lambda>s. s\<lparr>ds_RateLimitedRequests := ds_RateLimitedRequests s + 1\<rparr>) in
      if whitelisted then Some (None, p)
      else let (ok, l) = TokenBucketLimiter_Allow now (dp_globalLimiter p); p1 = p\<lparr>dp_globalLimiter := l\<rparr> in
        if \<not> ok then Some (Some ErrRateLimitExceeded, limited p1)
        else case checkIPRateLimit now ip p1 of None \<Rightarrow> None
             | Some (None, p2) \<Rightarrow> Some (None, p2)
             | Some (Some err, p2) \<Rightarrow> reject now ip err (limited p2))"

definition CheckRequest :: "gtime \<Rightarrow> string \<Rightarrow> int \<Rightarrow> DoSProtector \<Rightarrow> (dos_error option \<times> DoSProtector) option" where
  "CheckRequest now clientIP requestSize p =
     (let p0 = dos_upd (\<lambda>s. s\<lparr>ds_TotalRequests := ds_TotalRequests s + 1\<rparr>) p;
          ip = dosExtractIP clientIP;
          banned = dos_upd (\<lambda>s. s\<lparr>ds_BannedRequests := ds_BannedRequests s + 1\<rparr>) in
      if ip \<in> dp_blacklist p0 then Some (Some ErrClientBanned, banned p0)
      else
        let whitelisted = (ip \<in> dp_whitelist p0);
            (isBan, p1) = (if whitelisted then (False, p0) else isBanned now ip p0) in
        if isBan then Some (Some ErrClientBanned, banned p1)
        else if requestSize > dc_MaxRequestSize (dp_config p1)
        then reject now ip (ErrRequestTooLarge requestSize (dc_MaxRequestSize (dp_config p1)))
               (dos_upd (\<lambda>s. s\<lparr>ds_OversizedRequests := ds_OversizedRequests s + 1\<rparr>) p1)
        else if dp_concurrentRequests p1 \<ge> wrap32 (dc_MaxConcurrentRequests (dp_config p1))
        then Some (Some ErrResourceExhausted, p1)
        else checkRates now ip whitelisted p1)"

section \<open>Connections and requests\<close>

definition connections :: "DoSProtector \<Rightarrow> string \<Rightarrow> int" where
  "connections p ip = (case dp_connectionsPerIP p ip of None \<Rightarrow> 0 | Some n \<Rightarrow> n)"

definition TrackConnection :: "gtime \<Rightarrow> string \<Rightarrow> DoSProtector \<Rightarrow> (dos_error option \<times> DoSProtector) option" where
  "TrackConnection now addr p =
     (let ip = dosExtractIP addr; rejected = dos_upd (\<lambda>s. s\<lparr>ds_ConnectionsRejected := ds_ConnectionsRejected s + 1\<rparr>) in
      if ip \<in> dp_blacklist p then Some (Some ErrClientBanned, p)
      else let (isBan, p1) = isBanned now ip p in
        if isBan then Some (Some ErrClientBanned, p1)
        else if dp_totalConnections p1 \<ge> wrap32 (dc_MaxTotalConnections (dp_config p1))
        then Some (Some ErrConnectionLimit, rejected p1)
        else let current = connections p1 ip in
          if current \<ge> wrap32 (dc_MaxConnectionsPerIP (dp_config p1))
          then reject now ip ErrConnectionLimit (rejected p1)
          else Some (None, dos_upd (\<lambda>s. s\<lparr>ds_CurrentConnections := ds_CurrentConnections s + 1\<rparr>)
                 (p1\<lparr>dp_connectionsPerIP := (dp_connectionsPerIP p1)(ip \<mapsto> wrap32 (current + 1)),
                     dp_totalConnections := wrap32 (dp_totalConnections p1 + 1)\<rparr>)))"

definition ReleaseConnection :: "string \<Rightarrow> DoSProtector \<Rightarrow> DoSProtector" where
  "ReleaseConnection addr p =
     (let ip = dosExtractIP addr;
          p1 = (case dp_connectionsPerIP p ip of None \<Rightarrow> p
                | Some current \<Rightarrow>
                    if current > 0
                    then p\<lparr>dp_connectionsPerIP :=
                             (dp_connectionsPerIP p)(ip := if current - 1 = 0 then None else Some (current - 1))\<rparr>
                    else p)
      in dos_upd (\<lambda>s. s\<lparr>ds_CurrentConnections := ds_CurrentConnections s - 1\<rparr>)
           (p1\<lparr>dp_totalConnections := wrap32 (dp_totalConnections p1 - 1)\<rparr>))"


definition EndRequest :: "DoSProtector \<Rightarrow> DoSProtector" where
  "EndRequest p =
     p\<lparr>dp_concurrentRequests := wrap32 (dp_concurrentRequests p - 1), dp_pendingRequests := wrap32 (dp_pendingRequests p - 1)\<rparr>"

definition CheckSlowClient ::
  "gtime \<Rightarrow> string \<Rightarrow> int \<Rightarrow> duration \<Rightarrow> DoSProtector \<Rightarrow> (dos_error option \<times> DoSProtector) option" where
  "CheckSlowClient now clientIP bytesTransferred dur p =
     (if dur = 0 then Some (None, p)
      else let rate = fl (fl (of_int bytesTransferred) / Seconds dur) in
        if rate < 1024 \<and> dur > dc_SlowClientTimeout (dp_config p)
        then reject now (dosExtractIP clientIP) ErrSlowClientDetected
               (dos_upd (\<lambda>s. s\<lparr>ds_SlowClientRequests := ds_SlowClientRequests s + 1\<rparr>) p)
        else Some (None, p))"





definition GetBannedIPs :: "gtime \<Rightarrow> DoSProtector \<Rightarrow> string list" where
  "GetBannedIPs now p = map fst (filter (\<lambda>(ip, expiry). now < expiry) (dp_bans p))"


definition dos_Close :: "DoSProtector \<Rightarrow> DoSProtector option" where
  "dos_Close p = (if dp_stopped p then None else Some (p\<lparr>dp_stopped := True\<rparr>))"

section \<open>Readers, throttlers and connection trackers\<close>

text \<open>
  A size-limited reader. What the connection delivers for a buffer of a given length, the number of bytes and the
  error, is the parameter \<open>rd\<close>.
\<close>

record SizeLimitedReader =
  sr_N :: int
  sr_Total :: int
  sr_Timeout :: duration

datatype 'e read_error = ReadTooLarge | ReadFailed 'e

definition SizeLimitedReader_Read ::
  "(int \<Rightarrow> int \<times> 'e option) \<Rightarrow> int \<Rightarrow> SizeLimitedReader \<Rightarrow> (int \<times> 'e read_error option) \<times> SizeLimitedReader" where
  "SizeLimitedReader_Read rd plen l =
     (if sr_N l \<le> 0 then ((0, Some ReadTooLarge), l)
      else let len = (if plen > sr_N l then sr_N l else plen); (n, err) = rd len in
        ((n, map_option ReadFailed err), l\<lparr>sr_N := sr_N l - n, sr_Total := sr_Total l + n\<rparr>))"

record RequestThrottler =
  rt_clientIP :: string
  rt_startTime :: gtime
  rt_bytesRead :: int

definition NewRequestThrottler :: "gtime \<Rightarrow> string \<Rightarrow> RequestThrottler" where
  "NewRequestThrottler now clientIP = \<lparr>rt_clientIP = clientIP, rt_startTime = now, rt_bytesRead = 0\<rparr>"

definition CheckProgress ::
  "gtime \<Rightarrow> int \<Rightarrow> RequestThrottler \<Rightarrow> DoSProtector \<Rightarrow> (dos_error option \<times> RequestThrottler \<times> DoSProtector) option" where
  "CheckProgress now bytesRead t p =
     (let t' = t\<lparr>rt_bytesRead := bytesRead\<rparr>; dur = now - rt_startTime t' in
      map_option (\<lambda>(err, p'). (err, t', p')) (CheckSlowClient now (rt_clientIP t') bytesRead dur p))"

definition RequestThrottler_End :: "RequestThrottler \<Rightarrow> DoSProtector \<Rightarrow> DoSProtector" where
  "RequestThrottler_End t p = EndRequest p"




section \<open>Accounting of connections\<close>






















section \<open>Violations of a whitelisted client\<close>

fun requests :: "gtime list \<Rightarrow> string \<Rightarrow> int \<Rightarrow> DoSProtector \<Rightarrow> DoSProtector option" where
  "requests [] addr sz p = Some p"
| "requests (t # ts) addr sz p =
     (case CheckRequest t addr sz p of None \<Rightarrow> None | Some (_, p') \<Rightarrow> requests ts addr sz p')"

text \<open>The client is on the white list only, and has committed the given violations.\<close>

definition violated :: "DoSProtectionConfig \<Rightarrow> string \<Rightarrow> gtime list \<Rightarrow> DoSProtector \<Rightarrow> bool" where
  "violated c ip vs p \<longleftrightarrow> dp_config p = c \<and> ip \<in> dp_whitelist p \<and> ip \<notin> dp_blacklist p \<and> 0 < dc_BanThreshold c \<and>
     (case map_of (dp_ipStates p) ip of None \<Rightarrow> vs = [] | Some st \<Rightarrow> ips_violations st = vs)"

definition ban_part :: "DoSProtector \<Rightarrow> DoSProtectionConfig \<times> string set \<times> string set" where
  "ban_part p = (dp_config p, dp_whitelist p, dp_blacklist p)"

lemma oversized_violation:
  assumes v: "violated c ip vs p" and ip: "dosExtractIP addr = ip" and big: "dc_MaxRequestSize c < sz"
    and win: "\<forall>t \<in> set vs. t > now - dc_ViolationWindow c"
  shows "\<exists>e p'. CheckRequest now addr sz p = Some (e, p') \<and> ban_part p' = ban_part p \<and>
    (if int (length vs) + 1 \<ge> dc_BanThreshold c then map_of (dp_bans p') ip = Some (now + dc_BanDuration c)
     else violated c ip (vs @ [now]) p')"
proof -
  have *: "dp_config p = c" "ip \<in> dp_whitelist p" "ip \<notin> dp_blacklist p" "0 < dc_BanThreshold c" using v by (simp_all add: violated_def)
  let ?p = "dos_upd (\<lambda>s. s\<lparr>ds_TotalRequests := ds_TotalRequests s + 1, ds_OversizedRequests := ds_OversizedRequests s + 1\<rparr>) p"
  have r: "CheckRequest now addr sz p = reject now ip (ErrRequestTooLarge sz (dc_MaxRequestSize c)) ?p"
    using * ip big by (simp add: CheckRequest_def Let_def)
  obtain st p1 where g: "getOrCreateIPState now ip ?p = Some (st, p1)" "ips_violations st = vs" "ban_part p1 = ban_part p"
    using v * by (auto simp: getOrCreateIPState_def violated_def ban_part_def Let_def split: option.splits)
  have f: "filter (\<lambda>t. t > now - dc_ViolationWindow c) vs = vs" using win by (simp add: filter_id_conv)
  have "dp_config p1 = c" using g(3) * by (simp add: ban_part_def)
  then show ?thesis
    using g * f unfolding r
    by (auto simp: reject_def recordViolation_def Let_def violated_def ban_part_def ban_def setIPState_def update_conv')
qed

lemma requests_violated:
  "violated c (dosExtractIP addr) vs p \<Longrightarrow> dc_MaxRequestSize c < sz \<Longrightarrow> sorted (vs @ ts) \<Longrightarrow>
   last (vs @ ts) - hd (vs @ ts) < dc_ViolationWindow c \<Longrightarrow> int (length (vs @ ts)) = dc_BanThreshold c \<Longrightarrow> ts \<noteq> [] \<Longrightarrow>
   \<exists>p'. requests ts addr sz p = Some p' \<and> ban_part p' = ban_part p \<and>
     map_of (dp_bans p') (dosExtractIP addr) = Some (last ts + dc_BanDuration c)"
proof (induction ts arbitrary: vs p)
  case (Cons t ts)
  have "\<forall>s \<in> set vs. s > t - dc_ViolationWindow c"
  proof
    fix s
    assume s: "s \<in> set vs"
    then have "hd (vs @ t # ts) \<le> s" using Cons.prems(3) by (cases vs) (auto simp: sorted_append)
    moreover have "t \<le> last (vs @ t # ts)" using Cons.prems(3) by (auto simp: sorted_append)
    ultimately show "s > t - dc_ViolationWindow c" using Cons.prems(4) by linarith
  qed
  from oversized_violation [OF Cons.prems(1) refl Cons.prems(2) this]
  obtain e p' where p': "CheckRequest t addr sz p = Some (e, p')" "ban_part p' = ban_part p"
    "if int (length vs) + 1 \<ge> dc_BanThreshold c then map_of (dp_bans p') (dosExtractIP addr) = Some (t + dc_BanDuration c)
     else violated c (dosExtractIP addr) (vs @ [t]) p'" by (elim exE conjE)
  show ?case
  proof (cases "ts = []")
    case True
    then show ?thesis using p' Cons.prems(5) by simp
  next
    case False
    then have "violated c (dosExtractIP addr) (vs @ [t]) p'" using p'(3) Cons.prems(5) by (cases ts) simp_all
    from Cons.IH [OF this Cons.prems(2)] Cons.prems(3-5) False show ?thesis by (simp add: p')
  qed
qed simp

text \<open>A size-limited reader never delivers more than its limit, whatever the connection does within its contract.\<close>

lemma SizeLimitedReader_bounded:
  assumes "\<And>k. 0 \<le> k \<Longrightarrow> 0 \<le> fst (rd k) \<and> fst (rd k) \<le> k" "0 \<le> plen" "0 \<le> sr_N l"
  shows "0 \<le> sr_N (snd (SizeLimitedReader_Read rd plen l))"
    "sr_N (snd (SizeLimitedReader_Read rd plen l)) + sr_Total (snd (SizeLimitedReader_Read rd plen l)) = sr_N l + sr_Total l"
  using assms(1) [of "if plen > sr_N l then sr_N l else plen"] assms(2,3)
  by (auto simp: SizeLimitedReader_Read_def Let_def case_prod_beta split: if_splits)

text \<open>A release without a tracked connection makes the total negative.\<close>

lemma unpaired_release: "dp_totalConnections (ReleaseConnection ip (NewDoSProtector now None)) = - 1"
  by (simp add: ReleaseConnection_def NewDoSProtector_def Let_def)

section \<open>Properties\<close>



text \<open>The white list does not protect a client from being banned. A whitelisted client that sends \<^verbatim>\<open>BanThreshold\<close> oversized
  requests within the violation window is still whitelisted, but until the ban expires its connections are refused as
  those of a banned client, because \<^verbatim>\<open>TrackConnection\<close> does not look at the white list.
\<close>

lemma whitelisted_client_banned:
  assumes "dosExtractIP addr \<in> set (dc_WhitelistedIPs c)" "dosExtractIP addr \<notin> set (dc_BlacklistedIPs c)"
    and "dc_BanThreshold c = int (length ts)" "ts \<noteq> []" "sorted ts" "last ts - hd ts < dc_ViolationWindow c"
    and "dc_MaxRequestSize c < sz" "now \<le> last ts + dc_BanDuration c"
  shows "\<exists>p p'. requests ts addr sz (NewDoSProtector start (Some c)) = Some p \<and> dosExtractIP addr \<in> dp_whitelist p \<and>
    TrackConnection now addr p = Some (Some ErrClientBanned, p')"
proof -
  let ?p = "NewDoSProtector start (Some c)"
  have "violated c (dosExtractIP addr) [] ?p"
    using assms(1-4) by (cases ts) (simp_all add: violated_def NewDoSProtector_def Let_def)
  from requests_violated [OF this assms(7), of ts] assms(3-6)
  obtain p where p: "requests ts addr sz ?p = Some p" "ban_part p = ban_part ?p" "map_of (dp_bans p) (dosExtractIP addr) = Some (last ts + dc_BanDuration c)"
    by auto
  then have "dosExtractIP addr \<in> dp_whitelist p" "dosExtractIP addr \<notin> dp_blacklist p"
    using assms(1,2) by (simp_all add: ban_part_def NewDoSProtector_def Let_def)
  then show ?thesis using p(1,3) assms(8) by (simp add: TrackConnection_def isBanned_def Let_def)
qed

end
