(* ===== verification/Loop_Protection.thy ===== *)
theory Loop_Protection
  imports Go_Net
begin

text \<open>
  Media loop detection, symmetric latching and source checking, \<^verbatim>\<open>internal/loop_protection.go\<close>.

  A packet is its bytes; a source is the text of its address, or \<open>None\<close> for a \<^verbatim>\<open>nil\<close> address. The digest is the
  parameter \<open>sha256\<close>, a function from bytes to bytes of which nothing is assumed. The signature map is an association
  list in the order in which a range visits it. A pointer to a UDP address is an option; following a \<^verbatim>\<open>nil\<close> pointer is the
  panic \<open>None\<close>. An exported operation is one step and reads the clock once.
\<close>

section \<open>Loop detection\<close>

record loopEntry =
  lp_timestamp :: gtime
  lp_count :: int
  lp_srcAddr :: string
  lp_ssrc :: u32

record LoopProtector =
  lp_signatures :: "(u64 \<times> loopEntry) list"
  lp_maxEntries :: int
  lp_ttl :: duration
  lp_stopped :: bool

definition NewLoopProtector :: LoopProtector where
  "NewLoopProtector = \<lparr>lp_signatures = [], lp_maxEntries = 100000, lp_ttl = 5 * second, lp_stopped = False\<rparr>"

text \<open>\<^verbatim>\<open>binary.BigEndian.Uint64\<close> of the first eight bytes.\<close>

definition leading64 :: "u8 list \<Rightarrow> u64" where
  "leading64 bs = foldl (\<lambda>acc b. push_bit 8 acc OR ucast b) 0 (take 8 bs)"

definition generateSignature :: "(u8 list \<Rightarrow> u8 list) \<Rightarrow> u32 \<Rightarrow> u16 \<Rightarrow> u32 \<Rightarrow> u8 list \<Rightarrow> u64" where
  "generateSignature sha256 ssrc seq timestamp payload =
     (let payloadLen = (if length payload > 44 then 44 else length payload) in
      leading64 (sha256 (be32 ssrc @ be16 seq @ be32 timestamp @ drop 12 (take payloadLen payload))))"

definition packet_signature :: "(u8 list \<Rightarrow> u8 list) \<Rightarrow> u8 list \<Rightarrow> u64 \<times> u32" where
  "packet_signature sha256 packet =
     (let ssrc = the (get32 (drop 8 packet)); seq = the (get16 (drop 2 packet)); timestamp = the (get32 (drop 4 packet))
      in (generateSignature sha256 ssrc seq timestamp packet, ssrc))"

definition src_text :: "string option \<Rightarrow> string" where
  "src_text srcAddr = (case srcAddr of None \<Rightarrow> [] | Some s \<Rightarrow> s)"

definition IsLoop ::
  "(u8 list \<Rightarrow> u8 list) \<Rightarrow> gtime \<Rightarrow> u8 list \<Rightarrow> string option \<Rightarrow> LoopProtector \<Rightarrow> bool \<times> LoopProtector" where
  "IsLoop sha256 now packet srcAddr lp =
     (if length packet < 12 then (False, lp)
      else let (sig, ssrc) = packet_signature sha256 packet;
               srcStr = src_text srcAddr;
               record_packet = lp\<lparr>lp_signatures :=
                 AList.update sig \<lparr>lp_timestamp = now, lp_count = 1, lp_srcAddr = srcStr, lp_ssrc = ssrc\<rparr> (lp_signatures lp)\<rparr>
        in case map_of (lp_signatures lp) sig of
             None \<Rightarrow> (False, record_packet)
           | Some entry \<Rightarrow>
               if now - lp_timestamp entry < lp_ttl lp \<and> lp_srcAddr entry \<noteq> srcStr
               then let entry' = entry\<lparr>lp_count := lp_count entry + 1\<rparr> in
                 (lp_count entry' > 2, lp\<lparr>lp_signatures := AList.update sig entry' (lp_signatures lp)\<rparr>)
               else (False, record_packet))"

definition oldestEntry :: "gtime \<Rightarrow> (u64 \<times> loopEntry) list \<Rightarrow> u64" where
  "oldestEntry now entries =
     snd (foldl (\<lambda>(oldest, oldestSig) (sig, entry).
            if lp_timestamp entry < oldest then (lp_timestamp entry, sig) else (oldest, oldestSig)) (now, 0) entries)"

definition lp_cleanup :: "gtime \<Rightarrow> LoopProtector \<Rightarrow> LoopProtector" where
  "lp_cleanup now lp =
     (if lp_stopped lp then lp
      else let kept = filter (\<lambda>(sig, entry). \<not> now - lp_timestamp entry > lp_ttl lp) (lp_signatures lp) in
        if int (length kept) > lp_maxEntries lp
        then lp\<lparr>lp_signatures := AList.delete (oldestEntry now kept) kept\<rparr>
        else lp\<lparr>lp_signatures := kept\<rparr>)"

text \<open>Closing the channel of the clean-up loop twice panics.\<close>

definition lp_Stop :: "LoopProtector \<Rightarrow> LoopProtector option" where
  "lp_Stop lp = (if lp_stopped lp then None else Some (lp\<lparr>lp_stopped := True\<rparr>))"

definition lp_Reset :: "LoopProtector \<Rightarrow> LoopProtector" where
  "lp_Reset lp = lp\<lparr>lp_signatures := []\<rparr>"

section \<open>Symmetric latching\<close>

record udp_endpoint =
  ua_IP :: net_IP
  ua_Port :: int

record latchedEndpoint =
  ep_addr :: "udp_endpoint option"
  ep_ssrc :: u32
  ep_lastSeen :: gtime
  ep_packetCount :: u64
  ep_latched :: bool

type_synonym SymmetricLatching = "string \<rightharpoonup> latchedEndpoint"

definition NewSymmetricLatching :: SymmetricLatching where
  "NewSymmetricLatching = Map.empty"

definition LatchEndpoint ::
  "gtime \<Rightarrow> string \<Rightarrow> udp_endpoint option \<Rightarrow> u32 \<Rightarrow> SymmetricLatching \<Rightarrow> (bool \<times> SymmetricLatching) option" where
  "LatchEndpoint now sessionKey addr ssrc sl =
     (case sl sessionKey of
        None \<Rightarrow> Some (True, sl(sessionKey \<mapsto>
          \<lparr>ep_addr = addr, ep_ssrc = ssrc, ep_lastSeen = now, ep_packetCount = 1, ep_latched = True\<rparr>))
      | Some endpoint \<Rightarrow>
          let endpoint1 = endpoint\<lparr>ep_lastSeen := now, ep_packetCount := ep_packetCount endpoint + 1\<rparr> in
          (case (ep_addr endpoint1, addr) of
             (Some old, Some new) \<Rightarrow>
               if \<not> IP_Equal (ua_IP old) (ua_IP new) \<or> ua_Port old \<noteq> ua_Port new
               then Some (True, sl(sessionKey \<mapsto> endpoint1\<lparr>ep_addr := addr, ep_ssrc := ssrc\<rparr>))
               else Some (False, sl(sessionKey \<mapsto> endpoint1))
           | _ \<Rightarrow> None))"

definition GetLatchedAddress :: "string \<Rightarrow> SymmetricLatching \<Rightarrow> udp_endpoint option" where
  "GetLatchedAddress sessionKey sl =
     (case sl sessionKey of None \<Rightarrow> None | Some endpoint \<Rightarrow> if ep_latched endpoint then ep_addr endpoint else None)"

definition IsLatched :: "string \<Rightarrow> SymmetricLatching \<Rightarrow> bool" where
  "IsLatched sessionKey sl = (case sl sessionKey of None \<Rightarrow> False | Some endpoint \<Rightarrow> ep_latched endpoint)"

definition UnlatchSession :: "string \<Rightarrow> SymmetricLatching \<Rightarrow> SymmetricLatching" where
  "UnlatchSession sessionKey sl = sl(sessionKey := None)"

definition Latching_Reset :: "string \<Rightarrow> SymmetricLatching \<Rightarrow> SymmetricLatching" where
  "Latching_Reset sessionKey sl =
     (case sl sessionKey of None \<Rightarrow> sl | Some endpoint \<Rightarrow> sl(sessionKey \<mapsto> endpoint\<lparr>ep_latched := False\<rparr>))"

section \<open>Strict source checking\<close>

type_synonym StrictSourceChecker = "string \<rightharpoonup> udp_endpoint option"

definition NewStrictSourceChecker :: StrictSourceChecker where
  "NewStrictSourceChecker = Map.empty"

definition SetExpectedSource :: "string \<Rightarrow> udp_endpoint option \<Rightarrow> StrictSourceChecker \<Rightarrow> StrictSourceChecker" where
  "SetExpectedSource sessionKey addr ssc = ssc(sessionKey \<mapsto> addr)"

text \<open>The port of the source is only read when the addresses are equal, but both pointers are followed before that.\<close>

definition IsValidSource :: "string \<Rightarrow> udp_endpoint option \<Rightarrow> StrictSourceChecker \<Rightarrow> bool option" where
  "IsValidSource sessionKey addr ssc =
     (case ssc sessionKey of None \<Rightarrow> Some True
      | Some expected \<Rightarrow>
          (case (expected, addr) of
             (Some e, Some a) \<Rightarrow> Some (IP_Equal (ua_IP e) (ua_IP a) \<and> ua_Port e = ua_Port a)
           | _ \<Rightarrow> None))"

definition RemoveSession :: "string \<Rightarrow> StrictSourceChecker \<Rightarrow> StrictSourceChecker" where
  "RemoveSession sessionKey ssc = ssc(sessionKey := None)"

section \<open>Copies of a packet\<close>

text \<open>The verdicts on copies of one packet that arrive at the given times from the given sources.\<close>

fun verdicts :: "(u8 list \<Rightarrow> u8 list) \<Rightarrow> u8 list \<Rightarrow> (gtime \<times> string option) list \<Rightarrow> LoopProtector \<Rightarrow> bool list" where
  "verdicts sha256 packet [] lp = []"
| "verdicts sha256 packet ((now, src) # copies) lp =
     fst (IsLoop sha256 now packet src lp) # verdicts sha256 packet copies (snd (IsLoop sha256 now packet src lp))"

lemma IsLoop_foreign:
  assumes "12 \<le> length packet" "map_of (lp_signatures lp) (fst (packet_signature sha256 packet)) = Some e"
    and "now - lp_timestamp e < lp_ttl lp" "lp_srcAddr e \<noteq> src_text src"
  shows "fst (IsLoop sha256 now packet src lp) \<longleftrightarrow> lp_count e \<ge> 2"
    "map_of (lp_signatures (snd (IsLoop sha256 now packet src lp))) (fst (packet_signature sha256 packet)) = Some (e\<lparr>lp_count := lp_count e + 1\<rparr>)"
    "lp_ttl (snd (IsLoop sha256 now packet src lp)) = lp_ttl lp"
  using assms by (auto simp: IsLoop_def case_prod_beta Let_def update_conv')

lemma verdicts_foreign:
  assumes "12 \<le> length packet"
  shows "map_of (lp_signatures lp) (fst (packet_signature sha256 packet)) = Some e \<Longrightarrow>
    (\<forall>(now, src) \<in> set copies. now - lp_timestamp e < lp_ttl lp \<and> src_text src \<noteq> lp_srcAddr e) \<Longrightarrow>
    verdicts sha256 packet copies lp = map (\<lambda>i. lp_count e + int i \<ge> 2) [0..<length copies]"
proof (induction copies arbitrary: lp e)
  case (Cons x copies)
  obtain now src where x: "x = (now, src)" by fastforce
  have h: "now - lp_timestamp e < lp_ttl lp" "lp_srcAddr e \<noteq> src_text src" using Cons.prems(2) by (auto simp: x)
  note s = IsLoop_foreign [OF assms Cons.prems(1) h]
  have "verdicts sha256 packet copies (snd (IsLoop sha256 now packet src lp)) = map (\<lambda>i. lp_count e + 1 + int i \<ge> 2) [0..<length copies]"
    using Cons.IH [OF s(2)] Cons.prems(2) s(3) by simp
  moreover have "map (\<lambda>i. lp_count e + int i \<ge> 2) [0..<Suc (length copies)] =
      (lp_count e \<ge> 2) # map (\<lambda>i. lp_count e + 1 + int i \<ge> 2) [0..<length copies]"
    by (simp add: upt_conv_Cons map_Suc_upt [symmetric] comp_def add_ac del: upt_Suc)
  ultimately show ?case using s(1) by (simp add: x)
qed simp

section \<open>The size of the signature table\<close>

text \<open>A clean-up pass drops the expired signatures and at most one other, so it does not enforce the limit.\<close>

lemma length_delete_le: "distinct (map fst xs) \<Longrightarrow> length xs \<le> Suc (length (AList.delete k xs))"
  by (induction xs) (auto simp: delete_idem)

lemma cleanup_drops_one:
  assumes "distinct (map fst (lp_signatures lp))"
    and "int (length (filter (\<lambda>(sig, e). now - lp_timestamp e \<le> lp_ttl lp) (lp_signatures lp))) > lp_maxEntries lp + 1"
  shows "int (length (lp_signatures (lp_cleanup now lp))) > lp_maxEntries lp"
proof -
  let ?kept = "filter (\<lambda>(sig, entry). \<not> now - lp_timestamp entry > lp_ttl lp) (lp_signatures lp)"
  have n: "lp_maxEntries lp + 1 < int (length ?kept)" using assms(2) by (simp add: not_less)
  have "distinct (map fst ?kept)" using assms(1) by (simp add: distinct_map_filter)
  then have "length ?kept \<le> Suc (length (AList.delete (oldestEntry now ?kept) ?kept))" by (rule length_delete_le)
  then have "lp_maxEntries lp < int (length (AList.delete (oldestEntry now ?kept) ?kept))" using n by linarith
  moreover have "lp_maxEntries lp < int (length (lp_signatures lp))"
    using n length_filter_le [of "\<lambda>(sig, entry). \<not> now - lp_timestamp entry > lp_ttl lp" "lp_signatures lp"] by linarith
  ultimately show ?thesis using n by (simp add: lp_cleanup_def Let_def)
qed

section \<open>Latching after a reset\<close>

fun latch_packets :: "(gtime \<times> string \<times> udp_endpoint \<times> u32) list \<Rightarrow> SymmetricLatching \<Rightarrow> SymmetricLatching option" where
  "latch_packets [] sl = Some sl"
| "latch_packets ((now, key, addr, ssrc) # pkts) sl =
     (case LatchEndpoint now key (Some addr) ssrc sl of None \<Rightarrow> None | Some (_, sl') \<Rightarrow> latch_packets pkts sl')"

definition addrs_set :: "SymmetricLatching \<Rightarrow> bool" where
  "addrs_set sl \<longleftrightarrow> (\<forall>key e. sl key = Some e \<longrightarrow> ep_addr e \<noteq> None)"

lemma LatchEndpoint_keeps_unlatched:
  assumes "addrs_set sl" "sl key = Some e" "\<not> ep_latched e"
  shows "\<exists>b sl' e'. LatchEndpoint now k (Some addr) ssrc sl = Some (b, sl') \<and> addrs_set sl' \<and> sl' key = Some e' \<and> \<not> ep_latched e'"
proof (cases "sl k")
  case None
  then show ?thesis using assms by (auto simp: LatchEndpoint_def addrs_set_def)
next
  case (Some ek)
  then obtain old where "ep_addr ek = Some old" using assms(1) by (auto simp: addrs_set_def)
  then show ?thesis using assms Some by (auto simp: LatchEndpoint_def addrs_set_def Let_def)
qed

lemma latch_packets_unlatched:
  "addrs_set sl \<Longrightarrow> sl key = Some e \<Longrightarrow> \<not> ep_latched e \<Longrightarrow>
   \<exists>sl' e'. latch_packets pkts sl = Some sl' \<and> sl' key = Some e' \<and> \<not> ep_latched e'"
proof (induction pkts arbitrary: sl e)
  case (Cons x pkts)
  obtain now k addr ssrc where x: "x = (now, k, addr, ssrc)" by (metis prod.exhaust)
  from LatchEndpoint_keeps_unlatched [OF Cons.prems, of now k addr ssrc]
  obtain b sl' e' where "LatchEndpoint now k (Some addr) ssrc sl = Some (b, sl')" "addrs_set sl'" "sl' key = Some e'" "\<not> ep_latched e'"
    by (elim exE conjE)
  with Cons.IH [of sl' e'] show ?case by (simp add: x)
qed simp

section \<open>Properties\<close>

text \<open>When a packet has been seen from one source and copies of it then arrive from other sources within the time to live, the
  first copy is tolerated and every later copy is reported as a loop.
\<close>

lemma loop_reported_from_second_copy:
  assumes "12 \<le> length packet" "map_of (lp_signatures lp) (fst (packet_signature sha256 packet)) = None"
    and "\<forall>(now, src) \<in> set copies. now - t0 < lp_ttl lp \<and> src_text src \<noteq> src_text src0"
  shows "verdicts sha256 packet ((t0, src0) # copies) lp = False # map (\<lambda>i. 1 \<le> i) [0..<length copies]"
proof -
  let ?lp = "snd (IsLoop sha256 t0 packet src0 lp)"
  have s: "\<not> fst (IsLoop sha256 t0 packet src0 lp)" "lp_ttl ?lp = lp_ttl lp"
    "\<exists>e. map_of (lp_signatures ?lp) (fst (packet_signature sha256 packet)) = Some e \<and> lp_timestamp e = t0 \<and> lp_srcAddr e = src_text src0 \<and> lp_count e = 1"
    using assms(1,2) by (auto simp: IsLoop_def case_prod_beta Let_def update_conv')
  then obtain e where e: "map_of (lp_signatures ?lp) (fst (packet_signature sha256 packet)) = Some e" "lp_timestamp e = t0"
    "lp_srcAddr e = src_text src0" "lp_count e = 1" by (elim exE conjE)
  have "verdicts sha256 packet copies ?lp = map (\<lambda>i. lp_count e + int i \<ge> 2) [0..<length copies]"
    using assms(3) e s(2) by (intro verdicts_foreign [OF assms(1) e(1)]) simp
  also have "\<dots> = map (\<lambda>i. 1 \<le> i) [0..<length copies]" by (simp add: e(4))
  finally show ?thesis using s(1) by simp
qed

text \<open>A session whose latching is reset, as for a media handover, never latches again: whatever packets arrive afterwards for
  this and for other sessions, it has no latched address until the session is removed. \<^verbatim>\<open>LatchEndpoint\<close> updates the address of an
  existing endpoint but never sets \<^verbatim>\<open>latched\<close>.
\<close>

lemma reset_session_never_relatches:
  assumes "addrs_set sl" "sl key = Some e"
  shows "\<exists>sl'. latch_packets pkts (Latching_Reset key sl) = Some sl' \<and> \<not> IsLatched key sl' \<and> GetLatchedAddress key sl' = None"
proof -
  have "addrs_set (Latching_Reset key sl)" "Latching_Reset key sl key = Some (e\<lparr>ep_latched := False\<rparr>)"
    using assms by (auto simp: Latching_Reset_def addrs_set_def)
  from latch_packets_unlatched [OF this, of pkts]
  obtain sl' e' where "latch_packets pkts (Latching_Reset key sl) = Some sl'" "sl' key = Some e'" "\<not> ep_latched e'" by auto
  then show ?thesis by (simp add: IsLatched_def GetLatchedAddress_def)
qed

definition sample_latching :: SymmetricLatching where
  "sample_latching = [''s'' \<mapsto> \<lparr>ep_addr = Some \<lparr>ua_IP = [10, 0, 0, 1], ua_Port = 4000\<rparr>, ep_ssrc = 1, ep_lastSeen = 0, ep_packetCount = 1, ep_latched = True\<rparr>]"

end
