(* ===== verification/Audio.thy ===== *)
theory Audio
  imports Go_Float "HOL-Library.Signed_Division"
begin

text \<open>
  Samples: the recording mixer and its G.711 decoders, \<^verbatim>\<open>internal/recording/mixer.go\<close>, and the G.711 part of
  \<^verbatim>\<open>internal/codec_converter.go\<close> with the tables of \<^verbatim>\<open>internal/codec_table.go\<close>.

  An \<^verbatim>\<open>int16\<close> is a 16-bit word read with \<^const>\<open>sint\<close>; a shift to the right of a signed value keeps its sign. Functions
  that fill or change a slice return it. Go's division of integers truncates, which is \<^verbatim>\<open>sdiv\<close>. Floating point is
  \<^const>\<open>fl\<close> after each operation. The pseudo-Opus coder and the level meters, which need sines, roots and
  logarithms, are not modelled.
\<close>

type_synonym i16 = "16 word"

text \<open>\<^verbatim>\<open>binary.LittleEndian\<close>: the bytes of a 16-bit word, and the word at the head of a slice.\<close>

definition le16 :: "u16 \<Rightarrow> u8 list" where
  "le16 w = [ucast w, ucast (drop_bit 8 w)]"

definition get_le16 :: "u8 list \<Rightarrow> nat \<Rightarrow> u16" where
  "get_le16 data offset = ucast (data ! offset) OR push_bit 8 (ucast (data ! (offset + 1)))"

section \<open>The mixer\<close>

record AudioMixer =
  am_sampleRate :: int
  am_bitsPerSample :: int
  am_channels :: int

definition NewAudioMixer :: "int \<Rightarrow> int \<Rightarrow> int \<Rightarrow> AudioMixer" where
  "NewAudioMixer sampleRate bitsPerSample channels =
     \<lparr>am_sampleRate = sampleRate, am_bitsPerSample = bitsPerSample, am_channels = channels\<rparr>"

definition sample16 :: "u8 list \<Rightarrow> nat \<Rightarrow> i16" where
  "sample16 data offset = (if offset + 1 < length data then get_le16 data offset else 0)"

definition mixed16 :: "i16 \<Rightarrow> i16 \<Rightarrow> i16" where
  "mixed16 callerSample calleeSample =
     (let mixed = (sint callerSample + sint calleeSample) sdiv 2;
          mixed = (if mixed > 32767 then 32767 else if mixed < - 32768 then - 32768 else mixed)
      in word_of_int mixed)"

definition mix16bitMono :: "u8 list \<Rightarrow> u8 list \<Rightarrow> nat \<Rightarrow> u8 list" where
  "mix16bitMono caller callee n =
     concat (map (\<lambda>i. le16 (mixed16 (sample16 caller (i * 2)) (sample16 callee (i * 2)))) [0..<n div 2])"

definition sample8 :: "u8 list \<Rightarrow> nat \<Rightarrow> i16" where
  "sample8 data i = (if i < length data then ucast (data ! i) - 128 else 0)"

definition mixed8 :: "i16 \<Rightarrow> i16 \<Rightarrow> u8" where
  "mixed8 callerSample calleeSample =
     (let mixed = word_of_int (sint (callerSample + calleeSample) sdiv 2) :: i16 in ucast (mixed + 128))"

definition mix8bitMono :: "u8 list \<Rightarrow> u8 list \<Rightarrow> nat \<Rightarrow> u8 list" where
  "mix8bitMono caller callee n = map (\<lambda>i. mixed8 (sample8 caller i) (sample8 callee i)) [0..<n]"

definition mix_length :: "AudioMixer \<Rightarrow> u8 list \<Rightarrow> u8 list \<Rightarrow> nat" where
  "mix_length m caller callee =
     (let len = (if length callee < length caller then length callee else length caller) in
      if am_bitsPerSample m = 16 then (len div 2) * 2 else len)"

definition MixMono :: "AudioMixer \<Rightarrow> u8 list \<Rightarrow> u8 list \<Rightarrow> u8 list" where
  "MixMono m caller callee =
     (let len = mix_length m caller callee in
      if am_bitsPerSample m = 16 then mix16bitMono caller callee len else mix8bitMono caller callee len)"

definition mix16bitStereo :: "u8 list \<Rightarrow> u8 list \<Rightarrow> nat \<Rightarrow> u8 list" where
  "mix16bitStereo caller callee n =
     concat (map (\<lambda>i. (if i * 2 + 1 < length caller then [caller ! (i * 2), caller ! (i * 2 + 1)] else [0, 0]) @
                      (if i * 2 + 1 < length callee then [callee ! (i * 2), callee ! (i * 2 + 1)] else [0, 0])) [0..<n div 4])"

definition mix8bitStereo :: "u8 list \<Rightarrow> u8 list \<Rightarrow> nat \<Rightarrow> u8 list" where
  "mix8bitStereo caller callee n =
     concat (map (\<lambda>i. [if i < length caller then caller ! i else 128, if i < length callee then callee ! i else 128]) [0..<n div 2])"

definition MixStereo :: "AudioMixer \<Rightarrow> u8 list \<Rightarrow> u8 list \<Rightarrow> u8 list" where
  "MixStereo m caller callee =
     (let n = mix_length m caller callee * 2 in
      if am_bitsPerSample m = 16 then mix16bitStereo caller callee n else mix8bitStereo caller callee n)"

section \<open>G.711 decoders of the mixer\<close>

definition ulawToLinear :: "u8 \<Rightarrow> i16" where
  "ulawToLinear sample =
     (let ulaw = NOT sample;
          sign = drop_bit 7 (ulaw AND 0x80);
          exponent = drop_bit 4 ulaw AND 0x07;
          mantissa = ulaw AND 0x0F;
          magnitude = push_bit (unat exponent) (push_bit 3 (ucast mantissa) + 0x84) - 0x84
      in if sign = 0 then magnitude else - magnitude)"

definition alawToLinear :: "u8 \<Rightarrow> i16" where
  "alawToLinear sample =
     (let sample = sample XOR 0x55;
          sign = sample AND 0x80;
          exponent = drop_bit 4 sample AND 0x07;
          mantissa = sample AND 0x0F;
          magnitude = (if exponent > 0 then push_bit (unat (exponent + 3)) (ucast mantissa + 16)
                       else push_bit 4 (ucast mantissa) + 8)
      in if sign \<noteq> 0 then magnitude else - magnitude)"

definition ConvertG711uToPCM :: "u8 list \<Rightarrow> u8 list" where
  "ConvertG711uToPCM data = concat (map (\<lambda>sample. le16 (ulawToLinear sample)) data)"

definition ConvertG711aToPCM :: "u8 list \<Rightarrow> u8 list" where
  "ConvertG711aToPCM data = concat (map (\<lambda>sample. le16 (alawToLinear sample)) data)"

section \<open>Gain, normalisation and silence\<close>

definition gain16 :: "rat \<Rightarrow> i16 \<Rightarrow> i16" where
  "gain16 gain sample =
     (let adjusted = fl (of_int (sint sample) * gain);
          adjusted = (if adjusted > 32767 then 32767 else if adjusted < - 32768 then - 32768 else adjusted)
      in word_of_int (trunc adjusted))"

definition gain8 :: "rat \<Rightarrow> u8 \<Rightarrow> u8" where
  "gain8 gain b =
     (let sample = ucast b - 128 :: i16;
          adjusted = fl (of_int (sint sample) * gain);
          adjusted = (if adjusted > 127 then 127 else if adjusted < - 128 then - 128 else adjusted)
      in ucast (word_of_int (trunc adjusted) + 128 :: i16))"

fun gain_bytes16 :: "rat \<Rightarrow> u8 list \<Rightarrow> u8 list" where
  "gain_bytes16 gain (a # b # data) = le16 (gain16 gain (get_le16 [a, b] 0)) @ gain_bytes16 gain data"
| "gain_bytes16 gain data = data"

definition ApplyGain :: "u8 list \<Rightarrow> rat \<Rightarrow> int \<Rightarrow> u8 list" where
  "ApplyGain data gain bitsPerSample =
     (if gain = 1 then data
      else if bitsPerSample = 16 then gain_bytes16 gain data
      else map (gain8 gain) data)"

fun samples16 :: "u8 list \<Rightarrow> i16 list" where
  "samples16 (a # b # data) = get_le16 [a, b] 0 # samples16 data"
| "samples16 _ = []"

definition Normalize :: "u8 list \<Rightarrow> rat \<Rightarrow> int \<Rightarrow> u8 list" where
  "Normalize data targetPeak bitsPerSample =
     (let peak = foldl (\<lambda>maxSample sample. if sample > maxSample then sample else maxSample) 0;
          levels = (if bitsPerSample = 16 then map (\<lambda>s. \<bar>sint s\<bar>) (samples16 data)
                    else map (\<lambda>b. \<bar>sint (ucast b - 128 :: i16)\<bar>) data);
          full = (if bitsPerSample = 16 then 32767 else 127 :: rat);
          maxSample = of_int (peak levels)
      in if maxSample > 0 then ApplyGain data (fl (fl (targetPeak * full) / maxSample)) bitsPerSample else data)"

text \<open>Making a slice of negative length panics.\<close>

definition GenerateSilence :: "rat \<Rightarrow> int \<Rightarrow> int \<Rightarrow> int \<Rightarrow> u8 list option" where
  "GenerateSilence dur sampleRate bitsPerSample channels =
     (let samples = trunc (fl (dur * fl (of_int sampleRate)));
          bytesPerSample = bitsPerSample sdiv 8;
          n = samples * bytesPerSample * channels
      in if n < 0 then None else Some (replicate (nat n) (if bitsPerSample = 8 then 128 else 0)))"

section \<open>The codec converter\<close>

datatype codec_error = EmptyPayload | EmptyPCM

text \<open>The conversion tables: rows of sixteen equal entries, and the identity.\<close>

definition muLawToALawMap :: "u8 list" where
  "muLawToALawMap = concat (map (replicate 16)
     [0x1B, 0x2B, 0x4B, 0x6B, 0x8B, 0x95, 0xA5, 0xC5, 0x01, 0x82, 0x15, 0x25, 0x45, 0x65, 0x85, 0xA5])"

definition aLawToMuLawMap :: "u8 list" where
  "aLawToMuLawMap = map word_of_nat [0..<256]"

definition PCMUToPCMA :: "u8 list \<Rightarrow> codec_error + u8 list" where
  "PCMUToPCMA payload =
     (if payload = [] then Inl EmptyPayload else Inr (map (\<lambda>sample. muLawToALawMap ! unat sample) payload))"

definition PCMAToPCMU :: "u8 list \<Rightarrow> codec_error + u8 list" where
  "PCMAToPCMU payload =
     (if payload = [] then Inl EmptyPayload else Inr (map (\<lambda>sample. aLawToMuLawMap ! unat sample) payload))"

definition decodeSample :: "u8 \<Rightarrow> i16" where
  "decodeSample b =
     (let mu = NOT b;
          sign = drop_bit 7 (mu AND 0x80);
          exponent = drop_bit 4 (mu AND 0x70);
          mantissa = mu AND 0x0F;
          magnitude = push_bit (unat exponent) (push_bit 3 (ucast mantissa) + 0x84)
      in if sign = 1 then - magnitude else magnitude)"

definition DecodePCMUToPCM :: "u8 list \<Rightarrow> codec_error + i16 list" where
  "DecodePCMUToPCM payload = (if payload = [] then Inl EmptyPayload else Inr (map decodeSample payload))"

function segmentLoop :: "i16 \<Rightarrow> u8 \<Rightarrow> i16 \<times> u8" where
  "segmentLoop sample exponent =
     (if sint sample > 15 then segmentLoop (signed_drop_bit 1 sample) (exponent + 1) else (sample, exponent))"
  by pat_completeness auto
termination
  by (relation "measure (\<lambda>(sample, _). nat (sint sample))") (auto simp: sint_signed_drop_bit_eq drop_bit_eq_div)

declare segmentLoop.simps [simp del]

definition encodeSample :: "i16 \<Rightarrow> u8" where
  "encodeSample sample0 =
     (let sign = sint sample0 < 0;
          sample1 = (if sign then - sample0 else sample0);
          (sample, exponent) = segmentLoop (sample1 + 132) 0;
          mantissa = ucast sample;
          mu = push_bit 4 exponent OR mantissa;
          mu = (if sign then mu OR 0x80 else mu)
      in NOT mu)"

definition EncodePCMToPCMU :: "i16 list \<Rightarrow> codec_error + u8 list" where
  "EncodePCMToPCMU pcm = (if pcm = [] then Inl EmptyPCM else Inr (map encodeSample pcm))"

definition NormalizeAudio :: "i16 list \<Rightarrow> i16 list" where
  "NormalizeAudio pcm =
     (if pcm = [] then pcm
      else let maxAmp = foldl (\<lambda>maxAmp sample. let a = (if sint sample < 0 then - sample else sample) in
                                 if sint a > sint maxAmp then a else maxAmp) 0 pcm in
        if maxAmp = 0 then pcm
        else if sint maxAmp > 32767
        then let ratio = fl (32767 / of_int (sint maxAmp)) in
          map (\<lambda>sample. word_of_int (trunc (fl (of_int (sint sample) * ratio)))) pcm
        else pcm)"

section \<open>Mixing, sample by sample\<close>

lemma get_le16_le16 [simp]: "get_le16 [ucast w, ucast (drop_bit 8 w)] 0 = w"
proof -
  have "ucast (ucast w :: u8) OR push_bit 8 (ucast (ucast (drop_bit 8 w) :: u8)) = w"
    by (rule bit_word_eqI) (auto simp: bit_simps not_less)
  then show ?thesis by (simp add: get_le16_def)
qed

lemma samples16_le16 [simp]: "samples16 (le16 w @ data) = w # samples16 data"
  by (simp add: le16_def)

lemma samples16_concat: "samples16 (concat (map (\<lambda>x. le16 (f x)) xs)) = map f xs"
  by (induction xs) simp_all

lemma samples16_concat2: "samples16 (concat (map (\<lambda>x. le16 (f x) @ le16 (g x)) xs)) = concat (map (\<lambda>x. [f x, g x]) xs)"
  by (induction xs) simp_all

lemma samples16_nth: "samples16 data = map (\<lambda>i. get_le16 data (i * 2)) [0..<length data div 2]"
proof (induction data rule: samples16.induct)
  case (1 a b data)
  have "[0..<length (a # b # data) div 2] = 0 # map Suc [0..<length data div 2]"
    by (simp add: upt_conv_Cons map_Suc_upt del: upt_Suc)
  then show ?case by (simp add: 1 get_le16_def comp_def)
qed (simp_all add: upt_conv_Cons)

lemma sample16_in: "i < length data div 2 \<Longrightarrow> sample16 data (i * 2) = samples16 data ! i"
  by (simp add: samples16_nth sample16_def) linarith

lemma sint_i16: "- 32768 \<le> sint (x :: i16)" "sint (x :: i16) \<le> 32767"
  using sint_range_size [of x] by (simp_all add: word_size)

lemma sint_i16_of_int: "- 32768 \<le> n \<Longrightarrow> n \<le> 32767 \<Longrightarrow> sint (word_of_int n :: i16) = n"
  by (simp add: sint_sbintrunc' signed_take_bit_int_eq_self)

lemma half_range:
  assumes "- 32768 \<le> a" "a \<le> 32767" "- 32768 \<le> b" "b \<le> (32767 :: int)"
  shows "- 32768 \<le> (a + b) sdiv 2" "(a + b) sdiv 2 \<le> 32767"
  using assms by (auto simp: signed_divide_int_def sgn_if split: if_splits)

lemma mixed16_average: "sint (mixed16 x y) = (sint x + sint y) sdiv 2"
proof -
  note h = half_range [OF sint_i16 [of x] sint_i16 [of y]]
  then have "mixed16 x y = word_of_int ((sint x + sint y) sdiv 2)" by (simp add: mixed16_def Let_def)
  then show ?thesis using h by (simp add: sint_i16_of_int)
qed

lemma map2_nth: "map2 f xs ys = map (\<lambda>i. f (xs ! i) (ys ! i)) [0..<min (length xs) (length ys)]"
  by (rule nth_equalityI) simp_all

lemma mix_length16: "am_bitsPerSample m = 16 \<Longrightarrow> mix_length m a b div 2 = min (length a div 2) (length b div 2)"
  by (auto simp: mix_length_def Let_def min_def)

lemma length_samples16: "length (samples16 data) = length data div 2"
  by (simp add: samples16_nth)

lemma MixMono_samples:
  assumes "am_bitsPerSample m = 16"
  shows "samples16 (MixMono m caller callee) = map2 mixed16 (samples16 caller) (samples16 callee)"
  using assms
  by (simp add: MixMono_def Let_def mix16bitMono_def samples16_concat map2_nth length_samples16 mix_length16 sample16_in)

lemma stereo_frame:
  assumes "i < length data div 2"
  shows "(if i * 2 + 1 < length data then [data ! (i * 2), data ! (i * 2 + 1)] else [0, 0]) = le16 (samples16 data ! i)"
proof -
  have *: "i * 2 + 1 < length data" using assms by linarith
  have b: "ucast (ucast (b :: u8) OR push_bit 8 (ucast c :: u16)) = b" "ucast (drop_bit 8 (ucast b OR push_bit 8 (ucast c :: u16))) = c" for b c :: u8
    by (rule bit_word_eqI; auto simp: bit_simps dest: bit_imp_le_length)+
  have "le16 (get_le16 data (i * 2)) = [data ! (i * 2), data ! (i * 2 + 1)]" by (simp only: le16_def get_le16_def b)
  then show ?thesis using assms * by (simp add: samples16_nth)
qed

lemma MixStereo_samples:
  assumes "am_bitsPerSample m = 16"
  shows "samples16 (MixStereo m caller callee) = concat (map2 (\<lambda>x y. [x, y]) (samples16 caller) (samples16 callee))"
proof -
  let ?n = "min (length caller div 2) (length callee div 2)"
  have "mix_length m caller callee * 2 div 4 = ?n" using mix_length16 [OF assms, of caller callee] by simp
  then have "MixStereo m caller callee = concat (map (\<lambda>i. le16 (samples16 caller ! i) @ le16 (samples16 callee ! i)) [0..<?n])"
    unfolding MixStereo_def mix16bitStereo_def Let_def assms
    by (simp only: if_True simp_thms)
       (intro arg_cong [where f = concat] map_cong refl arg_cong2 [where f = append] stereo_frame; simp)
  then show ?thesis by (simp add: samples16_concat2 map2_nth length_samples16)
qed

section \<open>The \<open>\<mu>\<close>-law encoder\<close>

lemma segmentLoop_step:
  assumes "16 \<le> sint x"
  shows "segmentLoop x e = segmentLoop (signed_drop_bit 1 x) (e + 1)" "sint (signed_drop_bit 1 x) = sint x div 2"
  using assms by (simp_all add: segmentLoop.simps [of x e] sint_signed_drop_bit_eq drop_bit_eq_div)

lemma segmentLoop_low:
  "8 * 2 ^ m \<le> sint x \<Longrightarrow> \<exists>y. segmentLoop x e = segmentLoop y (e + of_nat m) \<and> sint y = sint x div 2 ^ m"
proof (induction m arbitrary: x e)
  case 0
  then show ?case by auto
next
  case (Suc m)
  have "(16 :: int) \<le> 8 * 2 ^ Suc m" by simp
  then have "16 \<le> sint x" using Suc.prems by linarith
  note st = segmentLoop_step [OF this]
  have "8 * 2 ^ m \<le> sint x div 2" using Suc.prems by simp
  then have "8 * 2 ^ m \<le> sint (signed_drop_bit 1 x)" by (simp only: st(2))
  from Suc.IH [OF this, of "e + 1"] st show ?case by (auto simp: zdiv_zmult2_eq add_ac)
qed

lemma segmentLoop_high:
  "sint x < 16 * 2 ^ m \<Longrightarrow> \<exists>j \<le> m. snd (segmentLoop x e) = e + of_nat j"
proof (induction m arbitrary: x e)
  case 0
  then show ?case by (simp add: segmentLoop.simps [of x e])
next
  case (Suc m)
  show ?case
  proof (cases "sint x > 15")
    case True
    then have "16 \<le> sint x" by simp
    note st = segmentLoop_step [OF this]
    have "sint x div 2 < 16 * 2 ^ m" using Suc.prems by simp
    then have "sint (signed_drop_bit 1 x) < 16 * 2 ^ m" by (simp only: st(2))
    from Suc.IH [OF this, of "e + 1"] obtain j where "j \<le> m" "snd (segmentLoop (signed_drop_bit 1 x) (e + 1)) = e + 1 + of_nat j" by blast
    then show ?thesis unfolding st(1) by (intro exI [of _ "Suc j"]) (simp add: add_ac)
  qed (auto simp: segmentLoop.simps [of x e] intro: exI [of _ 0])
qed

text \<open>From 2048 upwards the segment number needs four bits.\<close>

lemma segmentLoop_segment:
  assumes "2048 \<le> sint x"
  shows "\<exists>j \<in> {8, 9, 10, 11}. snd (segmentLoop x 0) = j"
proof -
  obtain y where y: "segmentLoop x 0 = segmentLoop y 8" "sint y = sint x div 256" using segmentLoop_low [of 8 x 0] assms by auto
  have "sint y < 16 * 2 ^ 3" using sint_i16(2) [of x] by (simp add: y(2))
  from segmentLoop_high [OF this, of 8] obtain j where "j \<le> 3" "snd (segmentLoop y 8) = 8 + of_nat j" by blast
  then show ?thesis using y(1) by (auto simp: le_Suc_eq numeral_3_eq_3)
qed

lemma sint_minus_i16: "sint (x :: i16) \<noteq> - 32768 \<Longrightarrow> sint (- x) = - sint x"
proof -
  assume x: "sint x \<noteq> - 32768"
  have "- x = word_of_int (- sint x)" by simp
  moreover have "sint (word_of_int (- sint x) :: i16) = - sint x" using x sint_i16 [of x] by (intro sint_i16_of_int) linarith+
  ultimately show ?thesis by simp
qed

lemma or_top_bit:
  assumes "bit (w :: u8) 7"
  shows "w OR 0x80 = w"
proof -
  have "w OR 2 ^ 7 = w" using assms by (intro bit_word_eqI) (auto simp only: bit_or_iff bit_exp_iff)
  then show ?thesis by simp
qed

lemma encodeSample_sign:
  assumes "1916 \<le> sint s" "sint s \<le> 32635"
  shows "encodeSample (- s) = encodeSample s"
proof -
  have "sint (s + 132) = sint s + 132"
  proof -
    have "s + 132 = word_of_int (sint s + 132)" by simp
    then show ?thesis using assms by (simp only: sint_i16_of_int)
  qed
  then have "2048 \<le> sint (s + 132)" using assms by simp
  from segmentLoop_segment [OF this] obtain v e where l: "segmentLoop (s + 132) 0 = (v, e)" "e \<in> {8, 9, 10, 11}" by (metis prod.collapse)
  have "bit (push_bit 4 e) 7" using l(2) by (elim insertE emptyE) (simp_all add: bit_simps)
  then have "bit (push_bit 4 e OR ucast v :: u8) 7" by (simp add: bit_or_iff)
  then have t: "(push_bit 4 e OR ucast v) OR 0x80 = push_bit 4 e OR (ucast v :: u8)" by (rule or_top_bit)
  have "sint (- s) = - sint s" using assms by (intro sint_minus_i16) simp
  then have "encodeSample s = NOT (push_bit 4 e OR ucast v)" "encodeSample (- s) = NOT ((push_bit 4 e OR ucast v) OR 0x80)"
    using assms l(1) by (simp_all add: encodeSample_def Let_def)
  then show ?thesis by (simp only: t)
qed

lemma encodeSample_silence: "encodeSample 0 = 0xB7" "sint (decodeSample 0xB7) = 3136" "sint (ulawToLinear 0xB7) = 3004"
  by code_simp+

section \<open>Decoders and tables\<close>

text \<open>The decoder of the converter does not remove the bias that the decoder of the mixer removes.\<close>

lemma decodeSample_bias:
  "decodeSample b = ulawToLinear b + 132 \<or> decodeSample b = ulawToLinear b - 132"
proof -
  let ?w = "NOT b"
  have e: "drop_bit 4 (?w AND 0x70) = drop_bit 4 ?w AND 0x07" by (rule bit_word_eqI) (auto simp: bit_simps)
  have "drop_bit 7 (?w AND 0x80) = 0 \<or> drop_bit 7 (?w AND 0x80) = 1"
  proof (cases "bit ?w 7")
    case True
    then have "drop_bit 7 (?w AND 0x80) = 1" by (intro bit_word_eqI) (auto simp: bit_simps)
    then show ?thesis by simp
  qed (auto intro!: bit_word_eqI simp: bit_simps)
  then show ?thesis unfolding decodeSample_def ulawToLinear_def Let_def e by auto
qed

lemma aLawToMuLawMap_id: "aLawToMuLawMap ! unat (b :: u8) = b"
proof -
  have "unat b < 256" using unsigned_less [of b] by simp
  then show ?thesis by (simp add: aLawToMuLawMap_def)
qed

lemma concat_replicate_nth:
  "i < n * length xs \<Longrightarrow> 0 < n \<Longrightarrow> concat (map (replicate n) xs) ! i = xs ! (i div n)"
proof (induction xs arbitrary: i)
  case (Cons x xs)
  show ?case
  proof (cases "i < n")
    case False
    then have "i - n < n * length xs" "i div n = Suc ((i - n) div n)" using Cons.prems by (auto simp: le_div_geq)
    then show ?thesis using False Cons by (simp add: nth_append)
  qed (use Cons in \<open>simp add: nth_append\<close>)
qed simp

lemma muLawToALawMap_segment:
  assumes "drop_bit 4 a = drop_bit 4 (b :: u8)"
  shows "muLawToALawMap ! unat a = muLawToALawMap ! unat b"
proof -
  have "unat a div 16 = unat b div 16" using arg_cong [where f = unat, OF assms]
    by (simp only: unat_drop_bit_eq) (simp add: drop_bit_eq_div)
  moreover have "muLawToALawMap ! unat c = [0x1B, 0x2B, 0x4B, 0x6B, 0x8B, 0x95, 0xA5, 0xC5, 0x01, 0x82, 0x15, 0x25, 0x45, 0x65, 0x85, 0xA5] ! (unat c div 16)"
    for c :: u8 unfolding muLawToALawMap_def using unsigned_less [of c] by (intro concat_replicate_nth) simp_all
  ultimately show ?thesis by simp
qed

text \<open>An amplitude of a 16-bit sample never exceeds 32767, so the normaliser of the converter changes nothing.\<close>

lemma NormalizeAudio_id: "NormalizeAudio pcm = pcm"
proof -
  have "\<not> sint (x :: i16) > 32767" for x using sint_i16(2) [of x] by linarith
  then show ?thesis by (simp add: NormalizeAudio_def Let_def)
qed

section \<open>Properties\<close>

text \<open>C26. For 16-bit audio, the mono mix of two streams is, sample by sample, the average of the two samples rounded towards zero, and
  it never clips; the stereo mix has the samples of the caller on the left and those of the callee on the right. The
  shorter stream determines the length, and an odd byte at the end is ignored.
\<close>

theorem mixer_16bit:
  assumes "am_bitsPerSample m = 16"
  shows "map sint (samples16 (MixMono m caller callee)) =
      map2 (\<lambda>x y. (sint x + sint y) sdiv 2) (samples16 caller) (samples16 callee) \<and>
    samples16 (MixStereo m caller callee) = concat (map2 (\<lambda>x y. [x, y]) (samples16 caller) (samples16 callee))"
  using assms by (simp add: MixMono_samples MixStereo_samples mixed16_average case_prod_beta comp_def)

theorem mixer_16bit_witness:
  "map sint (samples16 (MixMono (NewAudioMixer 8000 16 1) [1, 128, 255, 127, 9] [0, 128, 1, 0])) =
      map2 (\<lambda>x y. (sint x + sint y) sdiv 2) (samples16 [1, 128, 255, 127, 9]) (samples16 [0, 128, 1, 0]) \<and>
    samples16 (MixStereo (NewAudioMixer 8000 16 1) [1, 128, 255, 127, 9] [0, 128, 1, 0]) =
      concat (map2 (\<lambda>x y. [x, y]) (samples16 [1, 128, 255, 127, 9]) (samples16 [0, 128, 1, 0]))"
  by (rule mixer_16bit) (simp add: NewAudioMixer_def)

text \<open>The \<open>\<mu>\<close>-law encoder of the converter does not keep the sign of loud samples: a sample of at least 1916 and its negation get
  the same code, because the segment number then overflows into the sign bit. Silence is encoded as a code that both decoders of
  the repository read as a level above 3000.
\<close>

lemma pcmu_encoder_faults:
  assumes "1916 \<le> sint s" "sint s \<le> 32635"
  shows "EncodePCMToPCMU [- s] = EncodePCMToPCMU [s] \<and> EncodePCMToPCMU [0] = Inr [0xB7] \<and>
    sint (decodeSample 0xB7) = 3136 \<and> sint (ulawToLinear 0xB7) = 3004"
  using encodeSample_sign [OF assms] encodeSample_silence by (simp add: EncodePCMToPCMU_def)

text \<open>
  The G.711 tables do not convert. A-law is passed through unchanged as \<open>\<mu>\<close>-law, and the conversion from \<open>\<mu>\<close>-law forgets the
  position within a segment: payloads whose bytes agree in the upper four bits are converted to the same payload.
\<close>

lemma g711_tables:
  assumes "map (drop_bit 4) p = map (drop_bit 4) q"
  shows "PCMUToPCMA p = PCMUToPCMA q \<and> PCMAToPCMU (b # p) = Inr (b # p)"
proof -
  have "map (\<lambda>sample. muLawToALawMap ! unat sample) p = map (\<lambda>sample. muLawToALawMap ! unat sample) q"
    using assms by (induction p q rule: list_induct2') (auto intro: muLawToALawMap_segment)
  then show ?thesis using assms by (auto simp: PCMUToPCMA_def PCMAToPCMU_def aLawToMuLawMap_id)
qed

end
