(* ===== verification/Split_Brain.thy ===== *)
theory Split_Brain
  imports Karl_Prelude
begin

text \<open>
  Split-brain detection, \<^verbatim>\<open>internal/split_brain.go\<close>: heartbeats of the other nodes, quorum, and the partition state machine with
  fencing.

  What reading the heartbeat of a node from Redis gives is the parameter \<open>get\<close>: nothing (an error or an expired key), a text
  that is not a heartbeat, or a heartbeat with its time. The maps that the code ranges over are association lists in the
  order of the range. Handlers run in goroutines of their own: they are numbered in the order of registration, and
  \<open>sb_emitted\<close> lists the calls that were started. A pass of the detection loop is \<open>detect\<close>; each of its two halves takes
  the lock and reads the clock for itself. Durations and counters are unbounded here: the products and sums of the code
  stay below 2 ^ 63 for intervals of less than a century.
\<close>

section \<open>State\<close>

record SplitBrainConfig =
  sc_QuorumSize :: int
  sc_HeartbeatInterval :: duration
  sc_FailureThreshold :: int
  sc_RecoveryGracePeriod :: duration
  sc_FencingEnabled :: bool
  sc_FencingTimeout :: duration
  sc_ConsensusTimeout :: duration

definition DefaultSplitBrainConfig :: SplitBrainConfig where
  "DefaultSplitBrainConfig =
     \<lparr>sc_QuorumSize = 2, sc_HeartbeatInterval = second, sc_FailureThreshold = 3,
      sc_RecoveryGracePeriod = 5 * second, sc_FencingEnabled = True,
      sc_FencingTimeout = 10 * second, sc_ConsensusTimeout = 5 * second\<rparr>"

datatype PartitionState =
    PartitionStateNormal | PartitionStateSuspected | PartitionStatePartitioned
  | PartitionStateRecovering | PartitionStateFenced

primrec PartitionState_String :: "PartitionState \<Rightarrow> string" where
  "PartitionState_String PartitionStateNormal = ''normal''"
| "PartitionState_String PartitionStateSuspected = ''suspected''"
| "PartitionState_String PartitionStatePartitioned = ''partitioned''"
| "PartitionState_String PartitionStateRecovering = ''recovering''"
| "PartitionState_String PartitionStateFenced = ''fenced''"

record NodeInfo =
  ni_ID :: string
  ni_Address :: string
  ni_LastSeen :: gtime
  ni_State :: string
  ni_SessionCount :: int
  ni_PartitionID :: string
  ni_JoinedAt :: gtime
  ni_Version :: string
  ni_Capabilities :: "string list"
  ni_Healthy :: bool
  ni_FencedByNode :: string
  ni_FencedAt :: gtime

datatype SplitBrainEventType =
    SplitBrainEventPartitionDetected | SplitBrainEventPartitionSuspected | SplitBrainEventPartitionRecovered
  | SplitBrainEventQuorumLost | SplitBrainEventQuorumRegained | SplitBrainEventNodeFenced
  | SplitBrainEventNodeUnfenced | SplitBrainEventNodeJoined | SplitBrainEventNodeLeft

primrec SplitBrainEventType_String :: "SplitBrainEventType \<Rightarrow> string" where
  "SplitBrainEventType_String SplitBrainEventPartitionDetected = ''partition_detected''"
| "SplitBrainEventType_String SplitBrainEventPartitionSuspected = ''partition_suspected''"
| "SplitBrainEventType_String SplitBrainEventPartitionRecovered = ''partition_recovered''"
| "SplitBrainEventType_String SplitBrainEventQuorumLost = ''quorum_lost''"
| "SplitBrainEventType_String SplitBrainEventQuorumRegained = ''quorum_regained''"
| "SplitBrainEventType_String SplitBrainEventNodeFenced = ''node_fenced''"
| "SplitBrainEventType_String SplitBrainEventNodeUnfenced = ''node_unfenced''"
| "SplitBrainEventType_String SplitBrainEventNodeJoined = ''node_joined''"
| "SplitBrainEventType_String SplitBrainEventNodeLeft = ''node_left''"

record SplitBrainEvent =
  ev_Type :: SplitBrainEventType
  ev_Timestamp :: gtime
  ev_NodeID :: string
  ev_PartitionState :: PartitionState
  ev_ReachableNodes :: "string list"
  ev_UnreachableNodes :: "string list"
  ev_IsQuorum :: bool
  ev_Message :: string

record SplitBrainDetector =
  sb_config :: SplitBrainConfig
  sb_nodeID :: string
  sb_cluster :: bool
  sb_state :: PartitionState
  sb_knownNodes :: "(string \<times> NodeInfo) list"
  sb_reachableNodes :: "(string \<times> bool) list"
  sb_lastHeartbeat :: "string \<rightharpoonup> gtime"
  sb_missedHeartbeats :: "string \<rightharpoonup> int"
  sb_partitionStart :: gtime
  sb_recoveryStart :: gtime
  sb_fenced :: bool
  sb_handlers :: nat
  sb_emitted :: "(nat \<times> SplitBrainEvent) list"

definition NewSplitBrainDetector :: "string \<Rightarrow> bool \<Rightarrow> SplitBrainConfig option \<Rightarrow> SplitBrainDetector" where
  "NewSplitBrainDetector nodeID cluster cfg =
     \<lparr>sb_config = (case cfg of None \<Rightarrow> DefaultSplitBrainConfig | Some c \<Rightarrow> c), sb_nodeID = nodeID, sb_cluster = cluster,
      sb_state = PartitionStateNormal, sb_knownNodes = [], sb_reachableNodes = [], sb_lastHeartbeat = Map.empty,
      sb_missedHeartbeats = Map.empty, sb_partitionStart = 0, sb_recoveryStart = 0, sb_fenced = False,
      sb_handlers = 0, sb_emitted = []\<rparr>"

definition AddHandler :: "SplitBrainDetector \<Rightarrow> SplitBrainDetector" where
  "AddHandler sbd = sbd\<lparr>sb_handlers := sb_handlers sbd + 1\<rparr>"

section \<open>Quorum and membership\<close>

definition getReachableNodesList :: "SplitBrainDetector \<Rightarrow> string list" where
  "getReachableNodesList sbd = sb_nodeID sbd # map fst (filter snd (sb_reachableNodes sbd))"

definition getUnreachableNodesList :: "SplitBrainDetector \<Rightarrow> string list" where
  "getUnreachableNodesList sbd = map fst (filter (Not \<circ> snd) (sb_reachableNodes sbd))"

definition hasQuorum :: "SplitBrainDetector \<Rightarrow> bool" where
  "hasQuorum sbd = (1 + int (length (filter snd (sb_reachableNodes sbd))) \<ge> sc_QuorumSize (sb_config sbd))"

definition emitEvent :: "SplitBrainEvent \<Rightarrow> SplitBrainDetector \<Rightarrow> SplitBrainDetector" where
  "emitEvent event sbd = sbd\<lparr>sb_emitted := sb_emitted sbd @ map (\<lambda>h. (h, event)) [0..<sb_handlers sbd]\<rparr>"

definition bare_event :: "SplitBrainEventType \<Rightarrow> gtime \<Rightarrow> string \<Rightarrow> bool \<Rightarrow> string \<Rightarrow> SplitBrainDetector \<Rightarrow> SplitBrainEvent" where
  "bare_event ty now nodeID quorum msg sbd =
     \<lparr>ev_Type = ty, ev_Timestamp = now, ev_NodeID = nodeID, ev_PartitionState = sb_state sbd,
      ev_ReachableNodes = [], ev_UnreachableNodes = [], ev_IsQuorum = quorum, ev_Message = msg\<rparr>"

definition full_event :: "SplitBrainEventType \<Rightarrow> gtime \<Rightarrow> bool \<Rightarrow> string \<Rightarrow> SplitBrainDetector \<Rightarrow> SplitBrainEvent" where
  "full_event ty now quorum msg sbd =
     (bare_event ty now (sb_nodeID sbd) quorum msg sbd)
       \<lparr>ev_ReachableNodes := getReachableNodesList sbd, ev_UnreachableNodes := getUnreachableNodesList sbd\<rparr>"

definition RegisterNode :: "gtime \<Rightarrow> NodeInfo \<Rightarrow> SplitBrainDetector \<Rightarrow> SplitBrainDetector" where
  "RegisterNode now info sbd =
     (let sbd1 = sbd\<lparr>sb_knownNodes := AList.update (ni_ID info) info (sb_knownNodes sbd),
                     sb_reachableNodes := AList.update (ni_ID info) True (sb_reachableNodes sbd),
                     sb_lastHeartbeat := (sb_lastHeartbeat sbd)(ni_ID info \<mapsto> now),
                     sb_missedHeartbeats := (sb_missedHeartbeats sbd)(ni_ID info \<mapsto> 0)\<rparr>
      in emitEvent (bare_event SplitBrainEventNodeJoined now (ni_ID info) False
           (''Node '' @ ni_ID info @ '' joined cluster'') sbd1) sbd1)"

definition UnregisterNode :: "gtime \<Rightarrow> string \<Rightarrow> SplitBrainDetector \<Rightarrow> SplitBrainDetector" where
  "UnregisterNode now nodeID sbd =
     (let sbd1 = sbd\<lparr>sb_knownNodes := AList.delete nodeID (sb_knownNodes sbd),
                     sb_reachableNodes := AList.delete nodeID (sb_reachableNodes sbd),
                     sb_lastHeartbeat := (sb_lastHeartbeat sbd)(nodeID := None),
                     sb_missedHeartbeats := (sb_missedHeartbeats sbd)(nodeID := None)\<rparr>
      in emitEvent (bare_event SplitBrainEventNodeLeft now nodeID False
           (''Node '' @ nodeID @ '' left cluster'') sbd1) sbd1)"

section \<open>Heartbeats\<close>

record ClusterHeartbeat =
  hb_NodeID :: string
  hb_Timestamp :: gtime
  hb_State :: string
  hb_HasQuorum :: bool
  hb_SessionCount :: int
  hb_Reachable :: "string list"
  hb_Unreachable :: "string list"

text \<open>What is written to Redis: the key, the heartbeat and its time to live. The state of the detector stays as it is.\<close>

definition sendHeartbeat :: "gtime \<Rightarrow> SplitBrainDetector \<Rightarrow> (string \<times> ClusterHeartbeat \<times> duration) option" where
  "sendHeartbeat now sbd =
     (if \<not> sb_cluster sbd then None
      else Some (''cluster:heartbeat:'' @ sb_nodeID sbd,
        \<lparr>hb_NodeID = sb_nodeID sbd, hb_Timestamp = now, hb_State = PartitionState_String (sb_state sbd),
         hb_HasQuorum = hasQuorum sbd, hb_SessionCount = 0, hb_Reachable = [], hb_Unreachable = []\<rparr>,
        sc_HeartbeatInterval (sb_config sbd) * 3))"

datatype heartbeat_read = HeartbeatMissing | HeartbeatMalformed | Heartbeat gtime

definition missed :: "SplitBrainDetector \<Rightarrow> string \<Rightarrow> int" where
  "missed sbd nodeID = (case sb_missedHeartbeats sbd nodeID of None \<Rightarrow> 0 | Some n \<Rightarrow> n)"

text \<open>One more missed heartbeat; from the threshold on the node counts as unreachable.\<close>

definition missHeartbeat :: "string \<Rightarrow> SplitBrainDetector \<Rightarrow> SplitBrainDetector" where
  "missHeartbeat nodeID sbd =
     (let n = missed sbd nodeID + 1; sbd1 = sbd\<lparr>sb_missedHeartbeats := (sb_missedHeartbeats sbd)(nodeID \<mapsto> n)\<rparr> in
      if n \<ge> sc_FailureThreshold (sb_config sbd)
      then sbd1\<lparr>sb_reachableNodes := AList.update nodeID False (sb_reachableNodes sbd1)\<rparr> else sbd1)"

text \<open>
  When the key is missing the code writes \<open>False\<close> only over \<open>True\<close>; without an entry in the map there is nothing to
  write. When the heartbeat is too old it writes in any case.
\<close>

definition checkNode :: "(string \<Rightarrow> heartbeat_read) \<Rightarrow> gtime \<Rightarrow> string \<Rightarrow> SplitBrainDetector \<Rightarrow> SplitBrainDetector" where
  "checkNode get now nodeID sbd =
     (if nodeID = sb_nodeID sbd then sbd
      else case get nodeID of
        HeartbeatMissing \<Rightarrow>
          (let n = missed sbd nodeID + 1; sbd1 = sbd\<lparr>sb_missedHeartbeats := (sb_missedHeartbeats sbd)(nodeID \<mapsto> n)\<rparr> in
           if n \<ge> sc_FailureThreshold (sb_config sbd) \<and> map_of (sb_reachableNodes sbd1) nodeID = Some True
           then sbd1\<lparr>sb_reachableNodes := AList.update nodeID False (sb_reachableNodes sbd1)\<rparr> else sbd1)
      | HeartbeatMalformed \<Rightarrow> sbd
      | Heartbeat ts \<Rightarrow>
          if now - ts < sc_HeartbeatInterval (sb_config sbd) * sc_FailureThreshold (sb_config sbd)
          then sbd\<lparr>sb_reachableNodes := AList.update nodeID True (sb_reachableNodes sbd),
                   sb_lastHeartbeat := (sb_lastHeartbeat sbd)(nodeID \<mapsto> ts),
                   sb_missedHeartbeats := (sb_missedHeartbeats sbd)(nodeID \<mapsto> 0)\<rparr>
          else missHeartbeat nodeID sbd)"

definition checkNodes :: "(string \<Rightarrow> heartbeat_read) \<Rightarrow> gtime \<Rightarrow> SplitBrainDetector \<Rightarrow> SplitBrainDetector" where
  "checkNodes get now sbd =
     (if \<not> sb_cluster sbd then sbd else fold (checkNode get now) (map fst (sb_knownNodes sbd)) sbd)"

section \<open>The partition state machine\<close>

definition fenceNode :: "gtime \<Rightarrow> SplitBrainDetector \<Rightarrow> SplitBrainDetector" where
  "fenceNode now sbd =
     (if sb_fenced sbd then sbd
      else let sbd1 = sbd\<lparr>sb_fenced := True, sb_state := PartitionStateFenced\<rparr> in
        emitEvent (bare_event SplitBrainEventNodeFenced now (sb_nodeID sbd) False ''Node fenced due to quorum loss'' sbd1) sbd1)"

definition unfenceNode :: "gtime \<Rightarrow> SplitBrainDetector \<Rightarrow> SplitBrainDetector" where
  "unfenceNode now sbd =
     (if \<not> sb_fenced sbd then sbd
      else let sbd1 = sbd\<lparr>sb_fenced := False\<rparr> in
        emitEvent (bare_event SplitBrainEventNodeUnfenced now (sb_nodeID sbd) (hasQuorum sbd1) ''Node unfenced'' sbd1) sbd1)"

definition confirmPartition :: "gtime \<Rightarrow> SplitBrainDetector \<Rightarrow> SplitBrainDetector" where
  "confirmPartition now sbd =
     (let sbd1 = sbd\<lparr>sb_state := PartitionStatePartitioned, sb_partitionStart := now\<rparr>;
          sbd2 = emitEvent (full_event SplitBrainEventPartitionDetected now False ''Network partition detected - quorum lost'' sbd1) sbd1;
          sbd3 = emitEvent (bare_event SplitBrainEventQuorumLost now (sb_nodeID sbd2) False ''Quorum lost'' sbd2) sbd2
      in if sc_FencingEnabled (sb_config sbd3) then fenceNode now sbd3 else sbd3)"

definition completeRecovery :: "gtime \<Rightarrow> SplitBrainDetector \<Rightarrow> SplitBrainDetector" where
  "completeRecovery now sbd =
     (let sbd1 = sbd\<lparr>sb_state := PartitionStateNormal\<rparr>;
          sbd2 = emitEvent (full_event SplitBrainEventPartitionRecovered now True ''Partition recovered'' sbd1) sbd1
      in if sb_fenced sbd2 then unfenceNode now sbd2 else sbd2)"

definition evaluatePartitionState :: "gtime \<Rightarrow> SplitBrainDetector \<Rightarrow> SplitBrainDetector" where
  "evaluatePartitionState now sbd =
     (let quorum = hasQuorum sbd; unreachableCount = length (filter (Not \<circ> snd) (sb_reachableNodes sbd)) in
      case sb_state sbd of
        PartitionStateNormal \<Rightarrow>
          if unreachableCount > 0
          then let sbd1 = sbd\<lparr>sb_state := PartitionStateSuspected\<rparr> in
            emitEvent (full_event SplitBrainEventPartitionSuspected now quorum (Itoa unreachableCount @ '' nodes unreachable'') sbd1) sbd1
          else sbd
      | PartitionStateSuspected \<Rightarrow>
          if unreachableCount = 0 then sbd\<lparr>sb_state := PartitionStateNormal\<rparr>
          else if \<not> quorum then confirmPartition now sbd else sbd
      | PartitionStatePartitioned \<Rightarrow>
          if quorum
          then let sbd1 = sbd\<lparr>sb_state := PartitionStateRecovering, sb_recoveryStart := now\<rparr> in
            emitEvent (full_event SplitBrainEventQuorumRegained now quorum ''Quorum regained - beginning recovery'' sbd1) sbd1
          else sbd
      | PartitionStateRecovering \<Rightarrow>
          if \<not> quorum then sbd\<lparr>sb_state := PartitionStatePartitioned\<rparr>
          else if now - sb_recoveryStart sbd \<ge> sc_RecoveryGracePeriod (sb_config sbd) then completeRecovery now sbd
          else sbd
      | PartitionStateFenced \<Rightarrow>
          if quorum
          then (unfenceNode now sbd)\<lparr>sb_state := PartitionStateRecovering, sb_recoveryStart := now\<rparr>
          else sbd)"

text \<open>One pass of the detection loop.\<close>

definition detect :: "(string \<Rightarrow> heartbeat_read) \<Rightarrow> gtime \<Rightarrow> gtime \<Rightarrow> SplitBrainDetector \<Rightarrow> SplitBrainDetector" where
  "detect get now now' sbd = evaluatePartitionState now' (checkNodes get now sbd)"

record SplitBrainStats =
  ss_NodeID :: string
  ss_State :: string
  ss_HasQuorum :: bool
  ss_IsFenced :: bool
  ss_TotalNodes :: int
  ss_ReachableNodes :: int
  ss_UnreachableNodes :: int
  ss_QuorumSize :: int
  ss_PartitionDuration :: duration

definition SplitBrain_GetStats :: "gtime \<Rightarrow> SplitBrainDetector \<Rightarrow> SplitBrainStats" where
  "SplitBrain_GetStats now sbd =
     \<lparr>ss_NodeID = sb_nodeID sbd, ss_State = PartitionState_String (sb_state sbd), ss_HasQuorum = hasQuorum sbd,
      ss_IsFenced = sb_fenced sbd, ss_TotalNodes = int (length (sb_knownNodes sbd)) + 1,
      ss_ReachableNodes = 1 + int (length (filter snd (sb_reachableNodes sbd))),
      ss_UnreachableNodes = int (length (filter (Not \<circ> snd) (sb_reachableNodes sbd))),
      ss_QuorumSize = sc_QuorumSize (sb_config sbd),
      ss_PartitionDuration = (if IsZero (sb_partitionStart sbd) then 0 else now - sb_partitionStart sbd)\<rparr>"

section \<open>Reachable states\<close>

text \<open>What can happen to a detector, under its lock, in any order.\<close>

inductive sb_step :: "SplitBrainDetector \<Rightarrow> SplitBrainDetector \<Rightarrow> bool" where
  sb_handler: "sb_step sbd (AddHandler sbd)"
| sb_register: "sb_step sbd (RegisterNode now info sbd)"
| sb_unregister: "sb_step sbd (UnregisterNode now nodeID sbd)"
| sb_check: "sb_step sbd (checkNodes get now sbd)"
| sb_evaluate: "sb_step sbd (evaluatePartitionState now sbd)"

inductive sb_reachable :: "SplitBrainDetector \<Rightarrow> bool" where
  sb_new: "sb_reachable (NewSplitBrainDetector nodeID cluster cfg)"
| sb_next: "sb_reachable sbd \<Longrightarrow> sb_step sbd sbd' \<Longrightarrow> sb_reachable sbd'"

definition sb_inv :: "SplitBrainDetector \<Rightarrow> bool" where
  "sb_inv sbd \<longleftrightarrow> (sb_fenced sbd \<longleftrightarrow> sb_state sbd = PartitionStateFenced)
     \<and> distinct (map fst (sb_knownNodes sbd)) \<and> distinct (map fst (sb_reachableNodes sbd))
     \<and> fst ` set (sb_reachableNodes sbd) = fst ` set (sb_knownNodes sbd)"

lemma emitEvent_sel [simp]:
  "sb_config (emitEvent e sbd) = sb_config sbd" "sb_nodeID (emitEvent e sbd) = sb_nodeID sbd"
  "sb_cluster (emitEvent e sbd) = sb_cluster sbd" "sb_state (emitEvent e sbd) = sb_state sbd"
  "sb_knownNodes (emitEvent e sbd) = sb_knownNodes sbd" "sb_reachableNodes (emitEvent e sbd) = sb_reachableNodes sbd"
  "sb_missedHeartbeats (emitEvent e sbd) = sb_missedHeartbeats sbd" "sb_fenced (emitEvent e sbd) = sb_fenced sbd"
  by (simp_all add: emitEvent_def)

lemma hasQuorum_cong:
  "sb_reachableNodes a = sb_reachableNodes b \<Longrightarrow> sb_config a = sb_config b \<Longrightarrow> hasQuorum a = hasQuorum b"
  by (simp add: hasQuorum_def)

lemmas evaluate_defs = evaluatePartitionState_def confirmPartition_def completeRecovery_def fenceNode_def unfenceNode_def

lemma evaluate_frame [simp]:
  "sb_config (evaluatePartitionState now sbd) = sb_config sbd"
  "sb_nodeID (evaluatePartitionState now sbd) = sb_nodeID sbd"
  "sb_cluster (evaluatePartitionState now sbd) = sb_cluster sbd"
  "sb_knownNodes (evaluatePartitionState now sbd) = sb_knownNodes sbd"
  "sb_reachableNodes (evaluatePartitionState now sbd) = sb_reachableNodes sbd"
  "sb_missedHeartbeats (evaluatePartitionState now sbd) = sb_missedHeartbeats sbd"
  by (simp_all add: evaluate_defs Let_def split: PartitionState.split)

lemma evaluate_fenced:
  assumes "sb_fenced sbd \<longleftrightarrow> sb_state sbd = PartitionStateFenced"
  shows "sb_fenced (evaluatePartitionState now sbd) \<longleftrightarrow> sb_state (evaluatePartitionState now sbd) = PartitionStateFenced"
  using assms by (cases "sb_state sbd") (simp_all add: evaluate_defs Let_def)

lemma checkNode_frame [simp]:
  "sb_config (checkNode get now n sbd) = sb_config sbd" "sb_nodeID (checkNode get now n sbd) = sb_nodeID sbd"
  "sb_cluster (checkNode get now n sbd) = sb_cluster sbd" "sb_state (checkNode get now n sbd) = sb_state sbd"
  "sb_knownNodes (checkNode get now n sbd) = sb_knownNodes sbd" "sb_fenced (checkNode get now n sbd) = sb_fenced sbd"
  by (simp_all add: checkNode_def missHeartbeat_def Let_def split: heartbeat_read.split)

lemma checkNode_fold_frame [simp]:
  "sb_config (fold (checkNode get now) ns sbd) = sb_config sbd" "sb_nodeID (fold (checkNode get now) ns sbd) = sb_nodeID sbd"
  "sb_cluster (fold (checkNode get now) ns sbd) = sb_cluster sbd" "sb_state (fold (checkNode get now) ns sbd) = sb_state sbd"
  "sb_knownNodes (fold (checkNode get now) ns sbd) = sb_knownNodes sbd" "sb_fenced (fold (checkNode get now) ns sbd) = sb_fenced sbd"
  by (induction ns arbitrary: sbd) simp_all

lemma checkNodes_frame [simp]:
  "sb_config (checkNodes get now sbd) = sb_config sbd" "sb_nodeID (checkNodes get now sbd) = sb_nodeID sbd"
  "sb_cluster (checkNodes get now sbd) = sb_cluster sbd" "sb_state (checkNodes get now sbd) = sb_state sbd"
  "sb_knownNodes (checkNodes get now sbd) = sb_knownNodes sbd" "sb_fenced (checkNodes get now sbd) = sb_fenced sbd"
  by (simp_all add: checkNodes_def)

lemma checkNode_keys:
  assumes "n \<in> fst ` set (sb_reachableNodes sbd)"
  shows "map fst (sb_reachableNodes (checkNode get now n sbd)) = map fst (sb_reachableNodes sbd)"
proof -
  have "map fst (AList.update n b (sb_reachableNodes sbd)) = map fst (sb_reachableNodes sbd)" for b
    using assms by (simp add: update_keys)
  then show ?thesis
    by (simp add: checkNode_def missHeartbeat_def Let_def split: heartbeat_read.split)
qed

lemma checkNode_fold_keys:
  assumes "set ns \<subseteq> fst ` set (sb_reachableNodes sbd)"
  shows "map fst (sb_reachableNodes (fold (checkNode get now) ns sbd)) = map fst (sb_reachableNodes sbd)"
  using assms
proof (induction ns arbitrary: sbd)
  case (Cons n ns)
  have k: "map fst (sb_reachableNodes (checkNode get now n sbd)) = map fst (sb_reachableNodes sbd)"
    using Cons.prems by (intro checkNode_keys) simp
  then have "fst ` set (sb_reachableNodes (checkNode get now n sbd)) = fst ` set (sb_reachableNodes sbd)"
    by (metis set_map)
  then show ?case
    using Cons.IH [of "checkNode get now n sbd"] Cons.prems k by simp
qed simp

lemma checkNodes_keys:
  assumes "sb_inv sbd"
  shows "map fst (sb_reachableNodes (checkNodes get now sbd)) = map fst (sb_reachableNodes sbd)"
  using assms by (auto simp: checkNodes_def sb_inv_def intro!: checkNode_fold_keys)

lemma sb_inv_check:
  assumes "sb_inv sbd"
  shows "sb_inv (checkNodes get now sbd)"
  using assms checkNodes_keys [OF assms, of get now] unfolding sb_inv_def
  by (metis checkNodes_frame(4-6) set_map)

lemma sb_inv_evaluate:
  assumes "sb_inv sbd"
  shows "sb_inv (evaluatePartitionState now sbd)"
  using assms evaluate_fenced [of sbd now] by (simp add: sb_inv_def)

lemma AList_delete_keys: "fst ` set (AList.delete k al) = fst ` set al - {k}"
  by (auto simp: AList.delete_eq image_iff)

lemma sb_inv_step:
  assumes "sb_step sbd sbd'" "sb_inv sbd"
  shows "sb_inv sbd'"
  using assms
proof cases
  case (sb_register now info)
  then show ?thesis
    using assms(2) by (simp add: RegisterNode_def sb_inv_def Let_def distinct_update dom_update)
next
  case (sb_unregister now nodeID)
  then show ?thesis
    using assms(2) by (simp add: UnregisterNode_def sb_inv_def Let_def distinct_delete AList_delete_keys)
qed (simp_all add: sb_inv_check sb_inv_evaluate, simp add: sb_inv_def AddHandler_def)

lemma sb_reachable_inv:
  assumes "sb_reachable sbd"
  shows "sb_inv sbd"
  using assms by induction (auto simp: sb_inv_step, simp add: sb_inv_def NewSplitBrainDetector_def)

section \<open>Passes without any heartbeat\<close>

definition detect_run :: "((string \<Rightarrow> heartbeat_read) \<times> gtime \<times> gtime) list \<Rightarrow> SplitBrainDetector \<Rightarrow> SplitBrainDetector" where
  "detect_run ps sbd = fold (\<lambda>(get, now, now'). detect get now now') ps sbd"

abbreviation silent :: "string \<Rightarrow> heartbeat_read" where
  "silent \<equiv> (\<lambda>_. HeartbeatMissing)"

definition silent_run :: "(gtime \<times> gtime) list \<Rightarrow> SplitBrainDetector \<Rightarrow> SplitBrainDetector" where
  "silent_run ts = detect_run (map (Pair silent) ts)"

lemma silent_run_Nil [simp]: "silent_run [] sbd = sbd"
  by (simp add: silent_run_def detect_run_def)

lemma silent_run_snoc [simp]: "silent_run (ts @ [t]) sbd = detect silent (fst t) (snd t) (silent_run ts sbd)"
  by (simp add: silent_run_def detect_run_def case_prod_beta)

lemma update_False_filter: "length (filter snd (AList.update k False al)) \<le> length (filter snd al)"
  by (induction al) auto

lemma checkNode_silent_count:
  "length (filter snd (sb_reachableNodes (checkNode silent now n sbd))) \<le> length (filter snd (sb_reachableNodes sbd))"
  by (simp add: checkNode_def Let_def update_False_filter)

lemma checkNodes_silent_count:
  "length (filter snd (sb_reachableNodes (checkNodes silent now sbd))) \<le> length (filter snd (sb_reachableNodes sbd))"
proof -
  have "length (filter snd (sb_reachableNodes (fold (checkNode silent now) ns sbd))) \<le> length (filter snd (sb_reachableNodes sbd))" for ns
    by (induction ns arbitrary: sbd) (auto intro: order_trans checkNode_silent_count)
  then show ?thesis
    by (simp add: checkNodes_def)
qed

lemma silent_no_quorum:
  assumes "\<not> hasQuorum sbd"
  shows "\<not> hasQuorum (checkNodes silent now sbd)"
  using assms checkNodes_silent_count [of now sbd] by (simp add: hasQuorum_def)

lemma evaluate_quorum [simp]: "hasQuorum (evaluatePartitionState now sbd) = hasQuorum sbd"
  by (simp add: hasQuorum_def)
















lemma sb_reachable_detect:
  assumes "sb_reachable sbd"
  shows "sb_reachable (detect get now now' sbd)"
  unfolding detect_def using assms by (blast intro: sb_next sb_check sb_evaluate)

lemma sb_reachable_run:
  assumes "sb_reachable sbd"
  shows "sb_reachable (detect_run ps sbd)"
  using assms unfolding detect_run_def
  by (induction ps arbitrary: sbd) (simp_all add: sb_reachable_detect case_prod_beta)

lemma silent_partitioned:
  assumes "sb_state sbd = PartitionStatePartitioned" "\<not> sb_fenced sbd" "\<not> hasQuorum sbd"
  shows "sb_state (silent_run ts sbd) = PartitionStatePartitioned \<and> \<not> sb_fenced (silent_run ts sbd) \<and> \<not> hasQuorum (silent_run ts sbd)"
proof (induction ts rule: rev_induct)
  case (snoc t ts)
  then show ?case
    using silent_no_quorum [of "silent_run ts sbd" "fst t"]
    by (simp add: detect_def) (simp add: evaluatePartitionState_def Let_def)
qed (simp add: assms)


section \<open>Properties\<close>

text \<open>A node of a cluster of two, for the examples.\<close>

definition sb_peer :: NodeInfo where
  "sb_peer = \<lparr>ni_ID = ''b'', ni_Address = ''10.0.0.2'', ni_LastSeen = 1, ni_State = ''active'', ni_SessionCount = 0,
     ni_PartitionID = [], ni_JoinedAt = 0, ni_Version = [], ni_Capabilities = [], ni_Healthy = True,
     ni_FencedByNode = [], ni_FencedAt = 0\<rparr>"

definition sb_pair :: SplitBrainDetector where
  "sb_pair = RegisterNode 1 sb_peer (NewSplitBrainDetector ''a'' True None)"




text \<open>In every state a detector can get into, whatever the order of registrations and passes, it is fenced exactly when it reports the
  state \<open>fenced\<close>, and the reachable and the unreachable nodes of its statistics add up to the total.\<close>

lemma split_brain_stats:
  assumes "sb_reachable sbd"
  shows "(ss_IsFenced (SplitBrain_GetStats now sbd) \<longleftrightarrow> ss_State (SplitBrain_GetStats now sbd) = ''fenced'') \<and>
    ss_ReachableNodes (SplitBrain_GetStats now sbd) + ss_UnreachableNodes (SplitBrain_GetStats now sbd)
      = ss_TotalNodes (SplitBrain_GetStats now sbd)"
proof -
  have inv: "sb_inv sbd"
    by (rule sb_reachable_inv [OF assms])
  have "length (sb_reachableNodes sbd) = card (fst ` set (sb_reachableNodes sbd))"
    using inv distinct_card [of "map fst (sb_reachableNodes sbd)"] by (simp add: sb_inv_def)
  also have "\<dots> = length (sb_knownNodes sbd)"
    using inv distinct_card [of "map fst (sb_knownNodes sbd)"] by (simp add: sb_inv_def)
  finally have "length (filter snd (sb_reachableNodes sbd)) + length (filter (Not \<circ> snd) (sb_reachableNodes sbd))
      = length (sb_knownNodes sbd)"
    using sum_length_filter_compl [of snd "sb_reachableNodes sbd"] by (simp add: comp_def)
  then show ?thesis
    using inv by (cases "sb_state sbd") (simp_all add: SplitBrain_GetStats_def sb_inv_def)
qed




text \<open>A node that loses its quorum again while it recovers is not fenced, although fencing is on: it goes back to \<open>partitioned\<close>
  without the call that fences, and stays unfenced for as long as the silence lasts.\<close>

lemma relapsed_node_not_fenced:
  assumes "sb_reachable sbd" "sb_state sbd = PartitionStateRecovering" "\<not> hasQuorum (checkNodes silent (fst t) sbd)"
  shows "sb_state (silent_run (t # ts) sbd) = PartitionStatePartitioned \<and> \<not> sb_fenced (silent_run (t # ts) sbd)
    \<and> \<not> hasQuorum (silent_run (t # ts) sbd)"
proof -
  let ?s = "detect silent (fst t) (snd t) sbd"
  have "\<not> sb_fenced sbd"
    using sb_reachable_inv [OF assms(1)] assms(2) by (simp add: sb_inv_def)
  then have "sb_state ?s = PartitionStatePartitioned" "\<not> sb_fenced ?s" "\<not> hasQuorum ?s"
    using assms(2,3) by (simp_all add: detect_def) (simp_all add: evaluatePartitionState_def Let_def)
  then have "sb_state (silent_run ts ?s) = PartitionStatePartitioned \<and> \<not> sb_fenced (silent_run ts ?s) \<and> \<not> hasQuorum (silent_run ts ?s)"
    by (rule silent_partitioned)
  then show ?thesis
    by (simp add: silent_run_def detect_run_def case_prod_beta)
qed

text \<open>The pair is cut off and fenced, hears its peer once, and misses three heartbeats within the grace period.\<close>

definition sb_relapse :: SplitBrainDetector where
  "sb_relapse = detect_run [(silent, 2, 2), (silent, 3, 3), (silent, 4, 4), (silent, 5, 5), (\<lambda>_. Heartbeat 6, 6, 6),
     (silent, 7, 7), (silent, 8, 8)] sb_pair"

end
