(* ===== verification/RTCP.thy ===== *)
theory RTCP
  imports Karl_Prelude Go_Float "HOL-Library.AList"
begin

unbundle bit_operations_syntax

text \<open>
  RTCP sessions, \<^verbatim>\<open>internal/rtcp_handler.go\<close>: receiver statistics, reports and NTP time.

  Packets of the pion library are the datatype \<open>rtcp_packet\<close> with the fields the code reads and writes; parsing bytes into
  them is the parameter \<open>unmarshal\<close>. Sending gives the packets that are handed to the encoder; a connection is only set or
  not. The random factor of the report interval is a parameter. A signed 32-bit field is a word read with \<open>sint\<close>. A
  conversion from \<^verbatim>\<open>float64\<close> to an unsigned integer keeps the low bits of the truncated value, which agrees with Go
  wherever Go defines the result. The Prometheus observations and the log lines are left out.
\<close>

section \<open>Configuration and sessions\<close>

record RTCPConfig =
  rcfg_Enabled :: bool
  rcfg_Interval :: int
  rcfg_ReducedSize :: bool
  rcfg_MuxEnabled :: bool

record RTCPInternalConfig =
  ric_Enabled :: bool
  ric_Interval :: duration
  ric_ReducedSize :: bool
  ric_MuxEnabled :: bool

definition ToRTCPInternalConfig :: "RTCPConfig option \<Rightarrow> RTCPInternalConfig" where
  "ToRTCPInternalConfig cfg =
     (case cfg of
        None \<Rightarrow> \<lparr>ric_Enabled = True, ric_Interval = 5 * second, ric_ReducedSize = False, ric_MuxEnabled = False\<rparr>
      | Some c \<Rightarrow> \<lparr>ric_Enabled = rcfg_Enabled c, ric_Interval = wrap64 (rcfg_Interval c * second),
                   ric_ReducedSize = rcfg_ReducedSize c, ric_MuxEnabled = rcfg_MuxEnabled c\<rparr>)"

record RTCPSessionHandler =
  rs_ssrc :: u32
  rs_cname :: string
  rs_conn :: bool
  rs_remoteAddr :: bool
  rs_clockRate :: u32
  rs_packetsSent :: u32
  rs_octetsSent :: u32
  rs_lastSRNTP :: u64
  rs_lastSRTime :: gtime
  rs_packetsRecv :: u32
  rs_packetsLost :: u32
  rs_lastSeq :: u16
  rs_highestSeq :: u16
  rs_seqCycles :: u32
  rs_jitter :: rat
  rs_lastSRRecvNTP :: u64
  rs_lastSRRecvTime :: gtime
  rs_lastArrivalTime :: gtime
  rs_lastTimestamp :: u32
  rs_rtt :: duration
  rs_fractionLost :: u8

definition NewRTCPSessionHandler :: "u32 \<Rightarrow> string \<Rightarrow> u32 \<Rightarrow> RTCPSessionHandler" where
  "NewRTCPSessionHandler ssrc cname clockRate =
     \<lparr>rs_ssrc = ssrc, rs_cname = cname, rs_conn = False, rs_remoteAddr = False, rs_clockRate = clockRate,
      rs_packetsSent = 0, rs_octetsSent = 0, rs_lastSRNTP = 0, rs_lastSRTime = 0, rs_packetsRecv = 0, rs_packetsLost = 0,
      rs_lastSeq = 0, rs_highestSeq = 0, rs_seqCycles = 0, rs_jitter = 0, rs_lastSRRecvNTP = 0, rs_lastSRRecvTime = 0,
      rs_lastArrivalTime = 0, rs_lastTimestamp = 0, rs_rtt = 0, rs_fractionLost = 0\<rparr>"

record RTCPHandler =
  rh_config :: RTCPInternalConfig
  rh_sessions :: "(string \<times> RTCPSessionHandler) list"
  rh_running :: bool
  rh_closed :: bool

definition NewRTCPHandler :: "RTCPInternalConfig option \<Rightarrow> RTCPHandler" where
  "NewRTCPHandler config =
     (let c = (case config of None \<Rightarrow> ToRTCPInternalConfig None | Some c \<Rightarrow> c);
          c' = (if ric_Interval c = 0 then c\<lparr>ric_Interval := 5 * second\<rparr> else c)
      in \<lparr>rh_config = c', rh_sessions = [], rh_running = False, rh_closed = False\<rparr>)"

definition NewRTCPHandlerFromConfig :: "RTCPConfig option \<Rightarrow> RTCPHandler" where
  "NewRTCPHandlerFromConfig config = NewRTCPHandler (Some (ToRTCPInternalConfig config))"

text \<open>\<open>rh_closed\<close> says that the stop channel is closed; closing it a second time panics. The report loop runs while the handler is
  running and the channel is open.\<close>

definition RTCP_Start :: "RTCPHandler \<Rightarrow> RTCPHandler" where
  "RTCP_Start h = (if rh_running h \<or> \<not> ric_Enabled (rh_config h) then h else h\<lparr>rh_running := True\<rparr>)"

definition RTCP_Stop :: "RTCPHandler \<Rightarrow> RTCPHandler option" where
  "RTCP_Stop h = (if \<not> rh_running h then Some h else if rh_closed h then None else Some (h\<lparr>rh_running := False, rh_closed := True\<rparr>))"

definition AddSession :: "string \<Rightarrow> RTCPSessionHandler \<Rightarrow> RTCPHandler \<Rightarrow> RTCPHandler" where
  "AddSession sessionID handler h = h\<lparr>rh_sessions := AList.update sessionID handler (rh_sessions h)\<rparr>"

definition RemoveSession :: "string \<Rightarrow> RTCPHandler \<Rightarrow> RTCPHandler" where
  "RemoveSession sessionID h = h\<lparr>rh_sessions := AList.delete sessionID (rh_sessions h)\<rparr>"

definition calculateInterval :: "rat \<Rightarrow> RTCPHandler \<Rightarrow> duration" where
  "calculateInterval random h =
     (let interval = ric_Interval (rh_config h) in
      if rh_sessions h \<noteq> []
      then let minInterval = (if ric_ReducedSize (rh_config h) then 360 * millisecond else 5 * second);
               interval' = trunc (fl (fl (of_int interval) * fl (1 / 2 + random)))
           in if interval' < minInterval then minInterval else interval'
      else interval)"

definition SetConnection :: "bool \<Rightarrow> bool \<Rightarrow> RTCPSessionHandler \<Rightarrow> RTCPSessionHandler" where
  "SetConnection conn remoteAddr s = s\<lparr>rs_conn := conn, rs_remoteAddr := remoteAddr\<rparr>"

definition UpdateSenderStats :: "u32 \<Rightarrow> u32 \<Rightarrow> RTCPSessionHandler \<Rightarrow> RTCPSessionHandler" where
  "UpdateSenderStats packetsSent octetsSent s = s\<lparr>rs_packetsSent := packetsSent, rs_octetsSent := octetsSent\<rparr>"

section \<open>Receiver statistics\<close>

definition trackSeq :: "u16 \<Rightarrow> RTCPSessionHandler \<Rightarrow> RTCPSessionHandler" where
  "trackSeq seq s =
     (let diff = uint seq - uint (rs_highestSeq s) in
      if diff > 0 then s\<lparr>rs_highestSeq := seq\<rparr>
      else if diff < - 32768 then s\<lparr>rs_seqCycles := rs_seqCycles s + 1, rs_highestSeq := seq\<rparr>
      else s)"

definition countLost :: "RTCPSessionHandler \<Rightarrow> RTCPSessionHandler" where
  "countLost s =
     (let expectedSeq = rs_highestSeq s + ucast (rs_seqCycles s * 65536);
          expected = ucast expectedSeq - ucast (rs_lastSeq s) + 1;
          received = rs_packetsRecv s + 1;
          lost = expected - received
      in s\<lparr>rs_packetsLost := (if sint lost < 0 then 0 else lost)\<rparr>)"

definition updateJitter :: "u32 \<Rightarrow> gtime \<Rightarrow> RTCPSessionHandler \<Rightarrow> RTCPSessionHandler" where
  "updateJitter timestamp arrivalTime s =
     (if IsZero (rs_lastArrivalTime s) then s\<lparr>rs_lastArrivalTime := arrivalTime, rs_lastTimestamp := timestamp\<rparr>
      else
        let arrivalDiff = fl (Seconds (arrivalTime - rs_lastArrivalTime s) * of_int (uint (rs_clockRate s)));
            timestampDiff = of_int (sint (timestamp - rs_lastTimestamp s));
            d = \<bar>fl (arrivalDiff - timestampDiff)\<bar>
        in s\<lparr>rs_jitter := fl (rs_jitter s + fl (fl (d - rs_jitter s) / 16)),
             rs_lastArrivalTime := arrivalTime, rs_lastTimestamp := timestamp\<rparr>)"

definition UpdateReceiverStats :: "u16 \<Rightarrow> u32 \<Rightarrow> gtime \<Rightarrow> RTCPSessionHandler \<Rightarrow> RTCPSessionHandler" where
  "UpdateReceiverStats seq timestamp arrivalTime s =
     (let s1 = (if rs_packetsRecv s = 0 then s\<lparr>rs_highestSeq := seq, rs_lastSeq := seq\<rparr> else countLost (trackSeq seq s));
          s2 = s1\<lparr>rs_packetsRecv := rs_packetsRecv s1 + 1\<rparr>
      in updateJitter timestamp arrivalTime s2)"

section \<open>Time\<close>

definition toNTPTime :: "gtime \<Rightarrow> u64" where
  "toNTPTime t =
     (let secs = word_of_int (Unix t) + 2208988800; frac = word_of_int (t mod second) * 4294967296 div 1000000000
      in push_bit 32 secs OR frac)"

definition FromNTPTime :: "u64 \<Rightarrow> gtime" where
  "FromNTPTime ntp =
     (let secs = sint (drop_bit 32 ntp - 2208988800);
          frac = fl (of_int (uint (ntp AND 0xFFFFFFFF)) / 2 ^ 32);
          nsec = trunc (fl (frac * 10 ^ 9))
      in time_Unix secs nsec)"

text \<open>Both divisions panic on zero; the second divisor is zero for clock rates above a billion.\<close>

definition calculateRTPTimestamp :: "gtime \<Rightarrow> RTCPSessionHandler \<Rightarrow> u32 option" where
  "calculateRTPTimestamp t s =
     (let rate = uint (rs_clockRate s); elapsed = wrap64 (UnixNano t) in
      if rate = 0 \<or> second div rate = 0 then None
      else let unit = second div rate in Some (word_of_int (if 0 \<le> elapsed then elapsed div unit else - ((- elapsed) div unit))))"

section \<open>Reports\<close>

record ReceptionReport =
  rr_SSRC :: u32
  rr_FractionLost :: u8
  rr_TotalLost :: u32
  rr_LastSequenceNumber :: u32
  rr_Jitter :: u32
  rr_LastSenderReport :: u32
  rr_Delay :: u32

datatype rtcp_packet =
    SenderReport u32 u64 u32 u32 u32 "ReceptionReport list"
  | ReceiverReport u32 "ReceptionReport list"
  | Goodbye "u32 list" string
  | SourceDescription "(u32 \<times> string) list"
  | OtherPacket

definition updateFromReceptionReport :: "gtime \<Rightarrow> ReceptionReport \<Rightarrow> RTCPSessionHandler \<Rightarrow> RTCPSessionHandler" where
  "updateFromReceptionReport now report s =
     (if rr_SSRC report \<noteq> rs_ssrc s then s
      else
        let s1 = s\<lparr>rs_fractionLost := rr_FractionLost report\<rparr> in
        if rr_LastSenderReport report \<noteq> 0 \<and> rr_Delay report \<noteq> 0 \<and> \<not> IsZero (rs_lastSRTime s1)
        then let dlsr = uint (rr_Delay report) * second div 65536
             in s1\<lparr>rs_rtt := (now - rs_lastSRTime s1) - dlsr\<rparr>
        else s1)"

primrec processPacket :: "gtime \<Rightarrow> rtcp_packet \<Rightarrow> RTCPSessionHandler \<Rightarrow> RTCPSessionHandler" where
  "processPacket now (SenderReport ssrc ntp rtp pk oc reports) s =
     fold (updateFromReceptionReport now) reports (s\<lparr>rs_lastSRRecvNTP := ntp, rs_lastSRRecvTime := now\<rparr>)"
| "processPacket now (ReceiverReport ssrc reports) s = fold (updateFromReceptionReport now) reports s"
| "processPacket now (Goodbye sources reason) s = s"
| "processPacket now (SourceDescription chunks) s = s"
| "processPacket now OtherPacket s = s"

definition ProcessRTCP ::
  "(u8 list \<Rightarrow> string + rtcp_packet list) \<Rightarrow> gtime \<Rightarrow> u8 list \<Rightarrow> RTCPSessionHandler \<Rightarrow> string option \<times> RTCPSessionHandler" where
  "ProcessRTCP unmarshal now data s =
     (case unmarshal data of Inl e \<Rightarrow> (Some e, s) | Inr packets \<Rightarrow> (None, fold (processPacket now) packets s))"

definition buildReceptionReport :: "gtime \<Rightarrow> RTCPSessionHandler \<Rightarrow> ReceptionReport" where
  "buildReceptionReport now s =
     (let fractionLost =
            (if sint (rs_packetsLost s) > 0 \<and> rs_packetsRecv s > 0
             then word_of_int (trunc (fl (fl (of_int (sint (rs_packetsLost s)) / of_int (uint (rs_packetsRecv s + rs_packetsLost s))) * 256)))
             else 0);
          seen = \<not> IsZero (rs_lastSRRecvTime s)
      in \<lparr>rr_SSRC = rs_ssrc s, rr_FractionLost = fractionLost, rr_TotalLost = rs_packetsLost s,
          rr_LastSequenceNumber = ucast (rs_highestSeq s) + rs_seqCycles s * 65536,
          rr_Jitter = word_of_int (trunc (rs_jitter s)),
          rr_LastSenderReport = (if seen then ucast (drop_bit 16 (rs_lastSRRecvNTP s)) else 0),
          rr_Delay = (if seen then word_of_int (trunc (fl (Seconds (now - rs_lastSRRecvTime s) * 65536))) else 0)\<rparr>)"

definition receptionReports :: "gtime \<Rightarrow> RTCPSessionHandler \<Rightarrow> ReceptionReport list" where
  "receptionReports now s = (if rs_packetsRecv s > 0 then [buildReceptionReport now s] else [])"

definition buildSenderReport :: "gtime \<Rightarrow> RTCPSessionHandler \<Rightarrow> (rtcp_packet \<times> RTCPSessionHandler) option" where
  "buildSenderReport now s =
     (let s1 = s\<lparr>rs_lastSRNTP := toNTPTime now, rs_lastSRTime := now\<rparr> in
      case calculateRTPTimestamp now s1 of
        None \<Rightarrow> None
      | Some rtp \<Rightarrow>
          Some (SenderReport (rs_ssrc s1) (toNTPTime now) rtp (rs_packetsSent s1) (rs_octetsSent s1) (receptionReports now s1), s1))"

definition buildReceiverReport :: "gtime \<Rightarrow> RTCPSessionHandler \<Rightarrow> rtcp_packet" where
  "buildReceiverReport now s = ReceiverReport (rs_ssrc s) (receptionReports now s)"

text \<open>The packets that are encoded and written, and the session afterwards; \<open>None\<close> when the code panics.\<close>

definition SendReport :: "gtime \<Rightarrow> RTCPSessionHandler \<Rightarrow> (rtcp_packet list \<times> RTCPSessionHandler) option" where
  "SendReport now s =
     (let sdes = SourceDescription [(rs_ssrc s, rs_cname s)] in
      if \<not> rs_conn s \<or> \<not> rs_remoteAddr s then Some ([], s)
      else if rs_packetsSent s > 0
      then (case buildSenderReport now s of None \<Rightarrow> None | Some (sr, s1) \<Rightarrow> Some ([sr, sdes], s1))
      else Some ([buildReceiverReport now s, sdes], s))"

text \<open>One report for each session, in the order of the range.\<close>

fun sendAll :: "gtime \<Rightarrow> (string \<times> RTCPSessionHandler) list \<Rightarrow> (rtcp_packet list \<times> (string \<times> RTCPSessionHandler) list) option" where
  "sendAll now [] = Some ([], [])"
| "sendAll now ((k, s) # rest) =
     (case SendReport now s of
        None \<Rightarrow> None
      | Some (ps, s') \<Rightarrow> (case sendAll now rest of None \<Rightarrow> None | Some (qs, rest') \<Rightarrow> Some (ps @ qs, (k, s') # rest')))"

definition sendReports :: "gtime \<Rightarrow> RTCPHandler \<Rightarrow> (rtcp_packet list \<times> RTCPHandler) option" where
  "sendReports now h =
     (case sendAll now (rh_sessions h) of None \<Rightarrow> None | Some (ps, ss) \<Rightarrow> Some (ps, h\<lparr>rh_sessions := ss\<rparr>))"

definition SendBye :: "string \<Rightarrow> RTCPSessionHandler \<Rightarrow> rtcp_packet list" where
  "SendBye reason s = (if \<not> rs_conn s \<or> \<not> rs_remoteAddr s then [] else [Goodbye [rs_ssrc s] reason])"

record RTCPStats =
  rst_SSRC :: u32
  rst_PacketsSent :: u32
  rst_OctetsSent :: u32
  rst_PacketsRecv :: u32
  rst_PacketsLost :: u32
  rst_FractionLost :: u8
  rst_Jitter :: "rat option"
  rst_RTT :: duration

text \<open>The jitter of a session with clock rate zero is not a number or infinite, here \<open>None\<close>.\<close>

definition RTCP_GetStats :: "RTCPSessionHandler \<Rightarrow> RTCPStats" where
  "RTCP_GetStats s =
     \<lparr>rst_SSRC = rs_ssrc s, rst_PacketsSent = rs_packetsSent s, rst_OctetsSent = rs_octetsSent s,
      rst_PacketsRecv = rs_packetsRecv s, rst_PacketsLost = rs_packetsLost s, rst_FractionLost = rs_fractionLost s,
      rst_Jitter = (if rs_clockRate s = 0 then None else Some (fl (rs_jitter s / of_int (uint (rs_clockRate s))))),
      rst_RTT = rs_rtt s\<rparr>"

section \<open>Raw packets\<close>

definition IsRTCPPacket :: "u8 list \<Rightarrow> bool" where
  "IsRTCPPacket data =
     (if length data < 4 then False
      else let version = drop_bit 6 (data ! 0) AND 3; payloadType = data ! 1
           in version = 2 \<and> payloadType \<ge> 200 \<and> payloadType \<le> 207)"

definition GetRTCPType :: "u8 list \<Rightarrow> u8" where
  "GetRTCPType data = (if length data < 2 then 0 else data ! 1)"

definition BuildCompactSR :: "u32 \<Rightarrow> u64 \<Rightarrow> u32 \<Rightarrow> u32 \<Rightarrow> u32 \<Rightarrow> u8 list" where
  "BuildCompactSR ssrc ntpTime rtpTime packets octets =
     [0x80, 200] @ be16 6 @ be32 ssrc @ be32 (ucast (drop_bit 32 ntpTime)) @ be32 (ucast ntpTime) @
     be32 rtpTime @ be32 packets @ be32 octets"

section \<open>Loss counting\<close>

lemma updateJitter_sel [simp]:
  "rs_packetsRecv (updateJitter ts t s) = rs_packetsRecv s" "rs_packetsLost (updateJitter ts t s) = rs_packetsLost s"
  "rs_lastSeq (updateJitter ts t s) = rs_lastSeq s" "rs_highestSeq (updateJitter ts t s) = rs_highestSeq s"
  "rs_seqCycles (updateJitter ts t s) = rs_seqCycles s"
  by (simp_all add: updateJitter_def Let_def)

lemma trackSeq_sel [simp]:
  "rs_packetsRecv (trackSeq seq s) = rs_packetsRecv s" "rs_lastSeq (trackSeq seq s) = rs_lastSeq s"
  by (simp_all add: trackSeq_def Let_def)

lemma countLost_sel [simp]:
  "rs_packetsRecv (countLost s) = rs_packetsRecv s" "rs_lastSeq (countLost s) = rs_lastSeq s"
  "rs_highestSeq (countLost s) = rs_highestSeq s" "rs_seqCycles (countLost s) = rs_seqCycles s"
  by (simp_all add: countLost_def Let_def)

text \<open>The cycles are multiplied by 65536 before they are cut to 16 bits, so they never count.\<close>

lemma cycles_vanish: "(ucast (c * 65536 :: u32) :: u16) = 0"
proof -
  have "(65536 :: u32) = 2 ^ 16" by simp
  then have "c * 65536 = push_bit 16 c" by (simp only: push_bit_eq_mult)
  then show ?thesis by (simp add: bit_eq_iff bit_simps)
qed

lemma sint_word_of_int_id:
  assumes "- 2147483648 \<le> v" "v < 2147483648"
  shows "sint (word_of_int v :: u32) = v"
  using assms by (simp only: sint_sbintrunc') (simp add: signed_take_bit_int_eq_self)

lemma countLost_value:
  assumes "uint (rs_packetsRecv s) < 2 ^ 30"
  shows "sint (rs_packetsLost (countLost s)) = max 0 (uint (rs_highestSeq s) - uint (rs_lastSeq s) - uint (rs_packetsRecv s))"
proof -
  let ?v = "uint (rs_highestSeq s) - uint (rs_lastSeq s) - uint (rs_packetsRecv s)"
  have b: "0 \<le> uint (rs_highestSeq s)" "uint (rs_highestSeq s) < 65536" "0 \<le> uint (rs_lastSeq s)" "uint (rs_lastSeq s) < 65536"
    "0 \<le> uint (rs_packetsRecv s)" "uint (rs_packetsRecv s) < 1073741824"
    using assms uint_lt2p [of "rs_highestSeq s"] uint_lt2p [of "rs_lastSeq s"] by simp_all
  have "(ucast (rs_highestSeq s) - ucast (rs_lastSeq s) + 1 - (rs_packetsRecv s + 1) :: u32) = word_of_int ?v"
    by simp
  moreover have "sint (word_of_int ?v :: u32) = ?v"
    by (rule sint_word_of_int_id) (use b in linarith)+
  ultimately show ?thesis
    by (simp add: countLost_def Let_def cycles_vanish max_def)
qed

definition receive :: "(u16 \<times> u32 \<times> gtime) list \<Rightarrow> RTCPSessionHandler \<Rightarrow> RTCPSessionHandler" where
  "receive ps s = fold (\<lambda>(seq, ts, t). UpdateReceiverStats seq ts t) ps s"

lemma receive_snoc: "receive (ps @ [p]) s = UpdateReceiverStats (fst p) (fst (snd p)) (snd (snd p)) (receive ps s)"
  by (simp add: receive_def case_prod_beta)

text \<open>After the cycle counter moves on, loss shows only once the highest number exceeds the first by more than was received.\<close>

lemma loss_hidden_after_wrap:
  assumes "0 < rs_packetsRecv s" "uint (rs_packetsRecv s) < 2 ^ 30"
    and "rs_highestSeq (UpdateReceiverStats seq ts t s) < rs_lastSeq s"
  shows "rs_packetsLost (UpdateReceiverStats seq ts t s) = 0"
proof -
  have ne: "rs_packetsRecv s \<noteq> 0"
    using assms(1) by auto
  then have "rs_highestSeq (trackSeq seq s) < rs_lastSeq s"
    using assms(3) by (simp add: UpdateReceiverStats_def Let_def)
  then have "uint (rs_highestSeq (trackSeq seq s)) < uint (rs_lastSeq s)"
    by (simp add: word_less_def)
  then have "sint (rs_packetsLost (countLost (trackSeq seq s))) = 0"
    using countLost_value [of "trackSeq seq s"] assms(2) uint_ge_0 [of "rs_packetsRecv s"] by (simp add: max_def)
  then have "rs_packetsLost (countLost (trackSeq seq s)) = 0"
    by (metis signed_0 signed_word_eqI)
  then show ?thesis
    using ne by (simp add: UpdateReceiverStats_def Let_def)
qed

lemma strict_sorted_length:
  assumes "sorted_wrt (<) (xs :: u16 list)" "xs \<noteq> []"
  shows "int (length xs) \<le> uint (last xs) - uint (hd xs) + 1"
  using assms
proof (induction xs rule: rev_induct)
  case (snoc x xs)
  show ?case
  proof (cases "xs = []")
    case False
    then have "last xs < x"
      using snoc.prems by (simp add: sorted_wrt_append)
    then have "uint (last xs) < uint x"
      by (simp add: word_less_def)
    then show ?thesis
      using snoc False by (simp add: sorted_wrt_append)
  qed simp
qed simp

text \<open>C29. On a stream whose sequence numbers rise and do not wrap, the receiver statistics are exact: all packets are counted, the
  highest number is that of the last packet, and the loss is the number of missing sequence numbers.\<close>

theorem in_order_loss_exact:
  assumes "sorted_wrt (<) (map fst ps)" "ps \<noteq> []"
  shows "uint (rs_packetsRecv (receive ps (NewRTCPSessionHandler ssrc cname rate))) = int (length ps)
    \<and> rs_highestSeq (receive ps (NewRTCPSessionHandler ssrc cname rate)) = fst (last ps)
    \<and> rs_lastSeq (receive ps (NewRTCPSessionHandler ssrc cname rate)) = fst (hd ps)
    \<and> rs_seqCycles (receive ps (NewRTCPSessionHandler ssrc cname rate)) = 0
    \<and> sint (rs_packetsLost (receive ps (NewRTCPSessionHandler ssrc cname rate)))
      = uint (fst (last ps)) - uint (fst (hd ps)) + 1 - int (length ps)"
  using assms
proof (induction ps rule: rev_induct)
  case (snoc p ps)
  let ?s = "receive ps (NewRTCPSessionHandler ssrc cname rate)"
  show ?case
  proof (cases "ps = []")
    case True
    then show ?thesis
      by (simp add: receive_def case_prod_beta UpdateReceiverStats_def NewRTCPSessionHandler_def Let_def)
  next
    case False
    have sorted: "sorted_wrt (<) (map fst ps)"
      using snoc.prems by (simp add: sorted_wrt_append)
    note IH = snoc.IH [OF sorted False]
    have up: "fst (last ps) < fst p"
      using snoc.prems(1) False by (simp add: sorted_wrt_append)
    have len: "int (length (ps @ [p])) \<le> uint (fst p) - uint (fst (hd ps)) + 1"
      using strict_sorted_length [of "map fst (ps @ [p])"] snoc.prems(1) False by (simp add: hd_map)
    have small: "int (length ps) < 65536"
    proof -
      have "uint (fst p) < 65536"
        using uint_lt2p [of "fst p"] by simp
      moreover have "int (length ps) \<le> uint (fst p) - uint (fst (hd ps))"
        using len by simp
      ultimately show ?thesis
        using uint_ge_0 [of "fst (hd ps)"] by linarith
    qed
    have recv: "uint (rs_packetsRecv ?s) = int (length ps)" "rs_packetsRecv ?s \<noteq> 0"
      using IH False by auto
    have tr: "trackSeq (fst p) ?s = ?s\<lparr>rs_highestSeq := fst p\<rparr>"
      using up IH by (simp add: trackSeq_def word_less_def)
    have "uint (rs_packetsRecv ?s + 1) = int (length ps) + 1"
      using recv(1) small by (simp add: uint_word_ariths)
    moreover have "sint (rs_packetsLost (countLost (trackSeq (fst p) ?s))) = uint (fst p) - uint (fst (hd ps)) + 1 - int (length (ps @ [p]))"
      using countLost_value [of "trackSeq (fst p) ?s"] recv(1) small len IH by (simp add: tr)
    ultimately show ?thesis
      using recv(2) IH False by (simp add: receive_snoc UpdateReceiverStats_def Let_def) (simp add: tr)
  qed
qed simp

theorem in_order_loss_exact_witness:
  "sint (rs_packetsLost (receive [(10, 0, 1), (11, 160, 2), (15, 800, 3)] (NewRTCPSessionHandler 7 ''c'' 8000))) = 3"
  using in_order_loss_exact [of "[(10, 0, 1), (11, 160, 2), (15, 800, 3)]" 7 "''c''" 8000] by simp

section \<open>NTP time\<close>

lemma ntp_split:
  assumes "take_bit 32 a = (a :: u64)" "take_bit 32 b = b"
  shows "drop_bit 32 (push_bit 32 a OR b) = a" "(push_bit 32 a OR b) AND 0xFFFFFFFF = b"
proof -
  have a: "bit a n \<Longrightarrow> n < 32" for n using assms(1) by (metis bit_take_bit_iff)
  have b: "bit b n \<Longrightarrow> n < 32" for n using assms(2) by (metis bit_take_bit_iff)
  show "drop_bit 32 (push_bit 32 a OR b) = a"
    by (rule bit_word_eqI) (auto simp: bit_simps dest: a b)
  have m: "(0xFFFFFFFF :: u64) = mask 32" by (simp add: mask_eq_exp_minus_1)
  show "(push_bit 32 a OR b) AND 0xFFFFFFFF = b"
    unfolding m by (rule bit_word_eqI) (auto simp: bit_simps dest: b)
qed

lemma take_bit_small: "0 \<le> v \<Longrightarrow> v < 4294967296 \<Longrightarrow> take_bit 32 (word_of_int v :: u64) = word_of_int v"
  by transfer (simp add: take_bit_int_eq_self)

text \<open>The fraction read back in floating point is less than a nanosecond below the nanoseconds it was made from.\<close>

lemma ntp_fraction:
  assumes "0 \<le> n" "n < 10 ^ 9"
  shows "trunc (fl (fl (of_int (n * 4294967296 div 1000000000) / 2 ^ 32) * 10 ^ 9)) \<in> {n - 1, n}"
proof -
  define f :: rat where "f = of_int (n * 4294967296 div 1000000000) / 2 ^ 32"
  define g where "g = fl (fl f * 10 ^ 9)"
  have d: "n * 4294967296 - 1000000000 < (n * 4294967296 div 1000000000) * 1000000000"
    "(n * 4294967296 div 1000000000) * 1000000000 \<le> n * 4294967296"
    using div_mult_mod_eq [of "n * 4294967296" 1000000000] pos_mod_bound [of 1000000000 "n * 4294967296"]
      pos_mod_sign [of 1000000000 "n * 4294967296"] by linarith+
  have "(of_int (n * 4294967296 - 1000000000) :: rat) < of_int ((n * 4294967296 div 1000000000) * 1000000000)"
    "(of_int ((n * 4294967296 div 1000000000) * 1000000000) :: rat) \<le> of_int (n * 4294967296)"
    using d by (simp_all only: of_int_less_iff of_int_le_iff)
  then have f: "of_int n - 1 / 4 < f * 10 ^ 9" "f * 10 ^ 9 \<le> of_int n"
    unfolding f_def by simp_all
  have f0: "0 \<le> f" using assms by (simp add: f_def)
  have N: "(of_int n :: rat) \<le> 10 ^ 9" using assms by simp
  have l: "f * (1 - 1 / 2 ^ 53) \<le> fl f" "fl f \<le> f * (1 + 1 / 2 ^ 53)" "0 \<le> fl f"
    using fl_lower [OF f0] fl_bounds [OF f0] by simp_all
  have h0: "0 \<le> fl f * 10 ^ 9" using l(3) by simp
  have h: "fl f * 10 ^ 9 * (1 - 1 / 2 ^ 53) \<le> g" "g \<le> fl f * 10 ^ 9 * (1 + 1 / 2 ^ 53)" "0 \<le> g"
    using fl_lower [OF h0] fl_bounds [OF h0] by (simp_all add: g_def)
  have "of_int n - 1 < g" "g < of_int n + 1"
    using f l h N by (simp_all add: field_simps)
  then have "\<lfloor>g\<rfloor> \<in> {n - 1, n}" by (simp add: floor_eq_iff) linarith
  then show ?thesis using h(3) unfolding g_def f_def by (simp add: trunc_def)
qed

text \<open>C30. Converting a time to NTP and back loses at most one nanosecond, from 1970 to the end of the NTP era in 2036.\<close>

theorem ntp_roundtrip:
  assumes "0 \<le> Unix t" "Unix t + 2208988800 < 2 ^ 32"
  shows "FromNTPTime (toNTPTime t) \<in> {t - 1, t}"
proof -
  let ?S = "Unix t" and ?n = "t mod second"
  let ?f = "?n * 4294967296 div 1000000000"
  have n: "0 \<le> ?n" "?n < 10 ^ 9" by simp_all
  have S: "0 \<le> ?S" "?S < 2085978496" using assms by simp_all
  have f: "0 \<le> ?f" "?f < 4294967296" using n by auto
  have "(word_of_int ?n * 4294967296 div 1000000000 :: u64) = word_of_int ?f"
    using n by (simp add: word_div_def uint_word_ariths uint_word_of_int)
  moreover have "(word_of_int ?S + 2208988800 :: u64) = word_of_int (?S + 2208988800)" by simp
  ultimately have ntp: "toNTPTime t = push_bit 32 (word_of_int (?S + 2208988800)) OR word_of_int ?f"
    unfolding toNTPTime_def Let_def by (simp only:)
  have parts: "drop_bit 32 (toNTPTime t) = word_of_int (?S + 2208988800)" "toNTPTime t AND 0xFFFFFFFF = word_of_int ?f"
    unfolding ntp by (rule ntp_split; rule take_bit_small; use S f in linarith)+
  have s: "sint (word_of_int (?S + 2208988800) - 2208988800 :: u64) = ?S"
    using S by (simp add: sint_sbintrunc' signed_take_bit_int_eq_self)
  have u: "uint (word_of_int ?f :: u64) = ?f"
    using f by (simp add: uint_word_of_int)
  have "FromNTPTime (toNTPTime t) = time_Unix ?S (trunc (fl (fl (of_int ?f / 2 ^ 32) * 10 ^ 9)))"
    unfolding FromNTPTime_def Let_def parts s u ..
  moreover have "time_Unix ?S (?n - 1) = t - 1"
    using time_Unix_Unix [of t] by (simp add: time_Unix_def)
  ultimately show ?thesis
    using ntp_fraction [OF n] time_Unix_Unix [of t] by auto
qed

theorem ntp_roundtrip_witness: "FromNTPTime (toNTPTime 63835596800123456789) \<in> {63835596800123456788, 63835596800123456789}"
  using ntp_roundtrip [of 63835596800123456789] by (simp add: Unix_def)

section \<open>Faults\<close>

text \<open>A handler that was stopped cannot be used again: the second stop closes a closed channel.\<close>

lemma restart_stop_panics:
  assumes "rh_running h" "ric_Enabled (rh_config h)" "RTCP_Stop h = Some h'"
  shows "RTCP_Stop (RTCP_Start h') = None"
  using assms by (auto simp: RTCP_Stop_def RTCP_Start_def split: if_splits)

text \<open>A packet that arrives late across a wrap makes the cycle count twice.\<close>

lemma late_packet_counts_cycle_twice:
  assumes "rs_highestSeq s = 65535"
  shows "rs_seqCycles (trackSeq 1 (trackSeq 65535 (trackSeq 0 s))) = rs_seqCycles s + 2"
  using assms by (simp add: trackSeq_def Let_def)

text \<open>A clock rate of zero panics the report of a session that has sent packets.\<close>

lemma zero_clock_rate_panics:
  assumes "rs_clockRate s = 0" "rs_packetsSent s > 0" "rs_conn s" "rs_remoteAddr s"
  shows "SendReport now s = None"
  using assms by (simp add: SendReport_def buildSenderReport_def calculateRTPTimestamp_def Let_def)

text \<open>What \<open>BuildCompactSR\<close> makes is recognised as an RTCP packet, a sender report of 28 bytes.\<close>

lemma BuildCompactSR_recognised:
  "IsRTCPPacket (BuildCompactSR ssrc ntp rtp pk oc) \<and> GetRTCPType (BuildCompactSR ssrc ntp rtp pk oc) = 200
    \<and> length (BuildCompactSR ssrc ntp rtp pk oc) = 28"
  by (simp add: IsRTCPPacket_def GetRTCPType_def BuildCompactSR_def)

end
