(* ===== verification/Authentication.thy ===== *)
theory Authentication
  imports Karl_Prelude "HOL-Library.AList"
begin

text \<open>
  Authentication of HTTP requests, \<^verbatim>\<open>internal/authentication.go\<close>: API keys, basic authentication, client certificates and the
  two middlewares.

  The parameter \<open>sha\<close> is the SHA-256 digest in hexadecimal; random bytes are arguments. A request is what \<^verbatim>\<open>net/http\<close> gives
  of it: the header and query lookups and the peer certificates (\<open>None\<close> without TLS). Of a certificate the model has the
  fields the code reads, with the fingerprint as a field. The key store is an association list in the order in which the
  range visits it. The error texts are constructors.
\<close>

section \<open>Text encodings\<close>

definition b64_digit :: "char \<Rightarrow> nat option" where
  "b64_digit c =
     (let n = of_char c :: nat in
      if 65 \<le> n \<and> n \<le> 90 then Some (n - 65)
      else if 97 \<le> n \<and> n \<le> 122 then Some (n - 71)
      else if 48 \<le> n \<and> n \<le> 57 then Some (n + 4)
      else if c = CHR ''+'' then Some 62
      else if c = CHR ''/'' then Some 63
      else None)"

definition b64_bytes :: "nat \<Rightarrow> nat \<Rightarrow> nat \<Rightarrow> nat \<Rightarrow> string" where
  "b64_bytes a b c d =
     (let v = a * 262144 + b * 4096 + c * 64 + d
      in [char_of (v div 65536), char_of (v div 256 mod 256), char_of (v mod 256)])"

text \<open>\<^verbatim>\<open>base64.StdEncoding.DecodeString\<close>, after line breaks have been removed: groups of four digits, the last one padded.\<close>

fun b64_groups :: "string \<Rightarrow> string option" where
  "b64_groups [] = Some []"
| "b64_groups (a # b # c # d # rest) =
     (case (b64_digit a, b64_digit b) of
        (Some x, Some y) \<Rightarrow>
          if c = CHR ''='' \<and> d = CHR ''='' \<and> rest = [] then Some (take 1 (b64_bytes x y 0 0))
          else (case b64_digit c of
              None \<Rightarrow> None
            | Some z \<Rightarrow>
                if d = CHR ''='' \<and> rest = [] then Some (take 2 (b64_bytes x y z 0))
                else (case (b64_digit d, b64_groups rest) of
                    (Some w, Some out) \<Rightarrow> Some (b64_bytes x y z w @ out)
                  | _ \<Rightarrow> None))
      | _ \<Rightarrow> None)"
| "b64_groups _ = None"

definition StdEncoding_Decode :: "string \<Rightarrow> string option" where
  "StdEncoding_Decode s = b64_groups (filter (\<lambda>c. c \<noteq> CHR 0x0A \<and> c \<noteq> CHR 0x0D) s)"

definition b64url_char :: "nat \<Rightarrow> char" where
  "b64url_char n =
     (if n < 26 then char_of (n + 65) else if n < 52 then char_of (n + 71) else if n < 62 then char_of (n - 4)
      else if n = 62 then CHR ''-'' else CHR ''_'')"

text \<open>\<^verbatim>\<open>base64.URLEncoding.EncodeToString\<close>.\<close>

fun URLEncoding_Encode :: "u8 list \<Rightarrow> string" where
  "URLEncoding_Encode [] = []"
| "URLEncoding_Encode [a] =
     (let v = unat a * 65536 in [b64url_char (v div 262144), b64url_char (v div 4096 mod 64)] @ ''=='')"
| "URLEncoding_Encode [a, b] =
     (let v = unat a * 65536 + unat b * 256
      in [b64url_char (v div 262144), b64url_char (v div 4096 mod 64), b64url_char (v div 64 mod 64)] @ ''='')"
| "URLEncoding_Encode (a # b # c # rest) =
     (let v = unat a * 65536 + unat b * 256 + unat c
      in [b64url_char (v div 262144), b64url_char (v div 4096 mod 64), b64url_char (v div 64 mod 64), b64url_char (v mod 64)]
         @ URLEncoding_Encode rest)"

definition hex_digit :: "nat \<Rightarrow> char" where
  "hex_digit n = (if n < 10 then char_of (n + 48) else char_of (n + 87))"

definition hex_EncodeToString :: "u8 list \<Rightarrow> string" where
  "hex_EncodeToString bs = concat (map (\<lambda>b. [hex_digit (unat b div 16), hex_digit (unat b mod 16)]) bs)"

definition TrimPrefix :: "string \<Rightarrow> string \<Rightarrow> string" where
  "TrimPrefix s p = (if take (length p) s = p then drop (length p) s else s)"

definition HasPrefix :: "string \<Rightarrow> string \<Rightarrow> bool" where
  "HasPrefix s p \<longleftrightarrow> take (length p) s = p"

section \<open>Users and configuration\<close>

datatype auth_error =
    ErrAuthenticationRequired | ErrInvalidCredentials | ErrTokenExpired | ErrInsufficientPermissions
  | ErrTokenInvalid | ErrAPIKeyNotFound | ErrAPIKeyRevoked | ErrCertificateInvalid | ErrCertificateNotAllowed | ErrRandom string

datatype AuthMethod = AuthMethodNone | AuthMethodAPIKey | AuthMethodJWT | AuthMethodMTLS | AuthMethodBasic | AuthMethodInternal

type_synonym Permission = string

abbreviation PermissionRead :: Permission where "PermissionRead \<equiv> ''read''"
abbreviation PermissionWrite :: Permission where "PermissionWrite \<equiv> ''write''"
abbreviation PermissionAdmin :: Permission where "PermissionAdmin \<equiv> ''admin''"
abbreviation PermissionRecording :: Permission where "PermissionRecording \<equiv> ''recording''"
abbreviation PermissionStatistics :: Permission where "PermissionStatistics \<equiv> ''statistics''"
abbreviation PermissionConfig :: Permission where "PermissionConfig \<equiv> ''config''"

record AuthConfig =
  ac_Enabled :: bool
  ac_AllowedMethods :: "AuthMethod list"
  ac_APIKeyHeader :: string
  ac_APIKeyQueryParam :: string
  ac_JWTSecret :: "u8 list"
  ac_JWTIssuer :: string
  ac_JWTAudience :: string
  ac_JWTExpirationHours :: int
  ac_RequireClientCert :: bool
  ac_AllowedCertCNs :: "string list"
  ac_AllowedCertOUs :: "string list"
  ac_BasicAuthRealm :: string
  ac_TrustedNetworks :: "string list"

definition DefaultAuthConfig :: AuthConfig where
  "DefaultAuthConfig =
     \<lparr>ac_Enabled = False, ac_AllowedMethods = [AuthMethodAPIKey], ac_APIKeyHeader = ''X-API-Key'',
      ac_APIKeyQueryParam = ''api_key'', ac_JWTSecret = [], ac_JWTIssuer = [], ac_JWTAudience = [], ac_JWTExpirationHours = 24,
      ac_RequireClientCert = False, ac_AllowedCertCNs = [], ac_AllowedCertOUs = [],
      ac_BasicAuthRealm = ''Karl Media Server'', ac_TrustedNetworks = []\<rparr>"

record AuthenticatedUser =
  au_ID :: string
  au_Name :: string
  au_Method :: AuthMethod
  au_Permissions :: "Permission list"
  au_Metadata :: "string \<rightharpoonup> string"
  au_AuthTime :: gtime
  au_ExpiresAt :: gtime

fun hasPermissionIn :: "Permission list \<Rightarrow> Permission \<Rightarrow> bool" where
  "hasPermissionIn [] perm = False"
| "hasPermissionIn (p # ps) perm = (if p = PermissionAdmin \<or> p = perm then True else hasPermissionIn ps perm)"

definition HasPermission :: "AuthenticatedUser \<Rightarrow> Permission \<Rightarrow> bool" where
  "HasPermission u perm = hasPermissionIn (au_Permissions u) perm"

definition IsExpired :: "gtime \<Rightarrow> AuthenticatedUser \<Rightarrow> bool" where
  "IsExpired now u = (if IsZero (au_ExpiresAt u) then False else now > au_ExpiresAt u)"

section \<open>API keys\<close>

record APIKey =
  ak_ID :: string
  ak_Name :: string
  ak_KeyHash :: string
  ak_Permissions :: "Permission list"
  ak_CreatedAt :: gtime
  ak_ExpiresAt :: gtime
  ak_LastUsedAt :: gtime
  ak_Revoked :: bool
  ak_RevokedAt :: gtime
  ak_Metadata :: "string \<rightharpoonup> string"
  ak_RateLimitRPS :: int

definition APIKey_IsValid :: "gtime \<Rightarrow> APIKey \<Rightarrow> bool" where
  "APIKey_IsValid now k =
     (if ak_Revoked k then False
      else if \<not> IsZero (ak_ExpiresAt k) \<and> now > ak_ExpiresAt k then False
      else True)"

type_synonym APIKeyStore = "(string \<times> APIKey) list"

definition GenerateAPIKey ::
  "(string \<Rightarrow> string) \<Rightarrow> string + u8 list \<Rightarrow> u8 list \<Rightarrow> gtime \<Rightarrow> string \<Rightarrow> Permission list \<Rightarrow> duration \<Rightarrow> APIKeyStore
   \<Rightarrow> auth_error + (string \<times> APIKey) \<times> APIKeyStore" where
  "GenerateAPIKey sha keyRead idBytes now name permissions expiration s =
     (case keyRead of
        Inl e \<Rightarrow> Inl (ErrRandom e)
      | Inr keyBytes \<Rightarrow>
          (let rawKey = URLEncoding_Encode keyBytes; i = hex_EncodeToString idBytes;
               key = \<lparr>ak_ID = i, ak_Name = name, ak_KeyHash = sha rawKey, ak_Permissions = permissions, ak_CreatedAt = now,
                      ak_ExpiresAt = (if expiration > 0 then now + expiration else 0), ak_LastUsedAt = 0, ak_Revoked = False,
                      ak_RevokedAt = 0, ak_Metadata = Map.empty, ak_RateLimitRPS = 0\<rparr>
           in Inr ((rawKey, key), AList.update i key s)))"

definition AddAPIKey :: "APIKey \<Rightarrow> APIKeyStore \<Rightarrow> APIKeyStore" where
  "AddAPIKey key s = AList.update (ak_ID key) key s"

fun validateIn :: "string \<Rightarrow> gtime \<Rightarrow> APIKeyStore \<Rightarrow> auth_error + APIKey \<times> APIKeyStore" where
  "validateIn keyHash now [] = Inl ErrAPIKeyNotFound"
| "validateIn keyHash now ((i, key) # s) =
     (if ak_KeyHash key = keyHash
      then if ak_Revoked key then Inl ErrAPIKeyRevoked
           else if \<not> APIKey_IsValid now key then Inl ErrTokenExpired
           else let key' = key\<lparr>ak_LastUsedAt := now\<rparr> in Inr (key', (i, key') # s)
      else (case validateIn keyHash now s of Inl e \<Rightarrow> Inl e | Inr (k, s') \<Rightarrow> Inr (k, (i, key) # s')))"

definition ValidateAPIKey :: "(string \<Rightarrow> string) \<Rightarrow> gtime \<Rightarrow> string \<Rightarrow> APIKeyStore \<Rightarrow> auth_error + APIKey \<times> APIKeyStore" where
  "ValidateAPIKey sha now rawKey s = validateIn (sha rawKey) now s"

definition RevokeAPIKey :: "gtime \<Rightarrow> string \<Rightarrow> APIKeyStore \<Rightarrow> auth_error + APIKeyStore" where
  "RevokeAPIKey now i s =
     (case map_of s i of
        None \<Rightarrow> Inl ErrAPIKeyNotFound
      | Some key \<Rightarrow> Inr (AList.update i (key\<lparr>ak_Revoked := True, ak_RevokedAt := now\<rparr>) s))"

definition GetAPIKey :: "string \<Rightarrow> APIKeyStore \<Rightarrow> auth_error + APIKey" where
  "GetAPIKey i s = (case map_of s i of None \<Rightarrow> Inl ErrAPIKeyNotFound | Some key \<Rightarrow> Inr key)"

definition ListAPIKeys :: "APIKeyStore \<Rightarrow> APIKey list" where
  "ListAPIKeys s = map snd s"

section \<open>The authenticator\<close>

record basicAuthUser =
  bu_PasswordHash :: string
  bu_Permissions :: "Permission list"

record Authenticator =
  at_config :: AuthConfig
  at_keyStore :: APIKeyStore
  at_basicAuthUsers :: "string \<rightharpoonup> basicAuthUser"
  at_mtlsAllowList :: "string list"

definition NewAuthenticator :: "AuthConfig option \<Rightarrow> Authenticator" where
  "NewAuthenticator config =
     (let c = (case config of None \<Rightarrow> DefaultAuthConfig | Some c \<Rightarrow> c)
      in \<lparr>at_config = c, at_keyStore = [], at_basicAuthUsers = Map.empty,
          at_mtlsAllowList = fold List.insert (ac_AllowedCertCNs c) []\<rparr>)"

record certificate =
  ce_CommonName :: string
  ce_OrganizationalUnit :: "string list"
  ce_NotAfter :: gtime
  ce_IssuerCommonName :: string
  ce_SerialNumber :: string
  ce_Fingerprint :: string

record http_request =
  rq_Header :: "string \<Rightarrow> string"
  rq_Query :: "string \<Rightarrow> string"
  rq_PeerCertificates :: "certificate list option"

definition presentedKey :: "AuthConfig \<Rightarrow> http_request \<Rightarrow> string" where
  "presentedKey c r =
     (let k1 = rq_Header r (ac_APIKeyHeader c);
          k2 = (if k1 = [] \<and> ac_APIKeyQueryParam c \<noteq> [] then rq_Query r (ac_APIKeyQueryParam c) else k1);
          auth = rq_Header r ''Authorization''
      in if k2 = [] \<and> HasPrefix auth ''Bearer '' then TrimPrefix auth ''Bearer '' else k2)"

definition authenticateAPIKey ::
  "(string \<Rightarrow> string) \<Rightarrow> gtime \<Rightarrow> http_request \<Rightarrow> Authenticator \<Rightarrow> auth_error + AuthenticatedUser \<times> Authenticator" where
  "authenticateAPIKey sha now r a =
     (let apiKey = presentedKey (at_config a) r in
      if apiKey = [] then Inl ErrAPIKeyNotFound
      else case ValidateAPIKey sha now apiKey (at_keyStore a) of
        Inl e \<Rightarrow> Inl e
      | Inr (key, s) \<Rightarrow>
          Inr (\<lparr>au_ID = ak_ID key, au_Name = ak_Name key, au_Method = AuthMethodAPIKey, au_Permissions = ak_Permissions key,
                au_Metadata = ak_Metadata key, au_AuthTime = now, au_ExpiresAt = ak_ExpiresAt key\<rparr>, a\<lparr>at_keyStore := s\<rparr>))"

text \<open>\<^verbatim>\<open>strings.SplitN(s, ":", 2)\<close> when the text has a colon.\<close>

definition splitColon :: "string \<Rightarrow> (string \<times> string) option" where
  "splitColon s =
     (if CHR '':'' \<in> set s then Some (takeWhile (\<lambda>c. c \<noteq> CHR '':'') s, drop 1 (dropWhile (\<lambda>c. c \<noteq> CHR '':'') s)) else None)"

definition authenticateBasic :: "(string \<Rightarrow> string) \<Rightarrow> gtime \<Rightarrow> http_request \<Rightarrow> Authenticator \<Rightarrow> auth_error + AuthenticatedUser" where
  "authenticateBasic sha now r a =
     (let auth = rq_Header r ''Authorization'' in
      if \<not> HasPrefix auth ''Basic '' then Inl ErrAuthenticationRequired
      else case StdEncoding_Decode (TrimPrefix auth ''Basic '') of
        None \<Rightarrow> Inl ErrInvalidCredentials
      | Some decoded \<Rightarrow>
          (case splitColon decoded of
             None \<Rightarrow> Inl ErrInvalidCredentials
           | Some (username, password) \<Rightarrow>
               (case at_basicAuthUsers a username of
                  None \<Rightarrow> Inl ErrInvalidCredentials
                | Some user \<Rightarrow>
                    if bu_PasswordHash user \<noteq> sha password then Inl ErrInvalidCredentials
                    else Inr \<lparr>au_ID = username, au_Name = username, au_Method = AuthMethodBasic,
                              au_Permissions = bu_Permissions user, au_Metadata = Map.empty, au_AuthTime = now,
                              au_ExpiresAt = 0\<rparr>)))"

definition certAllowed :: "certificate \<Rightarrow> Authenticator \<Rightarrow> bool" where
  "certAllowed cert a =
     (ce_CommonName cert \<in> set (at_mtlsAllowList a)
      \<or> list_ex (\<lambda>ou. ou \<in> set (at_mtlsAllowList a)) (ce_OrganizationalUnit cert))"

definition authenticateMTLS :: "gtime \<Rightarrow> http_request \<Rightarrow> Authenticator \<Rightarrow> auth_error + AuthenticatedUser" where
  "authenticateMTLS now r a =
     (case rq_PeerCertificates r of
        Some (cert # _) \<Rightarrow>
          if \<not> certAllowed cert a \<and> at_mtlsAllowList a \<noteq> [] then Inl ErrCertificateNotAllowed
          else Inr \<lparr>au_ID = ce_CommonName cert, au_Name = ce_CommonName cert, au_Method = AuthMethodMTLS,
                    au_Permissions = [PermissionRead, PermissionWrite],
                    au_Metadata = [''issuer'' \<mapsto> ce_IssuerCommonName cert, ''serial'' \<mapsto> ce_SerialNumber cert,
                                   ''fingerprint'' \<mapsto> ce_Fingerprint cert],
                    au_AuthTime = now, au_ExpiresAt = ce_NotAfter cert\<rparr>
      | _ \<Rightarrow> Inl ErrCertificateInvalid)"

text \<open>The loop over the allowed methods, with the error kept so far.\<close>

fun tryMethods ::
  "(string \<Rightarrow> string) \<Rightarrow> gtime \<Rightarrow> http_request \<Rightarrow> auth_error option \<Rightarrow> AuthMethod list \<Rightarrow> Authenticator
   \<Rightarrow> auth_error + AuthenticatedUser \<times> Authenticator" where
  "tryMethods sha now r lastErr [] a = Inl (case lastErr of Some e \<Rightarrow> e | None \<Rightarrow> ErrAuthenticationRequired)"
| "tryMethods sha now r lastErr (m # ms) a =
     (case m of
        AuthMethodAPIKey \<Rightarrow>
          (case authenticateAPIKey sha now r a of
             Inr u \<Rightarrow> Inr u
           | Inl e \<Rightarrow> tryMethods sha now r (if e \<noteq> ErrAPIKeyNotFound then Some e else lastErr) ms a)
      | AuthMethodBasic \<Rightarrow>
          (case authenticateBasic sha now r a of
             Inr u \<Rightarrow> Inr (u, a)
           | Inl e \<Rightarrow> tryMethods sha now r (if e \<noteq> ErrAuthenticationRequired then Some e else lastErr) ms a)
      | AuthMethodMTLS \<Rightarrow>
          (case authenticateMTLS now r a of
             Inr u \<Rightarrow> Inr (u, a)
           | Inl e \<Rightarrow> tryMethods sha now r (if e \<noteq> ErrCertificateInvalid then Some e else lastErr) ms a)
      | _ \<Rightarrow> tryMethods sha now r lastErr ms a)"

definition AuthenticateRequest ::
  "(string \<Rightarrow> string) \<Rightarrow> gtime \<Rightarrow> http_request \<Rightarrow> Authenticator \<Rightarrow> auth_error + AuthenticatedUser \<times> Authenticator" where
  "AuthenticateRequest sha now r a =
     (if \<not> ac_Enabled (at_config a)
      then Inr (\<lparr>au_ID = ''anonymous'', au_Name = ''Anonymous'', au_Method = AuthMethodNone,
                 au_Permissions = [PermissionRead, PermissionWrite, PermissionAdmin], au_Metadata = Map.empty,
                 au_AuthTime = now, au_ExpiresAt = 0\<rparr>, a)
      else tryMethods sha now r None (ac_AllowedMethods (at_config a)) a)"

definition AddBasicAuthUser :: "(string \<Rightarrow> string) \<Rightarrow> string \<Rightarrow> string \<Rightarrow> Permission list \<Rightarrow> Authenticator \<Rightarrow> Authenticator" where
  "AddBasicAuthUser sha username password permissions a =
     a\<lparr>at_basicAuthUsers := (at_basicAuthUsers a)(username \<mapsto> \<lparr>bu_PasswordHash = sha password, bu_Permissions = permissions\<rparr>)\<rparr>"

definition RemoveBasicAuthUser :: "string \<Rightarrow> Authenticator \<Rightarrow> Authenticator" where
  "RemoveBasicAuthUser username a = a\<lparr>at_basicAuthUsers := (at_basicAuthUsers a)(username := None)\<rparr>"

definition AddMTLSAllowedCN :: "string \<Rightarrow> Authenticator \<Rightarrow> Authenticator" where
  "AddMTLSAllowedCN cn a = a\<lparr>at_mtlsAllowList := List.insert cn (at_mtlsAllowList a)\<rparr>"

definition RemoveMTLSAllowedCN :: "string \<Rightarrow> Authenticator \<Rightarrow> Authenticator" where
  "RemoveMTLSAllowedCN cn a = a\<lparr>at_mtlsAllowList := removeAll cn (at_mtlsAllowList a)\<rparr>"

section \<open>Middlewares\<close>

text \<open>A middleware answers with a status, an error and perhaps a challenge, or hands the request on.\<close>

datatype auth_reply = Refused int auth_error "string option" | Served AuthenticatedUser

definition AuthMiddleware :: "(string \<Rightarrow> string) \<Rightarrow> gtime \<Rightarrow> http_request \<Rightarrow> Authenticator \<Rightarrow> auth_reply \<times> Authenticator" where
  "AuthMiddleware sha now r a =
     (case AuthenticateRequest sha now r a of
        Inl e \<Rightarrow>
          (Refused 401 e (if ac_BasicAuthRealm (at_config a) \<noteq> []
                          then Some (''Basic realm=\"'' @ ac_BasicAuthRealm (at_config a) @ ''\"'') else None), a)
      | Inr (user, a') \<Rightarrow> (Served user, a'))"

definition RequirePermission :: "Permission \<Rightarrow> AuthenticatedUser option \<Rightarrow> auth_reply" where
  "RequirePermission perm user =
     (case user of
        None \<Rightarrow> Refused 401 ErrAuthenticationRequired None
      | Some u \<Rightarrow> if \<not> HasPermission u perm then Refused 403 ErrInsufficientPermissions None else Served u)"

section \<open>Who is let in\<close>

lemma hasPermissionIn_iff: "hasPermissionIn ps perm \<longleftrightarrow> PermissionAdmin \<in> set ps \<or> perm \<in> set ps"
  by (induction ps) auto

lemma HasPermission_iff: "HasPermission u perm \<longleftrightarrow> PermissionAdmin \<in> set (au_Permissions u) \<or> perm \<in> set (au_Permissions u)"
  by (simp add: HasPermission_def hasPermissionIn_iff)

lemma APIKey_IsValid_iff:
  "APIKey_IsValid now k \<longleftrightarrow> \<not> ak_Revoked k \<and> (ak_ExpiresAt k = 0 \<or> now \<le> ak_ExpiresAt k)"
  by (auto simp: APIKey_IsValid_def IsZero_def)











section \<open>The life of a key\<close>

lemma validateIn_other:
  assumes "\<forall>(i, k) \<in> set s. ak_KeyHash k \<noteq> h"
  shows "validateIn h now s = Inl ErrAPIKeyNotFound"
  using assms by (induction h now s rule: validateIn.induct) auto

text \<open>Validating a store in which the only key with the digest is the one under \<open>i\<close>.\<close>

lemma validateIn_update:
  assumes "\<forall>(j, k) \<in> set s. j \<noteq> i \<longrightarrow> ak_KeyHash k \<noteq> h" "distinct (map fst s)" "ak_KeyHash key = h"
  shows "validateIn h now (AList.update i key s) =
    (if ak_Revoked key then Inl ErrAPIKeyRevoked else if \<not> APIKey_IsValid now key then Inl ErrTokenExpired
     else Inr (key\<lparr>ak_LastUsedAt := now\<rparr>, AList.update i (key\<lparr>ak_LastUsedAt := now\<rparr>) s))"
  using assms
proof (induction s)
  case (Cons e s)
  obtain j k where e: "e = (j, k)" by fastforce
  show ?case
  proof (cases "j = i")
    case True
    then show ?thesis
      using Cons.prems by (simp add: e Let_def)
  next
    case False
    then have "ak_KeyHash k \<noteq> h"
      using Cons.prems(1) by (simp add: e)
    then show ?thesis
      using False Cons by (simp add: e)
  qed
qed (simp add: Let_def)


definition sample_request :: http_request where
  "sample_request = \<lparr>rq_Header = (\<lambda>h. if h = ''Authorization'' then ''Basic YTpi'' else []), rq_Query = (\<lambda>_. []),
     rq_PeerCertificates = None\<rparr>"

definition sample_authenticator :: Authenticator where
  "sample_authenticator = AddBasicAuthUser id ''a'' ''b'' [PermissionRead]
     (NewAuthenticator (Some (DefaultAuthConfig\<lparr>ac_Enabled := True, ac_AllowedMethods := [AuthMethodAPIKey, AuthMethodBasic]\<rparr>)))"




text \<open>C34. A generated key works until it expires and never again once it is revoked: validating the raw key gives the key with
  the permissions it was made with, an expired key gives \<^verbatim>\<open>ErrTokenExpired\<close>, and after \<^verbatim>\<open>RevokeAPIKey\<close> the answer is
  \<^verbatim>\<open>ErrAPIKeyRevoked\<close> at any time.\<close>

theorem generated_key_lifecycle:
  assumes "GenerateAPIKey sha keyRead idBytes now name permissions expiration s = Inr ((raw, key), s')"
    and "distinct (map fst s)" "\<forall>(j, k) \<in> set s. ak_KeyHash k \<noteq> sha raw" "0 < now"
  shows "ValidateAPIKey sha t raw s' =
      (if expiration > 0 \<and> t > now + expiration then Inl ErrTokenExpired
       else Inr (key\<lparr>ak_LastUsedAt := t\<rparr>, AList.update (ak_ID key) (key\<lparr>ak_LastUsedAt := t\<rparr>) s))
    \<and> ak_Permissions key = permissions
    \<and> (\<exists>s''. RevokeAPIKey t (ak_ID key) s' = Inr s'' \<and> ValidateAPIKey sha t' raw s'' = Inl ErrAPIKeyRevoked)"
proof -
  obtain bytes where raw: "raw = URLEncoding_Encode bytes" and s': "s' = AList.update (ak_ID key) key s"
    and key: "ak_KeyHash key = sha raw" "ak_Permissions key = permissions" "\<not> ak_Revoked key"
      "ak_ExpiresAt key = (if expiration > 0 then now + expiration else 0)"
    using assms(1) by (auto simp: GenerateAPIKey_def Let_def split: sum.splits)
  have other: "\<forall>(j, k) \<in> set s. j \<noteq> ak_ID key \<longrightarrow> ak_KeyHash k \<noteq> sha raw"
    using assms(3) by auto
  have valid: "APIKey_IsValid t key \<longleftrightarrow> \<not> (expiration > 0 \<and> t > now + expiration)"
    using assms(4) key by (auto simp: APIKey_IsValid_iff)
  let ?r = "key\<lparr>ak_Revoked := True, ak_RevokedAt := t\<rparr>"
  have "RevokeAPIKey t (ak_ID key) s' = Inr (AList.update (ak_ID key) ?r s)"
    by (simp add: RevokeAPIKey_def s' update_conv' update_Some_unfold)
  moreover have "ValidateAPIKey sha t' raw (AList.update (ak_ID key) ?r s) = Inl ErrAPIKeyRevoked"
    unfolding ValidateAPIKey_def using validateIn_update [OF other assms(2), of ?r t'] key by simp
  ultimately show ?thesis
    using validateIn_update [OF other assms(2) key(1), of t] key(2,3) valid by (auto simp: ValidateAPIKey_def s')
qed

theorem generated_key_lifecycle_witness:
  "\<exists>raw key s s''. GenerateAPIKey id (Inr [1, 2, 3]) [7] 100 ''n'' [PermissionRead] 0 [] = Inr ((raw, key), s)
     \<and> RevokeAPIKey 200 (ak_ID key) s = Inr s'' \<and> ValidateAPIKey id 300 raw s'' = Inl ErrAPIKeyRevoked"
proof -
  obtain raw key s where g: "GenerateAPIKey id (Inr [1, 2, 3]) [7] 100 ''n'' [PermissionRead] 0 [] = Inr ((raw, key), s)"
    by (simp add: GenerateAPIKey_def Let_def)
  show ?thesis
    using generated_key_lifecycle [OF g, of 200 300] g by auto
qed

text \<open>C35. The allow list of client certificates fails open: once its last name is removed, every certificate is accepted with read and
  write permission.\<close>

theorem emptied_allowlist_opens:
  assumes "set (at_mtlsAllowList a) \<subseteq> {cn}" "rq_PeerCertificates r = Some (cert # rest)"
  shows "\<exists>u. authenticateMTLS now r (RemoveMTLSAllowedCN cn a) = Inr u \<and> au_ID u = ce_CommonName cert
    \<and> HasPermission u PermissionWrite"
proof -
  have "removeAll cn (at_mtlsAllowList a) = []"
    using assms(1) by (induction "at_mtlsAllowList a") (auto simp: removeAll_filter_not_eq filter_empty_conv)
  then show ?thesis
    using assms(2) by (simp add: authenticateMTLS_def RemoveMTLSAllowedCN_def HasPermission_iff)
qed

theorem emptied_allowlist_opens_witness:
  "\<exists>u. authenticateMTLS 5
      (sample_request\<lparr>rq_PeerCertificates := Some [\<lparr>ce_CommonName = ''evil'', ce_OrganizationalUnit = [], ce_NotAfter = 9,
         ce_IssuerCommonName = [], ce_SerialNumber = [], ce_Fingerprint = []\<rparr>]\<rparr>)
      (RemoveMTLSAllowedCN ''good'' (AddMTLSAllowedCN ''good'' sample_authenticator)) = Inr u
    \<and> au_ID u = ''evil'' \<and> HasPermission u PermissionWrite"
  using emptied_allowlist_opens [of "AddMTLSAllowedCN ''good'' sample_authenticator" "''good''"
      "sample_request\<lparr>rq_PeerCertificates := Some [\<lparr>ce_CommonName = ''evil'', ce_OrganizationalUnit = [], ce_NotAfter = 9,
         ce_IssuerCommonName = [], ce_SerialNumber = [], ce_Fingerprint = []\<rparr>]\<rparr>" _ "[]" 5]
  by (simp add: AddMTLSAllowedCN_def sample_authenticator_def AddBasicAuthUser_def NewAuthenticator_def DefaultAuthConfig_def)

text \<open>A configuration that allows organisational units only leaves the allow list empty.\<close>

lemma units_are_ignored:
  assumes "ac_AllowedCertCNs c = []"
  shows "at_mtlsAllowList (NewAuthenticator (Some c)) = []"
  using assms by (simp add: NewAuthenticator_def)

end
