(* ===== verification/Authorization.thy ===== *)
theory Authorization
  imports Authentication
begin

text \<open>
  Authorization, \<^verbatim>\<open>internal/authorization.go\<close>: roles with inheritance and a cache, policies, and the decision.

  The recursion over inherited roles need not end, since the set of visited roles is local to each call. The argument
  \<open>depth\<close> is the number of nested calls the stack has room for, and \<open>None\<close> is the overflow, which ends a Go program.
  Conditions of a role permission are an interface, here functions on the context. Values of type \<^verbatim>\<open>interface{}\<close> are the
  datatype \<open>authz_value\<close>; comparing two maps or two slices panics, which is \<open>None\<close> too. The hour of the day is an
  argument. A compiled pattern is the list of its literal characters and wildcards; patterns are text in UTF-8, so
  compiling does not fail. Audit entries are collected in a list. The lock is not held during a decision, which is
  modelled as one step.
\<close>

section \<open>Roles\<close>

type_synonym Action = string
type_synonym AuthzResource = string

abbreviation ActionCreate :: Action where "ActionCreate \<equiv> ''create''"
abbreviation ActionRead :: Action where "ActionRead \<equiv> ''read''"
abbreviation ActionUpdate :: Action where "ActionUpdate \<equiv> ''update''"
abbreviation ActionDelete :: Action where "ActionDelete \<equiv> ''delete''"
abbreviation ActionExecute :: Action where "ActionExecute \<equiv> ''execute''"
abbreviation ActionManage :: Action where "ActionManage \<equiv> ''manage''"

datatype authz_error = ErrAccessDenied | ErrRoleNotFound | ErrPolicyViolation | ErrResourceNotAllowed

datatype authz_value =
    AzNil | AzString string | AzInt int | AzBool bool | AzStrings "string list" | AzMap "(string \<times> authz_value) list"

record AuthzContext =
  cx_User :: "AuthenticatedUser option"
  cx_Resource :: AuthzResource
  cx_ResourceID :: string
  cx_Action :: Action
  cx_Metadata :: "(string \<rightharpoonup> authz_value) option"

record RolePermission =
  rp_Resource :: AuthzResource
  rp_Actions :: "Action list"
  rp_Conditions :: "(AuthzContext \<Rightarrow> bool) list"
  rp_Constraints :: "string \<rightharpoonup> authz_value"

record Role =
  ro_ID :: string
  ro_Name :: string
  ro_Description :: string
  ro_Permissions :: "RolePermission list"
  ro_Inherits :: "string list"
  ro_CreatedAt :: gtime
  ro_UpdatedAt :: gtime

datatype PolicyDecision = PolicyNotApplicable | PolicyAllow | PolicyDeny

record PolicyCondition =
  pc_Type :: string
  pc_Key :: string
  pc_Value :: authz_value

datatype glob = Lit char | Wildcard

record ResourceSpec =
  rsp_Pattern :: string
  rsp_regex :: "glob list option"

record PolicyRule =
  pr_Effect :: PolicyDecision
  pr_Resources :: "AuthzResource list"
  pr_Actions :: "Action list"
  pr_Principals :: "string list"
  pr_Conditions :: "PolicyCondition list"
  pr_ResourceSpec :: "ResourceSpec option"

record Policy =
  po_ID :: string
  po_Name :: string
  po_Description :: string
  po_Priority :: int
  po_Rules :: "PolicyRule list"
  po_Enabled :: bool

record AuthzAuditEntry =
  ae_Timestamp :: gtime
  ae_UserID :: string
  ae_UserName :: string
  ae_Resource :: AuthzResource
  ae_ResourceID :: string
  ae_Action :: Action
  ae_Allowed :: bool
  ae_Reason :: string

record Authorizer =
  az_roles :: "(string \<times> Role) list"
  az_policies :: "Policy list"
  az_cache :: "string \<rightharpoonup> RolePermission list"
  az_auditLog :: bool
  az_entries :: "AuthzAuditEntry list"

definition AddRole :: "gtime \<Rightarrow> Role \<Rightarrow> Authorizer \<Rightarrow> Authorizer" where
  "AddRole now role a =
     (let role1 = role\<lparr>ro_UpdatedAt := now\<rparr>;
          role2 = (if IsZero (ro_CreatedAt role1) then role1\<lparr>ro_CreatedAt := now\<rparr> else role1)
      in a\<lparr>az_roles := AList.update (ro_ID role) role2 (az_roles a), az_cache := (az_cache a)(ro_ID role := None)\<rparr>)"

definition GetRole :: "string \<Rightarrow> Authorizer \<Rightarrow> authz_error + Role" where
  "GetRole i a = (case map_of (az_roles a) i of None \<Rightarrow> Inl ErrRoleNotFound | Some role \<Rightarrow> Inr role)"

definition RemoveRole :: "string \<Rightarrow> Authorizer \<Rightarrow> Authorizer" where
  "RemoveRole i a = a\<lparr>az_roles := AList.delete i (az_roles a), az_cache := (az_cache a)(i := None)\<rparr>"

definition ListRoles :: "Authorizer \<Rightarrow> Role list" where
  "ListRoles a = map snd (az_roles a)"

definition perm :: "AuthzResource \<Rightarrow> Action list \<Rightarrow> RolePermission" where
  "perm resource actions = \<lparr>rp_Resource = resource, rp_Actions = actions, rp_Conditions = [], rp_Constraints = Map.empty\<rparr>"

definition all_actions :: "Action list" where
  "all_actions = [ActionCreate, ActionRead, ActionUpdate, ActionDelete, ActionManage]"

definition crud :: "Action list" where
  "crud = [ActionCreate, ActionRead, ActionUpdate, ActionDelete]"

definition default_role :: "string \<Rightarrow> string \<Rightarrow> string \<Rightarrow> string list \<Rightarrow> RolePermission list \<Rightarrow> Role" where
  "default_role i name description inherits perms =
     \<lparr>ro_ID = i, ro_Name = name, ro_Description = description, ro_Permissions = perms, ro_Inherits = inherits,
      ro_CreatedAt = 0, ro_UpdatedAt = 0\<rparr>"

definition addDefaultRoles :: "gtime \<Rightarrow> Authorizer \<Rightarrow> Authorizer" where
  "addDefaultRoles now a = fold (AddRole now)
     [default_role ''admin'' ''Administrator'' ''Full administrative access'' []
        [perm ''session'' all_actions, perm ''recording'' all_actions, perm ''statistics'' [ActionRead],
         perm ''config'' [ActionRead, ActionUpdate], perm ''user'' crud, perm ''apikey'' crud, perm ''auditlog'' [ActionRead],
         perm ''health'' [ActionRead], perm ''metrics'' [ActionRead], perm ''call'' all_actions, perm ''media'' all_actions],
      default_role ''operator'' ''Operator'' ''Operational access for managing calls and sessions'' []
        [perm ''session'' crud, perm ''recording'' [ActionCreate, ActionRead], perm ''statistics'' [ActionRead],
         perm ''health'' [ActionRead], perm ''metrics'' [ActionRead], perm ''call'' crud,
         perm ''media'' [ActionCreate, ActionRead, ActionUpdate]],
      default_role ''monitor'' ''Monitor'' ''Read-only access for monitoring'' []
        [perm ''session'' [ActionRead], perm ''recording'' [ActionRead], perm ''statistics'' [ActionRead],
         perm ''health'' [ActionRead], perm ''metrics'' [ActionRead], perm ''call'' [ActionRead]],
      default_role ''recording_manager'' ''Recording Manager'' ''Manage call recordings'' [''monitor'']
        [perm ''recording'' crud]] a"

definition NewAuthorizer :: "gtime \<Rightarrow> Authorizer" where
  "NewAuthorizer now = addDefaultRoles now
     \<lparr>az_roles = [], az_policies = [], az_cache = Map.empty, az_auditLog = False, az_entries = []\<rparr>"

text \<open>The loop over \<open>Inherits\<close> carries the roles it has seen; the calls below it start again with their own.\<close>

fun resolvePermissions ::
    "nat \<Rightarrow> (string \<times> Role) list \<Rightarrow> string \<Rightarrow> (string \<rightharpoonup> RolePermission list)
     \<Rightarrow> (RolePermission list \<times> (string \<rightharpoonup> RolePermission list)) option"
  and inheritLoop ::
    "nat \<Rightarrow> (string \<times> Role) list \<Rightarrow> string list \<Rightarrow> string set \<Rightarrow> (string \<rightharpoonup> RolePermission list)
     \<Rightarrow> (RolePermission list \<times> (string \<rightharpoonup> RolePermission list)) option" where
  "resolvePermissions 0 roles roleID cache = None"
| "resolvePermissions (Suc depth) roles roleID cache =
     (case cache roleID of
        Some cached \<Rightarrow> Some (cached, cache)
      | None \<Rightarrow>
          (case map_of roles roleID of
             None \<Rightarrow> Some ([], cache)
           | Some role \<Rightarrow>
               (case inheritLoop depth roles (ro_Inherits role) {roleID} cache of
                  None \<Rightarrow> None
                | Some (inherited, cache1) \<Rightarrow>
                    let permissions = inherited @ ro_Permissions role in Some (permissions, cache1(roleID \<mapsto> permissions)))))"
| "inheritLoop depth roles [] seen cache = Some ([], cache)"
| "inheritLoop depth roles (i # is) seen cache =
     (if i \<in> seen then inheritLoop depth roles is seen cache
      else case resolvePermissions depth roles i cache of
          None \<Rightarrow> None
        | Some (ps, cache1) \<Rightarrow>
            (case inheritLoop depth roles is (insert i seen) cache1 of
               None \<Rightarrow> None
             | Some (qs, cache2) \<Rightarrow> Some (ps @ qs, cache2)))"

section \<open>Policies\<close>

text \<open>\<^verbatim>\<open>QuoteMeta\<close> makes every character literal; then each quoted star becomes a wildcard.\<close>

definition Compile :: "ResourceSpec \<Rightarrow> ResourceSpec" where
  "Compile rs =
     (if rsp_Pattern rs = [] then rs
      else rs\<lparr>rsp_regex := Some (map (\<lambda>c. if c = CHR ''*'' then Wildcard else Lit c) (rsp_Pattern rs))\<rparr>)"

text \<open>The wildcard is the expression \<^verbatim>\<open>.*\<close>, which does not cross a line break.\<close>

fun glob_match :: "glob list \<Rightarrow> string \<Rightarrow> bool" where
  "glob_match [] s = (s = [])"
| "glob_match (Lit c # gs) [] = False"
| "glob_match (Lit c # gs) (x # s) = (c = x \<and> glob_match gs s)"
| "glob_match (Wildcard # gs) [] = glob_match gs []"
| "glob_match (Wildcard # gs) (x # s) = (glob_match gs (x # s) \<or> x \<noteq> CHR 0x0A \<and> glob_match (Wildcard # gs) s)"

definition ResourceSpec_Matches :: "ResourceSpec \<Rightarrow> string \<Rightarrow> bool" where
  "ResourceSpec_Matches rs resourceID = (case rsp_regex rs of None \<Rightarrow> True | Some regex \<Rightarrow> glob_match regex resourceID)"

text \<open>Go's comparison of two interface values: a panic when both hold maps or both hold slices.\<close>

fun interface_eq :: "authz_value \<Rightarrow> authz_value \<Rightarrow> bool option" where
  "interface_eq (AzMap _) (AzMap _) = None"
| "interface_eq (AzStrings _) (AzStrings _) = None"
| "interface_eq x y = Some (x = y)"

definition hour_of :: "authz_value \<Rightarrow> string \<Rightarrow> int option" where
  "hour_of v key =
     (case v of AzMap m \<Rightarrow> (case map_of m key of Some (AzInt h) \<Rightarrow> Some h | _ \<Rightarrow> None) | _ \<Rightarrow> None)"

definition evaluatePolicyCondition :: "int \<Rightarrow> PolicyCondition \<Rightarrow> AuthzContext \<Rightarrow> bool option" where
  "evaluatePolicyCondition hour cond ctx =
     (if pc_Type cond = ''time_range''
      then Some (\<not> (case hour_of (pc_Value cond) ''start_hour'' of Some h \<Rightarrow> hour < h | None \<Rightarrow> False)
               \<and> \<not> (case hour_of (pc_Value cond) ''end_hour'' of Some h \<Rightarrow> hour \<ge> h | None \<Rightarrow> False))
      else if pc_Type cond = ''ip_range''
      then (case cx_Metadata ctx of
              Some m \<Rightarrow>
                (case m ''client_ip'' of
                   Some (AzString clientIP) \<Rightarrow>
                     (case pc_Value cond of AzStrings allowedIPs \<Rightarrow> Some (clientIP \<in> set allowedIPs) | _ \<Rightarrow> Some True)
                 | _ \<Rightarrow> Some True)
            | None \<Rightarrow> Some True)
      else if pc_Type cond = ''metadata''
      then (case cx_Metadata ctx of
              None \<Rightarrow> Some False
            | Some m \<Rightarrow> (case m (pc_Key cond) of Some val \<Rightarrow> interface_eq val (pc_Value cond) | None \<Rightarrow> Some False))
      else Some True)"

fun allConditions :: "int \<Rightarrow> PolicyCondition list \<Rightarrow> AuthzContext \<Rightarrow> bool option" where
  "allConditions hour [] ctx = Some True"
| "allConditions hour (c # cs) ctx =
     (case evaluatePolicyCondition hour c ctx of None \<Rightarrow> None | Some False \<Rightarrow> Some False | Some True \<Rightarrow> allConditions hour cs ctx)"

definition principalMatches :: "PolicyRule \<Rightarrow> AuthenticatedUser \<Rightarrow> bool" where
  "principalMatches r u =
     list_ex (\<lambda>p. p = au_ID u \<or> p = ''*'' \<or> list_ex (\<lambda>q. p = q) (au_Permissions u)) (pr_Principals r)"

definition PolicyRule_Matches :: "int \<Rightarrow> PolicyRule \<Rightarrow> AuthenticatedUser \<Rightarrow> AuthzContext \<Rightarrow> bool option" where
  "PolicyRule_Matches hour r u ctx =
     (if \<not> list_ex (\<lambda>x. x = cx_Resource ctx) (pr_Resources r) \<and> pr_Resources r \<noteq> [] then Some False
      else if \<not> list_ex (\<lambda>x. x = cx_Action ctx) (pr_Actions r) \<and> pr_Actions r \<noteq> [] then Some False
      else if pr_Principals r \<noteq> [] \<and> \<not> principalMatches r u then Some False
      else if (case pr_ResourceSpec r of None \<Rightarrow> False | Some rs \<Rightarrow> \<not> ResourceSpec_Matches rs (cx_ResourceID ctx)) then Some False
      else allConditions hour (pr_Conditions r) ctx)"

fun firstRule :: "int \<Rightarrow> PolicyRule list \<Rightarrow> AuthenticatedUser \<Rightarrow> AuthzContext \<Rightarrow> PolicyDecision option" where
  "firstRule hour [] u ctx = Some PolicyNotApplicable"
| "firstRule hour (r # rs) u ctx =
     (case PolicyRule_Matches hour r u ctx of
        None \<Rightarrow> None | Some True \<Rightarrow> Some (pr_Effect r) | Some False \<Rightarrow> firstRule hour rs u ctx)"

definition Policy_Evaluate :: "int \<Rightarrow> Policy \<Rightarrow> AuthenticatedUser \<Rightarrow> AuthzContext \<Rightarrow> PolicyDecision option" where
  "Policy_Evaluate hour p u ctx = (if \<not> po_Enabled p then Some PolicyNotApplicable else firstRule hour (po_Rules p) u ctx)"

text \<open>The pass from the end of the slice to its front: the policy at the end moves up past those of lower priority.\<close>

fun bubble :: "nat \<Rightarrow> Policy list \<Rightarrow> Policy list" where
  "bubble 0 ps = ps"
| "bubble (Suc i) ps =
     bubble i (if po_Priority (ps ! Suc i) > po_Priority (ps ! i) then ps[Suc i := ps ! i, i := ps ! Suc i] else ps)"

definition AddPolicy :: "Policy \<Rightarrow> Authorizer \<Rightarrow> Authorizer" where
  "AddPolicy policy a = a\<lparr>az_policies := bubble (length (az_policies a)) (az_policies a @ [policy])\<rparr>"

fun removeFirst :: "string \<Rightarrow> Policy list \<Rightarrow> Policy list" where
  "removeFirst i [] = []"
| "removeFirst i (p # ps) = (if po_ID p = i then ps else p # removeFirst i ps)"

definition RemovePolicy :: "string \<Rightarrow> Authorizer \<Rightarrow> Authorizer" where
  "RemovePolicy i a = a\<lparr>az_policies := removeFirst i (az_policies a)\<rparr>"

section \<open>The decision\<close>

definition SetAuditLogger :: "bool \<Rightarrow> Authorizer \<Rightarrow> Authorizer" where
  "SetAuditLogger present a = a\<lparr>az_auditLog := present\<rparr>"

definition logAudit :: "gtime \<Rightarrow> AuthenticatedUser \<Rightarrow> AuthzContext \<Rightarrow> bool \<Rightarrow> string \<Rightarrow> Authorizer \<Rightarrow> Authorizer" where
  "logAudit now u ctx allowed reason a =
     (if \<not> az_auditLog a then a
      else a\<lparr>az_entries := az_entries a @
        [\<lparr>ae_Timestamp = now, ae_UserID = au_ID u, ae_UserName = au_Name u, ae_Resource = cx_Resource ctx,
          ae_ResourceID = cx_ResourceID ctx, ae_Action = cx_Action ctx, ae_Allowed = allowed, ae_Reason = reason\<rparr>]\<rparr>)"

fun containsAction :: "Action list \<Rightarrow> Action \<Rightarrow> bool" where
  "containsAction [] action = False"
| "containsAction (a # as) action = (if a = action \<or> a = ActionManage then True else containsAction as action)"

definition grants :: "AuthzContext \<Rightarrow> RolePermission \<Rightarrow> bool" where
  "grants ctx p \<longleftrightarrow> rp_Resource p = cx_Resource ctx \<and> containsAction (rp_Actions p) (cx_Action ctx)
     \<and> list_all (\<lambda>cond. cond ctx) (rp_Conditions p)"

fun firstPolicy :: "int \<Rightarrow> Policy list \<Rightarrow> AuthenticatedUser \<Rightarrow> AuthzContext \<Rightarrow> PolicyDecision option" where
  "firstPolicy hour [] u ctx = Some PolicyNotApplicable"
| "firstPolicy hour (p # ps) u ctx =
     (case Policy_Evaluate hour p u ctx of
        None \<Rightarrow> None
      | Some PolicyDeny \<Rightarrow> Some PolicyDeny
      | Some PolicyAllow \<Rightarrow> Some PolicyAllow
      | Some PolicyNotApplicable \<Rightarrow> firstPolicy hour ps u ctx)"

fun roleLoop ::
  "nat \<Rightarrow> (string \<times> Role) list \<Rightarrow> Permission list \<Rightarrow> AuthzContext \<Rightarrow> (string \<rightharpoonup> RolePermission list)
   \<Rightarrow> (bool \<times> (string \<rightharpoonup> RolePermission list)) option" where
  "roleLoop depth roles [] ctx cache = Some (False, cache)"
| "roleLoop depth roles (roleID # ps) ctx cache =
     (case resolvePermissions depth roles roleID cache of
        None \<Rightarrow> None
      | Some (permissions, cache1) \<Rightarrow>
          if list_ex (grants ctx) permissions then Some (True, cache1) else roleLoop depth roles ps ctx cache1)"

definition Authorize ::
  "nat \<Rightarrow> int \<Rightarrow> gtime \<Rightarrow> AuthzContext \<Rightarrow> Authorizer \<Rightarrow> (authz_error option \<times> Authorizer) option" where
  "Authorize depth hour now ctx a =
     (case cx_User ctx of
        None \<Rightarrow> Some (Some ErrAccessDenied, a)
      | Some u \<Rightarrow>
          (case firstPolicy hour (az_policies a) u ctx of
             None \<Rightarrow> None
           | Some PolicyDeny \<Rightarrow> Some (Some ErrPolicyViolation, logAudit now u ctx False ''policy_deny'' a)
           | Some PolicyAllow \<Rightarrow> Some (None, logAudit now u ctx True ''policy_allow'' a)
           | Some PolicyNotApplicable \<Rightarrow>
               (case roleLoop depth (az_roles a) (au_Permissions u) ctx (az_cache a) of
                  None \<Rightarrow> None
                | Some (granted, cache) \<Rightarrow>
                    let a1 = a\<lparr>az_cache := cache\<rparr> in
                    if granted then Some (None, logAudit now u ctx True ''role_permission'' a1)
                    else if HasPermission u PermissionAdmin then Some (None, logAudit now u ctx True ''admin_override'' a1)
                    else Some (Some ErrAccessDenied, logAudit now u ctx False ''no_permission'' a1))))"

definition AuthorizeUser ::
  "nat \<Rightarrow> int \<Rightarrow> gtime \<Rightarrow> AuthenticatedUser option \<Rightarrow> AuthzResource \<Rightarrow> Action \<Rightarrow> Authorizer
   \<Rightarrow> (authz_error option \<times> Authorizer) option" where
  "AuthorizeUser depth hour now user resource action =
     Authorize depth hour now \<lparr>cx_User = user, cx_Resource = resource, cx_ResourceID = [], cx_Action = action, cx_Metadata = None\<rparr>"

section \<open>The quick check\<close>

record ResourcePermissions =
  rps_Create :: Permission
  rps_Read :: Permission
  rps_Update :: Permission
  rps_Delete :: Permission
  rps_Manage :: Permission

definition DefaultResourcePermissions :: "AuthzResource \<rightharpoonup> ResourcePermissions" where
  "DefaultResourcePermissions =
     [''session'' \<mapsto> \<lparr>rps_Create = PermissionWrite, rps_Read = PermissionRead, rps_Update = PermissionWrite,
                       rps_Delete = PermissionWrite, rps_Manage = PermissionAdmin\<rparr>,
      ''recording'' \<mapsto> \<lparr>rps_Create = PermissionRecording, rps_Read = PermissionRead, rps_Update = PermissionRecording,
                         rps_Delete = PermissionAdmin, rps_Manage = PermissionAdmin\<rparr>,
      ''statistics'' \<mapsto> \<lparr>rps_Create = [], rps_Read = PermissionStatistics, rps_Update = [], rps_Delete = [], rps_Manage = []\<rparr>,
      ''config'' \<mapsto> \<lparr>rps_Create = [], rps_Read = PermissionAdmin, rps_Update = PermissionAdmin, rps_Delete = [], rps_Manage = []\<rparr>]"

definition requiredPerm :: "ResourcePermissions \<Rightarrow> Action \<Rightarrow> Permission" where
  "requiredPerm perms action =
     (if action = ActionCreate then rps_Create perms else if action = ActionRead then rps_Read perms
      else if action = ActionUpdate then rps_Update perms else if action = ActionDelete then rps_Delete perms
      else if action = ActionManage then rps_Manage perms else [])"

definition QuickCheck :: "AuthenticatedUser option \<Rightarrow> AuthzResource \<Rightarrow> Action \<Rightarrow> bool" where
  "QuickCheck user resource action =
     (case user of
        None \<Rightarrow> False
      | Some u \<Rightarrow>
          if HasPermission u PermissionAdmin then True
          else case DefaultResourcePermissions resource of
              Some perms \<Rightarrow> requiredPerm perms action \<noteq> [] \<and> HasPermission u (requiredPerm perms action)
            | None \<Rightarrow> False)"

fun joinPermissions :: "Permission list \<Rightarrow> string" where
  "joinPermissions [] = []"
| "joinPermissions [p] = p"
| "joinPermissions (p # ps) = p @ '', '' @ joinPermissions ps"

definition FormatPermissions :: "AuthenticatedUser option \<Rightarrow> string" where
  "FormatPermissions user = (case user of None \<Rightarrow> ''none'' | Some u \<Rightarrow> joinPermissions (au_Permissions u))"

section \<open>Inheritance\<close>

text \<open>What a role may do: its own permissions and those of all roles it inherits from, directly or not.\<close>

definition inherits_rel :: "(string \<times> Role) list \<Rightarrow> (string \<times> string) set" where
  "inherits_rel roles = {(i, j). i \<noteq> j \<and> (\<exists>role. map_of roles i = Some role \<and> j \<in> set (ro_Inherits role))}"

definition role_perms :: "(string \<times> Role) list \<Rightarrow> string \<Rightarrow> RolePermission set" where
  "role_perms roles i =
     {p. \<exists>j role. (i, j) \<in> (inherits_rel roles)\<^sup>* \<and> map_of roles j = Some role \<and> p \<in> set (ro_Permissions role)}"

definition cache_ok :: "(string \<times> Role) list \<Rightarrow> (string \<rightharpoonup> RolePermission list) \<Rightarrow> bool" where
  "cache_ok roles cache \<longleftrightarrow> (\<forall>i ps. cache i = Some ps \<longrightarrow> set ps = role_perms roles i)"

lemma role_perms_missing: "map_of roles i = None \<Longrightarrow> role_perms roles i = {}"
  by (auto simp: role_perms_def inherits_rel_def elim: converse_rtranclE)

lemma role_perms_unfold:
  assumes "map_of roles i = Some role"
  shows "role_perms roles i = (\<Union>j \<in> set (ro_Inherits role) - {i}. role_perms roles j) \<union> set (ro_Permissions role)"
proof (intro equalityI subsetI)
  fix p assume "p \<in> role_perms roles i"
  then obtain j r where path: "(i, j) \<in> (inherits_rel roles)\<^sup>*" and j: "map_of roles j = Some r" "p \<in> set (ro_Permissions r)"
    by (auto simp: role_perms_def)
  from path show "p \<in> (\<Union>j \<in> set (ro_Inherits role) - {i}. role_perms roles j) \<union> set (ro_Permissions role)"
  proof (cases rule: converse_rtranclE)
    case base
    then show ?thesis using j assms by simp
  next
    case (step k)
    then have "k \<in> set (ro_Inherits role) - {i}" using assms by (auto simp: inherits_rel_def)
    moreover have "p \<in> role_perms roles k" using step(2) j by (auto simp: role_perms_def)
    ultimately show ?thesis by blast
  qed
next
  fix p assume "p \<in> (\<Union>j \<in> set (ro_Inherits role) - {i}. role_perms roles j) \<union> set (ro_Permissions role)"
  then consider j where "j \<in> set (ro_Inherits role)" "j \<noteq> i" "p \<in> role_perms roles j" | "p \<in> set (ro_Permissions role)" by blast
  then show "p \<in> role_perms roles i"
  proof cases
    case 1
    then have "(i, j) \<in> inherits_rel roles" using assms by (auto simp: inherits_rel_def)
    then show ?thesis
      using 1(3) unfolding role_perms_def by (blast intro: converse_rtrancl_into_rtrancl)
  next
    case 2
    then show ?thesis using assms by (auto simp: role_perms_def)
  qed
qed

lemma resolve_correct:
  "cache_ok roles cache \<Longrightarrow> resolvePermissions depth roles i cache = Some (ps, cache') \<Longrightarrow>
     cache_ok roles cache' \<and> set ps = role_perms roles i"
  "cache_ok roles cache \<Longrightarrow> inheritLoop depth roles is seen cache = Some (ps, cache') \<Longrightarrow>
     cache_ok roles cache' \<and> set ps = (\<Union>j \<in> set is - seen. role_perms roles j)"
proof (induction depth roles i cache and depth roles "is" seen cache arbitrary: ps cache' and ps cache'
    rule: resolvePermissions_inheritLoop.induct)
  case (2 depth roles i cache)
  show ?case
  proof (cases "cache i")
    case (Some c)
    then show ?thesis using "2.prems" by (auto simp: cache_ok_def)
  next
    case None
    show ?thesis
    proof (cases "map_of roles i")
      case None
      then show ?thesis using "2.prems" \<open>cache i = None\<close> by (simp add: role_perms_missing)
    next
      case (Some role)
      then obtain qs c1 where l: "inheritLoop depth roles (ro_Inherits role) {i} cache = Some (qs, c1)"
        and r: "ps = qs @ ro_Permissions role" "cache' = c1(i \<mapsto> qs @ ro_Permissions role)"
        using "2.prems"(2) \<open>cache i = None\<close> by (auto simp: Let_def split: option.splits)
      have "cache_ok roles c1 \<and> set qs = (\<Union>j \<in> set (ro_Inherits role) - {i}. role_perms roles j)"
        using "2.IH" [OF \<open>cache i = None\<close> Some "2.prems"(1) l] .
      then show ?thesis
        using role_perms_unfold [OF Some] r by (auto simp: cache_ok_def)
    qed
  qed
next
  case (4 depth roles i "is" seen cache)
  show ?case
  proof (cases "i \<in> seen")
    case True
    then show ?thesis using "4.IH"(1) [OF True "4.prems"(1)] "4.prems"(2) by (simp add: insert_Diff_if)
  next
    case False
    then obtain qs c1 rs where a: "resolvePermissions depth roles i cache = Some (qs, c1)"
      and b: "inheritLoop depth roles is (insert i seen) c1 = Some (rs, cache')" and ps: "ps = qs @ rs"
      using "4.prems"(2) by (auto split: option.splits)
    note A = "4.IH"(2) [OF False "4.prems"(1) a]
    note B = "4.IH"(3) [OF False a refl _ b]
    then show ?thesis using A ps False by auto
  qed
qed simp_all

text \<open>An inheritance without cycles has a rank that falls along it.\<close>

definition ranked :: "(string \<times> Role) list \<Rightarrow> (string \<Rightarrow> nat) \<Rightarrow> bool" where
  "ranked roles rank \<longleftrightarrow> (\<forall>(i, j) \<in> inherits_rel roles. rank j < rank i)"

lemma resolve_total:
  "ranked roles rank \<Longrightarrow> rank i < depth \<Longrightarrow> resolvePermissions depth roles i cache \<noteq> None"
  "ranked roles rank \<Longrightarrow> (\<And>j. j \<in> set is - seen \<Longrightarrow> rank j < depth) \<Longrightarrow> inheritLoop depth roles is seen cache \<noteq> None"
proof (induction depth roles i cache and depth roles "is" seen cache rule: resolvePermissions_inheritLoop.induct)
  case (2 depth roles i cache)
  show ?case
  proof (cases "cache i = None \<and> map_of roles i \<noteq> None")
    case True
    then obtain role where role: "cache i = None" "map_of roles i = Some role" by auto
    have "rank j < depth" if "j \<in> set (ro_Inherits role) - {i}" for j
    proof -
      have "(i, j) \<in> inherits_rel roles" using that role(2) by (auto simp: inherits_rel_def)
      then show ?thesis using "2.prems" unfolding ranked_def by fastforce
    qed
    then show ?thesis using "2.IH" [OF role "2.prems"(1)] role by (auto simp: Let_def)
  qed (auto split: option.splits)
next
  case (4 depth roles i "is" seen cache)
  show ?case
  proof (cases "i \<in> seen")
    case True
    then show ?thesis using "4.IH"(1) [OF True "4.prems"(1)] "4.prems"(2) by simp
  next
    case False
    then obtain qs c1 where a: "resolvePermissions depth roles i cache = Some (qs, c1)"
      using "4.IH"(2) [OF False "4.prems"(1)] "4.prems"(2) by auto
    show ?thesis using "4.IH"(3) [OF False a refl "4.prems"(1)] "4.prems"(2) False a by auto
  qed
qed simp_all

text \<open>A set of roles of which each inherits from another one of the set: following them never ends.\<close>

definition entangled :: "(string \<times> Role) list \<Rightarrow> string set \<Rightarrow> bool" where
  "entangled roles C \<longleftrightarrow> (\<forall>i \<in> C. \<exists>j \<in> C. (i, j) \<in> inherits_rel roles)"

lemma resolve_entangled:
  "entangled roles C \<Longrightarrow> \<forall>j \<in> C. cache j = None \<Longrightarrow>
     (i \<in> C \<longrightarrow> resolvePermissions depth roles i cache = None) \<and>
     (\<forall>ps c'. resolvePermissions depth roles i cache = Some (ps, c') \<longrightarrow> (\<forall>j \<in> C. c' j = None))"
  "entangled roles C \<Longrightarrow> \<forall>j \<in> C. cache j = None \<Longrightarrow>
     ((\<exists>j \<in> set is - seen. j \<in> C) \<longrightarrow> inheritLoop depth roles is seen cache = None) \<and>
     (\<forall>ps c'. inheritLoop depth roles is seen cache = Some (ps, c') \<longrightarrow> (\<forall>j \<in> C. c' j = None))"
proof (induction depth roles i cache and depth roles "is" seen cache rule: resolvePermissions_inheritLoop.induct)
  case (2 depth roles i cache)
  show ?case
  proof (cases "cache i = None \<and> map_of roles i \<noteq> None")
    case True
    then obtain role where role: "cache i = None" "map_of roles i = Some role" by auto
    note IH = "2.IH" [OF role "2.prems"]
    have "inheritLoop depth roles (ro_Inherits role) {i} cache = None" if "i \<in> C"
    proof -
      obtain j where "j \<in> C" "(i, j) \<in> inherits_rel roles" using "2.prems"(1) \<open>i \<in> C\<close> by (auto simp: entangled_def)
      then show ?thesis using IH role(2) by (auto simp: inherits_rel_def)
    qed
    then show ?thesis using IH role by (auto simp: Let_def split: option.splits)
  next
    case False
    have "i \<notin> C" if "map_of roles i = None" using "2.prems"(1) that by (auto simp: entangled_def inherits_rel_def)
    then show ?thesis using "2.prems"(2) False by (auto split: option.splits)
  qed
next
  case (4 depth roles i "is" seen cache)
  show ?case
  proof (cases "i \<in> seen")
    case True
    then show ?thesis using "4.IH"(1) [OF True "4.prems"] by auto
  next
    case False
    note A = "4.IH"(2) [OF False "4.prems"]
    show ?thesis
    proof (cases "resolvePermissions depth roles i cache")
      case (Some a)
      obtain qs c1 where a: "a = (qs, c1)" by fastforce
      have "i \<notin> C" "\<forall>j \<in> C. c1 j = None" using A Some a by auto
      then show ?thesis using "4.IH"(3) [OF False Some a [symmetric] "4.prems"(1)] False Some a by (auto split: option.splits)
    qed (use False in simp)
  qed
qed simp_all

section \<open>Priorities\<close>

abbreviation by_priority :: "Policy list \<Rightarrow> bool" where
  "by_priority \<equiv> sorted_wrt (\<lambda>p q. po_Priority p \<ge> po_Priority q)"

lemma bubble_sorted: "by_priority ps \<Longrightarrow> n < length ps \<Longrightarrow> bubble n ps = ps"
proof (induction n)
  case (Suc n)
  then have "\<not> po_Priority (ps ! Suc n) > po_Priority (ps ! n)"
    using sorted_wrt_nth_less [of _ ps n "Suc n"] by fastforce
  then show ?case using Suc by simp
qed simp

lemma bubble_prefix:
  "n < length xs \<Longrightarrow> bubble n (xs @ ys) = bubble n xs @ ys"
proof (induction n arbitrary: xs)
  case (Suc n)
  then show ?case by (simp add: nth_append list_update_append)
qed simp

text \<open>The pass inserts the last policy behind all policies of at least its priority.\<close>

lemma bubble_insert:
  assumes "by_priority xs"
  shows "bubble (length xs) (xs @ p # ys) =
    takeWhile (\<lambda>q. po_Priority q \<ge> po_Priority p) xs @ p # dropWhile (\<lambda>q. po_Priority q \<ge> po_Priority p) xs @ ys"
  using assms
proof (induction xs arbitrary: ys rule: rev_induct)
  case (snoc x xs)
  have sorted: "by_priority xs" and le: "\<forall>q \<in> set xs. po_Priority q \<ge> po_Priority x"
    using snoc.prems by (auto simp: sorted_wrt_append)
  show ?case
  proof (cases "po_Priority p > po_Priority x")
    case True
    have swap: "((xs @ [x]) @ p # ys)[Suc (length xs) := x, length xs := p] = xs @ p # x # ys"
      by (simp add: list_update_append)
    have "bubble (length (xs @ [x])) ((xs @ [x]) @ p # ys) = bubble (length xs) (xs @ p # x # ys)"
      using True swap by (simp add: nth_append)
    then show ?thesis
      using snoc.IH [OF sorted, of "x # ys"] True by (simp add: takeWhile_tail dropWhile_append3 takeWhile_append)
  next
    case False
    then have all: "\<forall>q \<in> set (xs @ [x]). po_Priority q \<ge> po_Priority p" using le by auto
    have "by_priority ((xs @ [x]) @ [p])" using snoc.prems all by (auto simp: sorted_wrt_append)
    then have "bubble (length (xs @ [x])) ((xs @ [x]) @ [p]) = (xs @ [x]) @ [p]" by (intro bubble_sorted) simp_all
    then have "bubble (length (xs @ [x])) (((xs @ [x]) @ [p]) @ ys) = ((xs @ [x]) @ [p]) @ ys"
      by (subst bubble_prefix) simp_all
    then show ?thesis
      using all takeWhile_eq_all_conv [of "\<lambda>q. po_Priority q \<ge> po_Priority p" "xs @ [x]"]
        dropWhile_eq_Nil_conv [of "\<lambda>q. po_Priority q \<ge> po_Priority p" "xs @ [x]"] by simp
  qed
qed simp

lemma by_priority_insert:
  assumes "by_priority xs"
  shows "by_priority (takeWhile (\<lambda>q. po_Priority q \<ge> po_Priority p) xs @ p # dropWhile (\<lambda>q. po_Priority q \<ge> po_Priority p) xs)"
  using assms
proof (induction xs)
  case (Cons x xs)
  let ?P = "\<lambda>q. po_Priority q \<ge> po_Priority p"
  have x: "\<forall>q \<in> set xs. po_Priority x \<ge> po_Priority q" "by_priority xs" using Cons.prems by simp_all
  have "set (takeWhile ?P xs) \<union> set (dropWhile ?P xs) = set xs"
    using takeWhile_dropWhile_id [of ?P xs] by (metis set_append)
  then have rest: "set (takeWhile ?P xs @ p # dropWhile ?P xs) = insert p (set xs)" by auto
  show ?case
  proof (cases "?P x")
    case True
    then have "\<forall>q \<in> set (takeWhile ?P xs @ p # dropWhile ?P xs). po_Priority x \<ge> po_Priority q" using x(1) unfolding rest by simp
    then have "by_priority (x # takeWhile ?P xs @ p # dropWhile ?P xs)" using Cons.IH [OF x(2)] unfolding sorted_wrt.simps by blast
    then show ?thesis using True by simp
  next
    case False
    then have "\<forall>q \<in> set (x # xs). po_Priority p \<ge> po_Priority q" using x(1) by fastforce
    then show ?thesis using False Cons.prems by simp
  qed
qed simp

lemma by_priority_removeFirst: "by_priority ps \<Longrightarrow> by_priority (removeFirst i ps)"
proof (induction ps)
  case (Cons p ps)
  have "set (removeFirst i ps) \<subseteq> set ps" by (induction ps) auto
  then show ?case using Cons by auto
qed simp

inductive authz_step :: "Authorizer \<Rightarrow> Authorizer \<Rightarrow> bool" where
  "authz_step a (AddRole now role a)"
| "authz_step a (RemoveRole i a)"
| "authz_step a (AddPolicy policy a)"
| "authz_step a (RemovePolicy i a)"
| "authz_step a (SetAuditLogger present a)"
| "Authorize depth hour now ctx a = Some (res, a') \<Longrightarrow> authz_step a a'"

inductive authz_reachable :: "Authorizer \<Rightarrow> bool" where
  authz_new: "authz_reachable (NewAuthorizer now)"
| authz_next: "authz_reachable a \<Longrightarrow> authz_step a a' \<Longrightarrow> authz_reachable a'"

lemma logAudit_sel [simp]:
  "az_policies (logAudit now u ctx ok reason a) = az_policies a" "az_cache (logAudit now u ctx ok reason a) = az_cache a"
  "az_roles (logAudit now u ctx ok reason a) = az_roles a"
  by (simp_all add: logAudit_def)

lemma Authorize_frame:
  "Authorize depth hour now ctx a = Some (res, a') \<Longrightarrow> az_policies a' = az_policies a \<and> az_roles a' = az_roles a"
  by (auto simp: Authorize_def Let_def split: option.splits PolicyDecision.splits if_splits prod.splits)

lemma AddRole_policies [simp]: "az_policies (AddRole now role a) = az_policies a"
  by (simp add: AddRole_def Let_def)

lemma reachable_by_priority:
  assumes "authz_reachable a"
  shows "by_priority (az_policies a)"
  using assms
proof induction
  case (authz_new now)
  have "az_policies (fold (AddRole now) roles a) = az_policies a" for roles a
    by (induction roles arbitrary: a) simp_all
  then show ?case by (simp only: NewAuthorizer_def addDefaultRoles_def Authorizer.simps sorted_wrt.simps)
next
  case (authz_next a a')
  from authz_next(2,3) show ?case
  proof cases
    case (3 policy)
    then show ?thesis
      using by_priority_insert bubble_insert [of "az_policies a" policy "[]"] authz_next(3) by (simp add: AddPolicy_def)
  next
    case (6 depth hour now ctx res)
    then show ?thesis using Authorize_frame authz_next(3) by metis
  qed (simp_all add: RemoveRole_def RemovePolicy_def SetAuditLogger_def by_priority_removeFirst)
qed

section \<open>Decisions\<close>

lemma roleLoop_correct:
  assumes "cache_ok roles cache" "ranked roles rank" "\<forall>i \<in> set ps. rank i < depth"
  shows "\<exists>cache'. roleLoop depth roles ps ctx cache = Some (\<exists>i \<in> set ps. \<exists>p \<in> role_perms roles i. grants ctx p, cache')
    \<and> cache_ok roles cache'"
  using assms
proof (induction ps arbitrary: cache)
  case (Cons i ps)
  obtain qs c1 where res: "resolvePermissions depth roles i cache = Some (qs, c1)"
    using resolve_total(1) [OF Cons.prems(2), of i depth cache] Cons.prems(3) by auto
  note c = resolve_correct(1) [OF Cons.prems(1) res]
  show ?case
  proof (cases "list_ex (grants ctx) qs")
    case True
    then show ?thesis using c res by (auto simp: list_ex_iff)
  next
    case False
    then have "\<not> (\<exists>p \<in> role_perms roles i. grants ctx p)" using c by (auto simp: list_ex_iff)
    then show ?thesis using Cons.IH [of c1] Cons.prems c res False by simp
  qed
qed simp

text \<open>What the decision should be: the first policy, by priority, that applies decides; without one, a role of the user that permits
  the action, directly or by inheritance, or the permission of an administrator.\<close>

definition deciding :: "int \<Rightarrow> Policy list \<Rightarrow> AuthenticatedUser \<Rightarrow> AuthzContext \<Rightarrow> PolicyDecision option" where
  "deciding hour ps u ctx =
     (case find (\<lambda>p. Policy_Evaluate hour p u ctx \<noteq> Some PolicyNotApplicable) ps of
        None \<Rightarrow> Some PolicyNotApplicable | Some p \<Rightarrow> Policy_Evaluate hour p u ctx)"

definition permits :: "AuthzContext \<Rightarrow> RolePermission \<Rightarrow> bool" where
  "permits ctx p \<longleftrightarrow> rp_Resource p = cx_Resource ctx \<and> {cx_Action ctx, ActionManage} \<inter> set (rp_Actions p) \<noteq> {}
     \<and> (\<forall>cond \<in> set (rp_Conditions p). cond ctx)"

definition authorized :: "int \<Rightarrow> AuthzContext \<Rightarrow> Authorizer \<Rightarrow> bool" where
  "authorized hour ctx a \<longleftrightarrow>
     (\<exists>u. cx_User ctx = Some u \<and>
        (deciding hour (az_policies a) u ctx = Some PolicyAllow \<or>
         deciding hour (az_policies a) u ctx = Some PolicyNotApplicable \<and>
           ((\<exists>i \<in> set (au_Permissions u). \<exists>p \<in> role_perms (az_roles a) i. permits ctx p) \<or> PermissionAdmin \<in> set (au_Permissions u))))"

lemma firstPolicy_deciding: "firstPolicy hour ps u ctx = deciding hour ps u ctx"
proof (induction ps)
  case (Cons p ps)
  then show ?case
  proof (cases "Policy_Evaluate hour p u ctx")
    case (Some d)
    then show ?thesis using Cons by (cases d) (simp_all add: deciding_def)
  qed (simp add: deciding_def)
qed (simp add: deciding_def)

lemma containsAction_iff: "containsAction as action \<longleftrightarrow> action \<in> set as \<or> ActionManage \<in> set as"
  by (induction as) auto

lemma grants_permits: "grants ctx p \<longleftrightarrow> permits ctx p"
  by (auto simp: grants_def permits_def containsAction_iff list_all_iff)

lemma Authorize_user:
  assumes "cache_ok (az_roles a) (az_cache a)" "ranked (az_roles a) rank" "cx_User ctx = Some u"
    and "\<forall>i \<in> set (au_Permissions u). rank i < depth" "deciding hour (az_policies a) u ctx = Some d"
  shows "\<exists>res a'. Authorize depth hour now ctx a = Some (res, a') \<and> cache_ok (az_roles a') (az_cache a')
    \<and> res = (case d of PolicyDeny \<Rightarrow> Some ErrPolicyViolation | _ \<Rightarrow> if authorized hour ctx a then None else Some ErrAccessDenied)"
proof -
  obtain cache' where l: "roleLoop depth (az_roles a) (au_Permissions u) ctx (az_cache a)
      = Some (\<exists>i \<in> set (au_Permissions u). \<exists>p \<in> role_perms (az_roles a) i. permits ctx p, cache')" "cache_ok (az_roles a) cache'"
    using roleLoop_correct [OF assms(1,2,4), of ctx] unfolding grants_permits by blast
  show ?thesis
    using assms(1,3,5) l by (cases d) (auto simp: Authorize_def authorized_def firstPolicy_deciding HasPermission_iff Let_def)
qed

text \<open>C31. The decision is the specified one: where the inheritance has no cycle and the cache is right, \<^verbatim>\<open>Authorize\<close> returns, with a cache
  that is still right, and it allows the action exactly when the specification does, whatever was cached and in which order
  roles were resolved. A refusal is a policy violation exactly when the deciding policy denies.\<close>

theorem Authorize_decides:
  assumes "cache_ok (az_roles a) (az_cache a)" "ranked (az_roles a) rank"
    and "\<And>u. cx_User ctx = Some u \<Longrightarrow> (\<forall>i \<in> set (au_Permissions u). rank i < depth) \<and> deciding hour (az_policies a) u ctx \<noteq> None"
  shows "\<exists>res a'. Authorize depth hour now ctx a = Some (res, a') \<and> (res = None \<longleftrightarrow> authorized hour ctx a)
    \<and> (res = Some ErrPolicyViolation \<longleftrightarrow>
        (\<exists>u. cx_User ctx = Some u \<and> deciding hour (az_policies a) u ctx = Some PolicyDeny))
    \<and> cache_ok (az_roles a') (az_cache a')"
proof (cases "cx_User ctx")
  case None
  then show ?thesis using assms(1) by (simp add: Authorize_def authorized_def)
next
  case (Some u)
  then obtain d where d: "deciding hour (az_policies a) u ctx = Some d" and rank: "\<forall>i \<in> set (au_Permissions u). rank i < depth"
    using assms(3) by auto
  have "authorized hour ctx a \<Longrightarrow> d \<noteq> PolicyDeny"
    using Some d by (auto simp: authorized_def)
  then show ?thesis
    using Authorize_user [OF assms(1,2) Some rank d, of now] Some d by (cases d) auto
qed

lemma default_roles_ranked: "ranked (az_roles (NewAuthorizer now)) (\<lambda>i. if i = ''recording_manager'' then 1 else 0)"
  by (auto simp: ranked_def inherits_rel_def NewAuthorizer_def addDefaultRoles_def AddRole_def default_role_def Let_def
      update_conv' split: if_splits)

definition sample_context :: AuthzContext where
  "sample_context = \<lparr>cx_User = Some \<lparr>au_ID = ''u'', au_Name = ''u'', au_Method = AuthMethodBasic,
     au_Permissions = [''recording_manager''], au_Metadata = Map.empty, au_AuthTime = 1, au_ExpiresAt = 0\<rparr>,
     cx_Resource = ''session'', cx_ResourceID = [], cx_Action = ActionRead, cx_Metadata = None\<rparr>"

theorem Authorize_decides_witness:
  "\<exists>res a'. Authorize 2 12 5 sample_context (NewAuthorizer 1) = Some (res, a')
     \<and> (res = None \<longleftrightarrow> authorized 12 sample_context (NewAuthorizer 1))"
proof -
  have "cache_ok (az_roles (NewAuthorizer 1)) (az_cache (NewAuthorizer 1))"
    by (simp add: cache_ok_def NewAuthorizer_def addDefaultRoles_def AddRole_def default_role_def Let_def)
  moreover have "az_policies (NewAuthorizer 1) = []"
    by (simp add: NewAuthorizer_def addDefaultRoles_def)
  ultimately show ?thesis
    using Authorize_decides [OF _ default_roles_ranked, of 1 sample_context 2 12 5] by (auto simp: sample_context_def deciding_def)
qed

text \<open>A role that inherits, directly or not, from itself is never resolved: once each role of a set inherits from another
  role of the set and none of them is cached, resolving any of them exhausts the stack, however deep it is.\<close>

lemma cyclic_roles_overflow:
  assumes "entangled (az_roles a) C" "\<forall>j \<in> C. az_cache a j = None" "i \<in> C"
  shows "resolvePermissions depth (az_roles a) i (az_cache a) = None"
  using resolve_entangled(1) [OF assms(1,2)] assms(3) by blast

definition sample_cycle :: Authorizer where
  "sample_cycle = AddRole 1 (default_role ''y'' [] [] [''x''] []) (AddRole 1 (default_role ''x'' [] [] [''y''] []) (NewAuthorizer 1))"

lemma sample_cycle_entangled: "entangled (az_roles sample_cycle) {''x'', ''y''}"
  unfolding entangled_def sample_cycle_def inherits_rel_def
  by (simp add: AddRole_def default_role_def Let_def update_conv')

text \<open>C32. Permissions that are taken away stay in the cache: after a role has been resolved, replacing or removing a role that it
  inherits from changes nothing, since only the entry of the replaced role itself is dropped.\<close>

theorem cached_permissions_stale:
  assumes "resolvePermissions depth (az_roles a) child (az_cache a) = Some (ps, cache)" "map_of (az_roles a) child \<noteq> None"
    and "ro_ID parent \<noteq> child" "gone \<noteq> child"
  shows "(\<exists>c. resolvePermissions 1 (az_roles (AddRole now parent (a\<lparr>az_cache := cache\<rparr>))) child
        (az_cache (AddRole now parent (a\<lparr>az_cache := cache\<rparr>))) = Some (ps, c))
    \<and> (\<exists>c. resolvePermissions 1 (az_roles (RemoveRole gone (a\<lparr>az_cache := cache\<rparr>))) child
        (az_cache (RemoveRole gone (a\<lparr>az_cache := cache\<rparr>))) = Some (ps, c))"
proof -
  have "cache child = Some ps"
    using assms(1,2) by (cases depth) (auto simp: Let_def split: option.splits)
  then show ?thesis
    using assms(3,4) by (simp add: AddRole_def RemoveRole_def Let_def)
qed

theorem cached_permissions_stale_witness:
  "\<exists>ps cache. resolvePermissions 2 (az_roles (NewAuthorizer 1)) ''recording_manager'' (az_cache (NewAuthorizer 1)) = Some (ps, cache)
     \<and> (\<exists>c. resolvePermissions 1 (az_roles (RemoveRole ''monitor'' ((NewAuthorizer 1)\<lparr>az_cache := cache\<rparr>))) ''recording_manager''
        (az_cache (RemoveRole ''monitor'' ((NewAuthorizer 1)\<lparr>az_cache := cache\<rparr>))) = Some (ps, c))"
proof -
  have role: "map_of (az_roles (NewAuthorizer 1)) ''recording_manager'' \<noteq> None"
    by (simp add: NewAuthorizer_def addDefaultRoles_def AddRole_def default_role_def Let_def update_conv')
  obtain ps cache where r: "resolvePermissions 2 (az_roles (NewAuthorizer 1)) ''recording_manager'' (az_cache (NewAuthorizer 1)) = Some (ps, cache)"
    using resolve_total(1) [OF default_roles_ranked, of "''recording_manager''" 2 1 "az_cache (NewAuthorizer 1)"] by auto
  show ?thesis
    using cached_permissions_stale [OF r role, of "default_role ''monitor'' [] [] [] []" "''monitor''" 2] r
    by (auto simp: default_role_def)
qed

text \<open>In every state the policies are ordered by falling priority, and a new policy goes behind all those of at least its
  priority, so among equals the older one decides.\<close>

lemma policies_by_priority:
  assumes "authz_reachable a"
  shows "by_priority (az_policies a) \<and>
    az_policies (AddPolicy p a) = takeWhile (\<lambda>q. po_Priority q \<ge> po_Priority p) (az_policies a) @ p #
      dropWhile (\<lambda>q. po_Priority q \<ge> po_Priority p) (az_policies a)"
  using reachable_by_priority [OF assms] bubble_insert [of "az_policies a" p "[]"] by (simp add: AddPolicy_def)

text \<open>A pattern that was never compiled matches every resource.\<close>

lemma uncompiled_pattern_matches:
  "ResourceSpec_Matches \<lparr>rsp_Pattern = pattern, rsp_regex = None\<rparr> resourceID"
  by (simp add: ResourceSpec_Matches_def)

text \<open>Without a wildcard a compiled pattern matches only itself, and a pattern that ends in its only wildcard matches the texts that
  begin with the rest of it and have no line break behind that.\<close>

lemma glob_match_literal: "glob_match (map Lit cs @ gs) s \<longleftrightarrow> (\<exists>t. s = cs @ t \<and> glob_match gs t)"
proof (induction cs arbitrary: s)
  case (Cons c cs)
  then show ?case by (cases s) auto
qed simp

lemma glob_match_star: "glob_match [Wildcard] s \<longleftrightarrow> CHR 0x0A \<notin> set s"
  by (induction s) auto

lemma Compile_prefix:
  assumes "CHR ''*'' \<notin> set cs"
  shows "ResourceSpec_Matches (Compile \<lparr>rsp_Pattern = cs @ ''*'', rsp_regex = None\<rparr>) s \<longleftrightarrow> (\<exists>t. s = cs @ t \<and> CHR 0x0A \<notin> set t)"
proof -
  have m: "map (\<lambda>c. if c = CHR ''*'' then Wildcard else Lit c) cs = map Lit cs" using assms by (auto intro: map_cong)
  show ?thesis
    by (simp add: ResourceSpec_Matches_def Compile_def m glob_match_literal glob_match_star)
qed

end
