(* ===== verification/Backpressure.thy ===== *)
theory Backpressure
  imports Karl_Prelude Go_Float "HOL-Library.AList"
begin

text \<open>
  Queue limits, \<^verbatim>\<open>internal/backpressure.go\<close>: the controller with its four strategies, the recording and media variants, and
  the variant that adapts to the load of the system.

  The controller has no lock: its fields are atomics, and \<^verbatim>\<open>Acquire\<close> reads the size in one step and adds to it in
  another. \<open>acquireTail\<close> is what follows the read, so that a call is \<open>acquireTail\<close> at the current size when nothing
  interferes, and the goroutines of \<open>bp_step\<close> may read at one moment and continue at another. A blocked call is driven by
  the events its \<^verbatim>\<open>select\<close> takes, each preceded by what other goroutines do to the controller; \<open>None\<close> is a call that is
  still blocked. The channel \<^verbatim>\<open>spaceCh\<close> has room for one signal, the flag \<open>bp_space\<close>. Counters are unbounded here. The
  buffer pool holds no state the code relies on and the statistics maps repeat the counters; both are left out.
\<close>

section \<open>The controller\<close>

datatype BackpressureStrategy = StrategyBlock | StrategyDrop | StrategyDropOldest | StrategyReject

primrec BackpressureStrategy_String :: "BackpressureStrategy \<Rightarrow> string" where
  "BackpressureStrategy_String StrategyBlock = ''block''"
| "BackpressureStrategy_String StrategyDrop = ''drop''"
| "BackpressureStrategy_String StrategyDropOldest = ''drop_oldest''"
| "BackpressureStrategy_String StrategyReject = ''reject''"

record BackpressureConfig =
  bc_MaxQueueSize :: int
  bc_Strategy :: BackpressureStrategy
  bc_BlockTimeout :: duration
  bc_HighWaterMark :: rat
  bc_LowWaterMark :: rat
  bc_MetricsInterval :: duration

definition DefaultBackpressureConfig :: BackpressureConfig where
  "DefaultBackpressureConfig =
     \<lparr>bc_MaxQueueSize = 10000, bc_Strategy = StrategyDropOldest, bc_BlockTimeout = 5 * second, bc_HighWaterMark = fl (4 / 5),
      bc_LowWaterMark = fl (3 / 5), bc_MetricsInterval = second\<rparr>"

datatype bp_error = ErrBackpressure | ErrQueueClosed | ErrContext string

record BackpressureController =
  bp_config :: BackpressureConfig
  bp_queueSize :: int
  bp_totalEnqueued :: int
  bp_totalDequeued :: int
  bp_totalDropped :: int
  bp_totalRejected :: int
  bp_underPressure :: bool
  bp_space :: bool
  bp_closed :: bool

definition NewBackpressureController :: "BackpressureConfig option \<Rightarrow> BackpressureController" where
  "NewBackpressureController config =
     \<lparr>bp_config = (case config of None \<Rightarrow> DefaultBackpressureConfig | Some c \<Rightarrow> c), bp_queueSize = 0, bp_totalEnqueued = 0,
      bp_totalDequeued = 0, bp_totalDropped = 0, bp_totalRejected = 0, bp_underPressure = False, bp_space = False,
      bp_closed = False\<rparr>"

text \<open>Comparisons of a quotient with a mark; a quotient by zero is infinite, or not a number and then not comparable.\<close>

definition quotient_ge :: "int \<Rightarrow> int \<Rightarrow> rat \<Rightarrow> bool" where
  "quotient_ge a b mark = (if b = 0 then a > 0 else fl (of_int a / of_int b) \<ge> mark)"

definition quotient_le :: "int \<Rightarrow> int \<Rightarrow> rat \<Rightarrow> bool" where
  "quotient_le a b mark = (if b = 0 then a < 0 else fl (of_int a / of_int b) \<le> mark)"

definition checkHighWaterMark :: "int \<Rightarrow> int \<Rightarrow> BackpressureController \<Rightarrow> BackpressureController" where
  "checkHighWaterMark currentSize maxSize bp =
     (if quotient_ge currentSize maxSize (bc_HighWaterMark (bp_config bp)) then bp\<lparr>bp_underPressure := True\<rparr> else bp)"

definition maxSize :: "BackpressureController \<Rightarrow> int" where
  "maxSize bp = bc_MaxQueueSize (bp_config bp)"

definition enqueue :: "BackpressureController \<Rightarrow> BackpressureController" where
  "enqueue bp =
     (let bp1 = bp\<lparr>bp_queueSize := bp_queueSize bp + 1, bp_totalEnqueued := bp_totalEnqueued bp + 1\<rparr>
      in checkHighWaterMark (bp_queueSize bp1) (maxSize bp1) bp1)"

datatype wait_event = CtxDone string | CloseSignal | TimeoutSignal | SpaceSignal

text \<open>A case of the \<^verbatim>\<open>select\<close> that is not ready is not taken: the call stays blocked.\<close>

fun waitForSpace ::
  "((BackpressureController \<Rightarrow> BackpressureController) \<times> wait_event) list \<Rightarrow> BackpressureController
   \<Rightarrow> (bp_error option \<times> BackpressureController) option" where
  "waitForSpace [] bp = None"
| "waitForSpace ((others, ev) # evs) bp =
     (let bp1 = others bp in
      case ev of
        CtxDone e \<Rightarrow> Some (Some (ErrContext e), bp1)
      | CloseSignal \<Rightarrow> if bp_closed bp1 then Some (Some ErrQueueClosed, bp1) else None
      | TimeoutSignal \<Rightarrow>
          if bc_BlockTimeout (bp_config bp1) > 0
          then Some (Some ErrBackpressure, bp1\<lparr>bp_totalRejected := bp_totalRejected bp1 + 1\<rparr>) else None
      | SpaceSignal \<Rightarrow>
          if bp_space bp1
          then let bp2 = bp1\<lparr>bp_space := False\<rparr> in
               if bp_queueSize bp2 < maxSize bp2 then Some (None, enqueue bp2) else waitForSpace evs bp2
          else None)"

definition acquireBlocking ::
  "((BackpressureController \<Rightarrow> BackpressureController) \<times> wait_event) list \<Rightarrow> BackpressureController
   \<Rightarrow> (bp_error option \<times> BackpressureController) option" where
  "acquireBlocking evs bp = (if bp_queueSize bp < maxSize bp then Some (None, enqueue bp) else waitForSpace evs bp)"

text \<open>What \<^verbatim>\<open>Acquire\<close> does after it has read \<open>currentSize\<close>, for the strategies that do not block.\<close>

definition acquireTail :: "int \<Rightarrow> BackpressureController \<Rightarrow> bp_error option \<times> BackpressureController" where
  "acquireTail currentSize bp =
     (case bc_Strategy (bp_config bp) of
        StrategyDropOldest \<Rightarrow> (None, enqueue bp)
      | StrategyDrop \<Rightarrow>
          if currentSize \<ge> maxSize bp then (Some ErrBackpressure, bp\<lparr>bp_totalDropped := bp_totalDropped bp + 1\<rparr>)
          else (None, enqueue bp)
      | _ \<Rightarrow>
          if currentSize \<ge> maxSize bp then (Some ErrBackpressure, bp\<lparr>bp_totalRejected := bp_totalRejected bp + 1\<rparr>)
          else (None, enqueue bp))"

definition Acquire ::
  "((BackpressureController \<Rightarrow> BackpressureController) \<times> wait_event) list \<Rightarrow> BackpressureController
   \<Rightarrow> (bp_error option \<times> BackpressureController) option" where
  "Acquire evs bp =
     (if bp_closed bp then Some (Some ErrQueueClosed, bp)
      else if bc_Strategy (bp_config bp) = StrategyBlock then acquireBlocking evs bp
      else Some (acquireTail (bp_queueSize bp) bp))"

definition Release :: "BackpressureController \<Rightarrow> BackpressureController" where
  "Release bp =
     (let bp1 = bp\<lparr>bp_queueSize := bp_queueSize bp - 1, bp_totalDequeued := bp_totalDequeued bp + 1\<rparr>;
          bp2 = (if quotient_le (bp_queueSize bp1) (maxSize bp1) (bc_LowWaterMark (bp_config bp1))
                 then bp1\<lparr>bp_underPressure := False\<rparr> else bp1)
      in bp2\<lparr>bp_space := True\<rparr>)"

definition ShouldDrop :: "BackpressureController \<Rightarrow> bool" where
  "ShouldDrop bp = (if bc_Strategy (bp_config bp) \<noteq> StrategyDropOldest then False else bp_queueSize bp > maxSize bp)"

definition NotifyDropped :: "BackpressureController \<Rightarrow> BackpressureController" where
  "NotifyDropped bp = bp\<lparr>bp_queueSize := bp_queueSize bp - 1, bp_totalDropped := bp_totalDropped bp + 1\<rparr>"

definition bp_Close :: "BackpressureController \<Rightarrow> BackpressureController" where
  "bp_Close bp = bp\<lparr>bp_closed := True\<rparr>"

section \<open>Recording\<close>

record sessionBackpressure =
  sn_queueSize :: int
  sn_dropped :: int
  sn_lastDrop :: gtime

record RecordingBackpressure =
  rb_bp :: BackpressureController
  rb_maxBufferSize :: int
  rb_sessions :: "string \<rightharpoonup> sessionBackpressure"

definition NewRecordingBackpressure :: "BackpressureConfig option \<Rightarrow> RecordingBackpressure" where
  "NewRecordingBackpressure config =
     (let c = (case config of
                 None \<Rightarrow> \<lparr>bc_MaxQueueSize = 5000, bc_Strategy = StrategyDropOldest, bc_BlockTimeout = second,
                          bc_HighWaterMark = 3 / 4, bc_LowWaterMark = 1 / 2, bc_MetricsInterval = 0\<rparr>
               | Some c \<Rightarrow> c)
      in \<lparr>rb_bp = NewBackpressureController (Some c), rb_maxBufferSize = 2048, rb_sessions = Map.empty\<rparr>)"

definition sessionOf :: "string \<Rightarrow> RecordingBackpressure \<Rightarrow> sessionBackpressure" where
  "sessionOf sessionID rb =
     (case rb_sessions rb sessionID of None \<Rightarrow> \<lparr>sn_queueSize = 0, sn_dropped = 0, sn_lastDrop = 0\<rparr> | Some sb \<Rightarrow> sb)"

definition recordDrop :: "gtime \<Rightarrow> string \<Rightarrow> RecordingBackpressure \<Rightarrow> RecordingBackpressure" where
  "recordDrop now sessionID rb =
     (let sb = sessionOf sessionID rb
      in rb\<lparr>rb_sessions := (rb_sessions rb)(sessionID \<mapsto> sb\<lparr>sn_dropped := sn_dropped sb + 1, sn_lastDrop := now\<rparr>)\<rparr>)"

definition AcquireBuffer ::
  "((BackpressureController \<Rightarrow> BackpressureController) \<times> wait_event) list \<Rightarrow> gtime \<Rightarrow> string \<Rightarrow> RecordingBackpressure
   \<Rightarrow> (bp_error option \<times> RecordingBackpressure) option" where
  "AcquireBuffer evs now sessionID rb =
     (case Acquire evs (rb_bp rb) of
        None \<Rightarrow> None
      | Some (Some e, bp) \<Rightarrow> Some (Some e, recordDrop now sessionID (rb\<lparr>rb_bp := bp\<rparr>))
      | Some (None, bp) \<Rightarrow>
          (let sb = sessionOf sessionID rb
           in Some (None, rb\<lparr>rb_bp := bp, rb_sessions := (rb_sessions rb)(sessionID \<mapsto> sb\<lparr>sn_queueSize := sn_queueSize sb + 1\<rparr>)\<rparr>)))"

text \<open>The second component says whether the buffer goes back to the pool.\<close>

definition ReleaseBuffer :: "int \<Rightarrow> string \<Rightarrow> RecordingBackpressure \<Rightarrow> RecordingBackpressure \<times> bool" where
  "ReleaseBuffer capacity sessionID rb =
     (let rb1 = rb\<lparr>rb_bp := Release (rb_bp rb)\<rparr>;
          rb2 = (case rb_sessions rb1 sessionID of
                   None \<Rightarrow> rb1
                 | Some sb \<Rightarrow> rb1\<lparr>rb_sessions := (rb_sessions rb1)(sessionID \<mapsto> sb\<lparr>sn_queueSize := sn_queueSize sb - 1\<rparr>)\<rparr>)
      in (rb2, capacity \<le> rb_maxBufferSize rb2 * 2))"

definition rb_NotifyDropped :: "gtime \<Rightarrow> string \<Rightarrow> RecordingBackpressure \<Rightarrow> RecordingBackpressure" where
  "rb_NotifyDropped now sessionID rb = recordDrop now sessionID (rb\<lparr>rb_bp := NotifyDropped (rb_bp rb)\<rparr>)"

definition rb_RemoveSession :: "string \<Rightarrow> RecordingBackpressure \<Rightarrow> RecordingBackpressure" where
  "rb_RemoveSession sessionID rb = rb\<lparr>rb_sessions := (rb_sessions rb)(sessionID := None)\<rparr>"

section \<open>Media\<close>

record streamBackpressure =
  st_packets :: int
  st_dropped :: int
  st_throttled :: bool

record MediaBackpressure =
  mb_streams :: "(string \<times> streamBackpressure) list"
  mb_maxPacketsPerStream :: int
  mb_maxTotalPackets :: int
  mb_totalPackets :: int
  mb_totalDropped :: int
  mb_totalThrottled :: int

definition NewMediaBackpressure :: "int \<Rightarrow> int \<Rightarrow> MediaBackpressure" where
  "NewMediaBackpressure maxPacketsPerStream maxTotalPackets =
     \<lparr>mb_streams = [], mb_maxPacketsPerStream = maxPacketsPerStream, mb_maxTotalPackets = maxTotalPackets,
      mb_totalPackets = 0, mb_totalDropped = 0, mb_totalThrottled = 0\<rparr>"

definition streamOf :: "string \<Rightarrow> MediaBackpressure \<Rightarrow> streamBackpressure" where
  "streamOf streamID mb =
     (case map_of (mb_streams mb) streamID of None \<Rightarrow> \<lparr>st_packets = 0, st_dropped = 0, st_throttled = False\<rparr> | Some sb \<Rightarrow> sb)"

definition setStream :: "string \<Rightarrow> streamBackpressure \<Rightarrow> MediaBackpressure \<Rightarrow> MediaBackpressure" where
  "setStream streamID sb mb = mb\<lparr>mb_streams := AList.update streamID sb (mb_streams mb)\<rparr>"

definition AllowPacket :: "string \<Rightarrow> MediaBackpressure \<Rightarrow> bool \<times> MediaBackpressure" where
  "AllowPacket streamID mb =
     (if mb_totalPackets mb \<ge> mb_maxTotalPackets mb then (False, mb\<lparr>mb_totalDropped := mb_totalDropped mb + 1\<rparr>)
      else
        let sb = streamOf streamID mb in
        if st_throttled sb
        then (False, setStream streamID (sb\<lparr>st_dropped := st_dropped sb + 1\<rparr>) (mb\<lparr>mb_totalThrottled := mb_totalThrottled mb + 1\<rparr>))
        else
          let sb1 = sb\<lparr>st_packets := st_packets sb + 1\<rparr>; mb1 = mb\<lparr>mb_totalPackets := mb_totalPackets mb + 1\<rparr> in
          if st_packets sb1 > mb_maxPacketsPerStream mb
          then (False, setStream streamID (sb1\<lparr>st_throttled := True, st_dropped := st_dropped sb1 + 1\<rparr>)
                         (mb1\<lparr>mb_totalThrottled := mb_totalThrottled mb1 + 1\<rparr>))
          else (True, setStream streamID sb1 mb1))"

definition PacketProcessed :: "string \<Rightarrow> MediaBackpressure \<Rightarrow> MediaBackpressure" where
  "PacketProcessed streamID mb =
     (case map_of (mb_streams mb) streamID of
        None \<Rightarrow> mb
      | Some sb \<Rightarrow>
          (let sb1 = sb\<lparr>st_packets := st_packets sb - 1\<rparr>;
               half = (if 0 \<le> mb_maxPacketsPerStream mb then mb_maxPacketsPerStream mb div 2
                       else - ((- mb_maxPacketsPerStream mb) div 2));
               sb2 = (if st_packets sb1 < half then sb1\<lparr>st_throttled := False\<rparr> else sb1)
           in setStream streamID sb2 (mb\<lparr>mb_totalPackets := mb_totalPackets mb - 1\<rparr>)))"

definition RemoveStream :: "string \<Rightarrow> MediaBackpressure \<Rightarrow> MediaBackpressure" where
  "RemoveStream streamID mb =
     (case map_of (mb_streams mb) streamID of
        None \<Rightarrow> mb
      | Some sb \<Rightarrow> mb\<lparr>mb_totalPackets := mb_totalPackets mb - st_packets sb, mb_streams := AList.delete streamID (mb_streams mb)\<rparr>)"

section \<open>Adaptation to the load\<close>

record AdaptiveBackpressure =
  ab_baseController :: BackpressureController
  ab_cpuUsage :: int
  ab_memoryUsage :: int
  ab_cpuThreshold :: int
  ab_memoryThreshold :: int
  ab_scaleFactor :: int
  ab_minScale :: int
  ab_maxScale :: int

definition NewAdaptiveBackpressure :: "BackpressureConfig option \<Rightarrow> AdaptiveBackpressure" where
  "NewAdaptiveBackpressure config =
     \<lparr>ab_baseController = NewBackpressureController config, ab_cpuUsage = 0, ab_memoryUsage = 0, ab_cpuThreshold = 70,
      ab_memoryThreshold = 80, ab_scaleFactor = 100, ab_minScale = 20, ab_maxScale = 100\<rparr>"

definition pressureOf :: "int \<Rightarrow> int \<Rightarrow> int" where
  "pressureOf usage threshold = (if usage > threshold * 100 then (usage - threshold * 100) div 100 else 0)"

definition adjustScale :: "AdaptiveBackpressure \<Rightarrow> AdaptiveBackpressure" where
  "adjustScale ab =
     (let cpuPressure = pressureOf (ab_cpuUsage ab) (ab_cpuThreshold ab);
          memPressure = pressureOf (ab_memoryUsage ab) (ab_memoryThreshold ab);
          pressure = (if memPressure > cpuPressure then memPressure else cpuPressure);
          newScale = ab_maxScale ab - pressure
      in ab\<lparr>ab_scaleFactor := (if newScale < ab_minScale ab then ab_minScale ab else newScale)\<rparr>)"

definition UpdateSystemMetrics :: "rat \<Rightarrow> rat \<Rightarrow> AdaptiveBackpressure \<Rightarrow> AdaptiveBackpressure" where
  "UpdateSystemMetrics cpuPercent memoryPercent ab =
     adjustScale (ab\<lparr>ab_cpuUsage := trunc (fl (cpuPercent * 100)), ab_memoryUsage := trunc (fl (memoryPercent * 100))\<rparr>)"

definition GetEffectiveCapacity :: "AdaptiveBackpressure \<Rightarrow> int" where
  "GetEffectiveCapacity ab =
     (let v = maxSize (ab_baseController ab) * ab_scaleFactor ab in if 0 \<le> v then v div 100 else - ((- v) div 100))"

definition ab_Acquire ::
  "((BackpressureController \<Rightarrow> BackpressureController) \<times> wait_event) list \<Rightarrow> AdaptiveBackpressure
   \<Rightarrow> (bp_error option \<times> AdaptiveBackpressure) option" where
  "ab_Acquire evs ab =
     (let bp = ab_baseController ab in
      if bp_queueSize bp \<ge> GetEffectiveCapacity ab
      then Some (Some ErrBackpressure, ab\<lparr>ab_baseController := bp\<lparr>bp_totalRejected := bp_totalRejected bp + 1\<rparr>\<rparr>)
      else map_option (\<lambda>(e, bp'). (e, ab\<lparr>ab_baseController := bp'\<rparr>)) (Acquire evs bp))"

definition ab_Release :: "AdaptiveBackpressure \<Rightarrow> AdaptiveBackpressure" where
  "ab_Release ab = ab\<lparr>ab_baseController := Release (ab_baseController ab)\<rparr>"

section \<open>Goroutines that acquire at the same time\<close>

text \<open>\<open>T\<close> goroutines; each is idle or has read the size and not yet gone on. Slots are given back by any of them.\<close>

inductive bp_step :: "nat \<Rightarrow> BackpressureController \<times> (nat \<Rightarrow> int option) \<Rightarrow> BackpressureController \<times> (nat \<Rightarrow> int option) \<Rightarrow> bool"
  for T where
  bp_read: "i < T \<Longrightarrow> pcs i = None \<Longrightarrow> \<not> bp_closed bp \<Longrightarrow> bp_step T (bp, pcs) (bp, pcs(i := Some (bp_queueSize bp)))"
| bp_tail: "i < T \<Longrightarrow> pcs i = Some v \<Longrightarrow> bp_step T (bp, pcs) (snd (acquireTail v bp), pcs(i := None))"
| bp_release: "bp_queueSize bp > 0 \<Longrightarrow> bp_step T (bp, pcs) (Release bp, pcs)"
| bp_close: "bp_step T (bp, pcs) (bp_Close bp, pcs)"

inductive bp_reachable :: "nat \<Rightarrow> BackpressureConfig \<Rightarrow> BackpressureController \<times> (nat \<Rightarrow> int option) \<Rightarrow> bool" for T c where
  bp_init: "bp_reachable T c (NewBackpressureController (Some c), \<lambda>_. None)"
| bp_next: "bp_reachable T c s \<Longrightarrow> bp_step T s s' \<Longrightarrow> bp_reachable T c s'"

text \<open>The goroutines that have seen room.\<close>

definition committed :: "nat \<Rightarrow> int \<Rightarrow> (nat \<Rightarrow> int option) \<Rightarrow> nat set" where
  "committed T m pcs = {i. i < T \<and> (\<exists>v. pcs i = Some v \<and> v < m)}"

lemma committed_finite [simp]: "finite (committed T m pcs)"
  by (simp add: committed_def)

lemma enqueue_sel [simp]:
  "bp_config (enqueue bp) = bp_config bp" "bp_queueSize (enqueue bp) = bp_queueSize bp + 1"
  "bp_totalEnqueued (enqueue bp) = bp_totalEnqueued bp + 1" "bp_totalDequeued (enqueue bp) = bp_totalDequeued bp"
  "bp_totalDropped (enqueue bp) = bp_totalDropped bp" "bp_closed (enqueue bp) = bp_closed bp" "bp_space (enqueue bp) = bp_space bp"
  by (simp_all add: enqueue_def checkHighWaterMark_def Let_def)

lemma Release_sel [simp]:
  "bp_config (Release bp) = bp_config bp" "bp_queueSize (Release bp) = bp_queueSize bp - 1"
  "bp_totalEnqueued (Release bp) = bp_totalEnqueued bp" "bp_totalDequeued (Release bp) = bp_totalDequeued bp + 1"
  "bp_totalDropped (Release bp) = bp_totalDropped bp" "bp_space (Release bp)"
  by (simp_all add: Release_def Let_def)

lemma acquireTail_bounded:
  assumes "bc_Strategy (bp_config bp) \<in> {StrategyDrop, StrategyReject}"
  shows "bp_config (snd (acquireTail v bp)) = bp_config bp"
    and "bp_queueSize (snd (acquireTail v bp)) = (if v < maxSize bp then bp_queueSize bp + 1 else bp_queueSize bp)"
  using assms by (auto simp: acquireTail_def split: BackpressureStrategy.splits)

definition race_inv :: "nat \<Rightarrow> BackpressureConfig \<Rightarrow> BackpressureController \<times> (nat \<Rightarrow> int option) \<Rightarrow> bool" where
  "race_inv T c s \<longleftrightarrow> bp_config (fst s) = c
     \<and> bp_queueSize (fst s) + int (card (committed T (bc_MaxQueueSize c) (snd s))) \<le> bc_MaxQueueSize c + int T - 1"

lemma committed_read:
  assumes "i < T" "pcs i = None"
  shows "card (committed T m (pcs(i := Some v))) = (if v < m then Suc (card (committed T m pcs)) else card (committed T m pcs))"
    and "card (committed T m pcs) < T"
proof -
  have i: "i \<notin> committed T m pcs" using assms(2) by (simp add: committed_def)
  have "committed T m (pcs(i := Some v)) = (if v < m then insert i (committed T m pcs) else committed T m pcs)"
    using assms by (auto simp: committed_def)
  then show "card (committed T m (pcs(i := Some v))) = (if v < m then Suc (card (committed T m pcs)) else card (committed T m pcs))"
    using i by simp
  have "committed T m pcs \<subseteq> {..<T} - {i}" using i by (auto simp: committed_def)
  then have "card (committed T m pcs) \<le> card ({..<T} - {i})" by (rule card_mono [rotated]) simp
  then show "card (committed T m pcs) < T" using assms(1) by simp
qed

lemma committed_tail:
  assumes "i < T" "pcs i = Some v"
  shows "card (committed T m pcs) = (if v < m then Suc (card (committed T m (pcs(i := None)))) else card (committed T m (pcs(i := None))))"
proof -
  have "committed T m pcs = (if v < m then insert i (committed T m (pcs(i := None))) else committed T m (pcs(i := None)))"
    using assms by (auto simp: committed_def)
  moreover have "i \<notin> committed T m (pcs(i := None))" by (simp add: committed_def)
  ultimately show ?thesis by simp
qed

lemma race_inv_step:
  assumes "bp_step T s s'" "race_inv T c s" "bc_Strategy c \<in> {StrategyDrop, StrategyReject}"
  shows "race_inv T c s'"
  using assms
proof cases
  case (bp_read i pcs bp)
  then show ?thesis
    using committed_read(1) [of i T pcs "bc_MaxQueueSize c" "bp_queueSize bp"] committed_read(2) [of i T pcs "bc_MaxQueueSize c"]
      assms(2) by (auto simp: race_inv_def)
next
  case (bp_tail i pcs v bp)
  have c: "bp_config bp = c" using assms(2) bp_tail(1) by (simp add: race_inv_def)
  then have "bc_Strategy (bp_config bp) \<in> {StrategyDrop, StrategyReject}" using assms(3) by simp
  note t = acquireTail_bounded [OF this, of v]
  show ?thesis
    using t committed_tail [of i T pcs v "bc_MaxQueueSize c", OF bp_tail(3,4)] assms(2) c
    by (simp add: race_inv_def bp_tail(1,2) maxSize_def split: if_splits)
qed (auto simp: race_inv_def bp_Close_def)

text \<open>C36. The limit of the queue under concurrency. When \<open>T\<close> goroutines acquire and release in any interleaving of their
  reads and additions, the size of a queue that drops or rejects exceeds the maximum by at most \<open>T\<close> - 1.\<close>

theorem acquire_race_bound:
  assumes "bp_reachable T c s" "bc_Strategy c \<in> {StrategyDrop, StrategyReject}" "0 < T" "0 \<le> bc_MaxQueueSize c"
  shows "bp_queueSize (fst s) \<le> bc_MaxQueueSize c + int T - 1"
proof -
  have "race_inv T c s"
    using assms(1)
  proof induction
    case bp_init
    then show ?case using assms(3,4) by (simp add: race_inv_def NewBackpressureController_def committed_def)
  next
    case (bp_next s s')
    then show ?case using race_inv_step assms(2) by blast
  qed
  then show ?thesis by (simp add: race_inv_def)
qed

definition race_config :: BackpressureConfig where
  "race_config = DefaultBackpressureConfig\<lparr>bc_MaxQueueSize := 1, bc_Strategy := StrategyReject\<rparr>"

text \<open>The bound is reached: two goroutines both read an empty queue of size one.\<close>

lemma race_reached:
  "\<exists>pcs bp. bp_reachable 2 race_config (bp, pcs) \<and> bp_queueSize bp = 2"
proof -
  let ?b = "NewBackpressureController (Some race_config)"
  have q: "bp_queueSize ?b = 0" "\<not> bp_closed ?b" "bc_Strategy (bp_config ?b) \<in> {StrategyDrop, StrategyReject}" "maxSize ?b = 1"
    by (simp_all add: NewBackpressureController_def race_config_def maxSize_def)
  let ?p = "(\<lambda>_. None)(0 := Some 0, Suc 0 := Some 0)"
  have "bp_reachable 2 race_config (?b, (\<lambda>_. None)(0 := Some 0))"
    using bp_next [OF bp_init bp_read [of 0 2 "\<lambda>_. None" ?b]] q by simp
  then have 1: "bp_reachable 2 race_config (?b, ?p)"
    using bp_next [OF _ bp_read [of "Suc 0" 2 "(\<lambda>_. None)(0 := Some 0)" ?b]] q by simp
  let ?b1 = "snd (acquireTail 0 ?b)"
  have b1: "bp_queueSize ?b1 = 1" "bp_config ?b1 = bp_config ?b"
    using acquireTail_bounded [OF q(3), of 0] q by simp_all
  have 2: "bp_reachable 2 race_config (?b1, ?p(0 := None))"
    by (rule bp_next [OF 1 bp_tail]) simp_all
  have "bp_reachable 2 race_config (snd (acquireTail 0 ?b1), ?p(0 := None, Suc 0 := None))"
    by (rule bp_next [OF 2 bp_tail]) simp_all
  moreover have "bp_queueSize (snd (acquireTail 0 ?b1)) = 2"
    using acquireTail_bounded [of ?b1 0] b1 q by (simp add: maxSize_def)
  ultimately show ?thesis by blast
qed

theorem acquire_race_bound_witness:
  "\<exists>pcs bp. bp_reachable 2 race_config (bp, pcs) \<and> bp_queueSize bp = 2 \<and> bp_queueSize bp \<le> bc_MaxQueueSize race_config + 1"
proof -
  obtain bp pcs where r: "bp_reachable 2 race_config (bp, pcs)" "bp_queueSize bp = 2" using race_reached by blast
  have "bp_queueSize (fst (bp, pcs)) \<le> bc_MaxQueueSize race_config + int 2 - 1"
    by (rule acquire_race_bound [OF r(1)]) (simp_all add: race_config_def)
  then have "bp_queueSize bp \<le> bc_MaxQueueSize race_config + 1" by simp
  with r show ?thesis by blast
qed

section \<open>Accounting and signals\<close>

text \<open>With the strategy that drops the oldest item, every item that entered is in the queue, was taken out or was dropped.\<close>

lemma drop_oldest_conserved:
  assumes "bc_Strategy (bp_config bp) = StrategyDropOldest"
    and "bp_totalEnqueued bp = bp_queueSize bp + bp_totalDequeued bp + bp_totalDropped bp"
  shows "Acquire evs bp = Some (e, bp') \<Longrightarrow> bp_totalEnqueued bp' = bp_queueSize bp' + bp_totalDequeued bp' + bp_totalDropped bp'"
    and "bp_totalEnqueued (Release bp) = bp_queueSize (Release bp) + bp_totalDequeued (Release bp) + bp_totalDropped (Release bp)"
    and "bp_totalEnqueued (NotifyDropped bp) = bp_queueSize (NotifyDropped bp) + bp_totalDequeued (NotifyDropped bp)
      + bp_totalDropped (NotifyDropped bp)"
  using assms by (auto simp: Acquire_def acquireTail_def NotifyDropped_def split: if_splits)




section \<open>Media streams\<close>

inductive media_reachable :: "int \<Rightarrow> int \<Rightarrow> MediaBackpressure \<Rightarrow> bool" for p t where
  media_new: "media_reachable p t (NewMediaBackpressure p t)"
| media_allow: "media_reachable p t mb \<Longrightarrow> media_reachable p t (snd (AllowPacket i mb))"
| media_processed: "media_reachable p t mb \<Longrightarrow> media_reachable p t (PacketProcessed i mb)"
| media_remove: "media_reachable p t mb \<Longrightarrow> media_reachable p t (RemoveStream i mb)"

definition packet_sum :: "(string \<times> streamBackpressure) list \<Rightarrow> int" where
  "packet_sum ss = sum_list (map (st_packets \<circ> snd) ss)"

definition media_inv :: "int \<Rightarrow> int \<Rightarrow> MediaBackpressure \<Rightarrow> bool" where
  "media_inv p t mb \<longleftrightarrow> mb_maxPacketsPerStream mb = p \<and> mb_maxTotalPackets mb = t \<and> distinct (map fst (mb_streams mb))
     \<and> mb_totalPackets mb = packet_sum (mb_streams mb)"

lemma packet_sum_update:
  assumes "distinct (map fst ss)"
  shows "packet_sum (AList.update i sb ss) = packet_sum ss - (case map_of ss i of None \<Rightarrow> 0 | Some s \<Rightarrow> st_packets s) + st_packets sb"
  using assms by (induction ss) (auto simp: packet_sum_def split: option.splits)

lemma packet_sum_delete:
  assumes "distinct (map fst ss)" "map_of ss i = Some sb"
  shows "packet_sum (AList.delete i ss) = packet_sum ss - st_packets sb"
  using assms
proof (induction ss)
  case (Cons e ss)
  show ?case
  proof (cases "fst e = i")
    case True
    then have "i \<notin> fst ` set ss" using Cons.prems(1) by auto
    then have "AList.delete i ss = ss" by (simp add: delete_id)
    then show ?thesis using True Cons.prems by (cases e) (simp add: packet_sum_def)
  next
    case False
    then show ?thesis using Cons by (cases e) (auto simp: packet_sum_def)
  qed
qed simp

lemma streamOf_packets: "st_packets (streamOf i mb) = (case map_of (mb_streams mb) i of None \<Rightarrow> 0 | Some s \<Rightarrow> st_packets s)"
  by (simp add: streamOf_def split: option.splits)

lemma media_inv_steps:
  assumes "media_inv p t mb"
  shows "media_inv p t (snd (AllowPacket i mb))" "media_inv p t (PacketProcessed i mb)" "media_inv p t (RemoveStream i mb)"
proof -
  have d: "distinct (map fst (mb_streams mb))" using assms by (simp add: media_inv_def)
  note u = packet_sum_update [OF d] and del = packet_sum_delete [OF d]
  show "media_inv p t (snd (AllowPacket i mb))"
    using assms by (simp add: media_inv_def AllowPacket_def setStream_def Let_def u streamOf_packets distinct_update)
  show "media_inv p t (PacketProcessed i mb)"
    using assms by (simp add: media_inv_def PacketProcessed_def setStream_def Let_def u distinct_update split: option.split)
  show "media_inv p t (RemoveStream i mb)"
    using assms del by (auto simp: media_inv_def RemoveStream_def distinct_delete split: option.split)
qed

text \<open>The global count of media packets is in every state the sum of the counts of the streams, and a packet is let through only
  while that sum is below the total limit and the stream is within its own.\<close>

lemma media_count_is_sum:
  assumes "media_reachable p t mb"
  shows "mb_totalPackets mb = packet_sum (mb_streams mb)
    \<and> (fst (AllowPacket i mb) \<longleftrightarrow>
        packet_sum (mb_streams mb) < t \<and> \<not> st_throttled (streamOf i mb) \<and> st_packets (streamOf i mb) < p)"
proof -
  have "media_inv p t mb"
    using assms by induction (simp_all add: media_inv_steps, simp add: media_inv_def NewMediaBackpressure_def packet_sum_def)
  then show ?thesis
    by (auto simp: media_inv_def AllowPacket_def Let_def)
qed

text \<open>The packet that trips the limit of a stream is refused and yet counted, so nobody reports it as processed.\<close>

lemma refused_packet_counted:
  assumes "mb_totalPackets mb < mb_maxTotalPackets mb" "\<not> st_throttled (streamOf i mb)"
    and "st_packets (streamOf i mb) = mb_maxPacketsPerStream mb"
  shows "\<not> fst (AllowPacket i mb) \<and> mb_totalPackets (snd (AllowPacket i mb)) = mb_totalPackets mb + 1
    \<and> st_packets (streamOf i (snd (AllowPacket i mb))) = mb_maxPacketsPerStream mb + 1"
  using assms by (simp add: AllowPacket_def setStream_def streamOf_def Let_def update_conv')

section \<open>Scaling\<close>

text \<open>The scale stays between its bounds, and with usages of at most 100 percent never gets near the lower one.\<close>

lemma scale_bounds:
  assumes "ab_minScale ab \<le> ab_maxScale ab"
  shows "ab_minScale ab \<le> ab_scaleFactor (adjustScale ab)" "ab_scaleFactor (adjustScale ab) \<le> ab_maxScale ab"
  using assms by (auto simp: adjustScale_def pressureOf_def Let_def)

lemma scale_never_below_70:
  assumes "ab_cpuThreshold ab = 70" "ab_memoryThreshold ab = 80" "ab_minScale ab = 20" "ab_maxScale ab = 100"
    and "ab_cpuUsage ab \<le> 10000" "ab_memoryUsage ab \<le> 10000"
  shows "70 \<le> ab_scaleFactor (adjustScale ab)"
  using assms by (auto simp: adjustScale_def pressureOf_def Let_def)

end
