(* ===== verification/Input_Validator.thy ===== *)
theory Input_Validator
  imports Bencode
begin

text \<open>
  Validation of untrusted text, \<^verbatim>\<open>internal/input_validator.go\<close>: call identifiers, tags, session descriptions, codec names,
  sanitising, and the nesting check for bencode, which is compared with the decoder of \<open>Bencode\<close>.

  Of the standard library the model has the ranges over the runes of a string with UTF-8 decoding, \<^verbatim>\<open>strings.TrimSpace\<close>,
  \<^verbatim>\<open>strings.Split\<close> at line breaks and the character classes of the regular expressions. Whether \<^verbatim>\<open>net.ParseIP\<close> accepts an
  address is the parameter \<open>parseIP\<close>. The errors are constructors without their texts; the check of host and port, which
  reads the port with \<^verbatim>\<open>fmt.Sscanf\<close>, is left out.
\<close>

section \<open>UTF-8\<close>

abbreviation byte :: "char \<Rightarrow> nat" where
  "byte c \<equiv> of_char c"

definition cont :: "nat \<Rightarrow> nat \<Rightarrow> char \<Rightarrow> bool" where
  "cont lo hi c \<longleftrightarrow> lo \<le> byte c \<and> byte c \<le> hi"

text \<open>The width of the valid encoding a string begins with, or zero.\<close>

fun runeWidth :: "string \<Rightarrow> nat" where
  "runeWidth [] = 0"
| "runeWidth (a # s) =
     (let n = byte a in
      if n < 0x80 then 1
      else if 0xC2 \<le> n \<and> n \<le> 0xDF
      then (case s of b # _ \<Rightarrow> if cont 0x80 0xBF b then 2 else 0 | _ \<Rightarrow> 0)
      else if 0xE0 \<le> n \<and> n \<le> 0xEF
      then (case s of b # c # _ \<Rightarrow>
              if cont (if n = 0xE0 then 0xA0 else 0x80) (if n = 0xED then 0x9F else 0xBF) b \<and> cont 0x80 0xBF c then 3 else 0
            | _ \<Rightarrow> 0)
      else if 0xF0 \<le> n \<and> n \<le> 0xF4
      then (case s of b # c # d # _ \<Rightarrow>
              if cont (if n = 0xF0 then 0x90 else 0x80) (if n = 0xF4 then 0x8F else 0xBF) b \<and> cont 0x80 0xBF c \<and> cont 0x80 0xBF d
              then 4 else 0
            | _ \<Rightarrow> 0)
      else 0)"

text \<open>The range over a string: the encodings of its runes; a byte that begins none stands alone.\<close>

function runes :: "string \<Rightarrow> string list" where
  "runes s = (if s = [] then [] else let w = max 1 (runeWidth s) in take w s # runes (drop w s))"
  by pat_completeness auto
termination
  by (relation "measure length") (auto simp: Let_def max_def)

declare runes.simps [simp del]

definition validRune :: "string \<Rightarrow> bool" where
  "validRune r \<longleftrightarrow> runeWidth r = length r"

definition ValidString :: "string \<Rightarrow> bool" where
  "ValidString s \<longleftrightarrow> list_all validRune (runes s)"

text \<open>\<^verbatim>\<open>unicode.IsControl\<close>: U+0000 to U+001F and U+007F to U+009F; the second half of the range has the lead byte C2.\<close>

definition IsControl :: "string \<Rightarrow> bool" where
  "IsControl r = (case r of
       [a] \<Rightarrow> byte a \<le> 0x1F \<or> byte a = 0x7F
     | [a, b] \<Rightarrow> byte a = 0xC2 \<and> 0x80 \<le> byte b \<and> byte b \<le> 0x9F
     | _ \<Rightarrow> False)"

text \<open>\<^verbatim>\<open>WriteRune\<close>: a byte that is no rune was read as U+FFFD and is written as that.\<close>

definition WriteRune :: "string \<Rightarrow> string" where
  "WriteRune r = (if validRune r then r else [CHR 0xEF, CHR 0xBF, CHR 0xBD])"

section \<open>White space and lines\<close>

definition spaceRunes :: "string list" where
  "spaceRunes =
     [[CHR 0x09], [CHR 0x0A], [CHR 0x0B], [CHR 0x0C], [CHR 0x0D], [CHR 0x20], [CHR 0xC2, CHR 0x85], [CHR 0xC2, CHR 0xA0],
      [CHR 0xE1, CHR 0x9A, CHR 0x80], [CHR 0xE2, CHR 0x80, CHR 0x80], [CHR 0xE2, CHR 0x80, CHR 0x81],
      [CHR 0xE2, CHR 0x80, CHR 0x82], [CHR 0xE2, CHR 0x80, CHR 0x83], [CHR 0xE2, CHR 0x80, CHR 0x84],
      [CHR 0xE2, CHR 0x80, CHR 0x85], [CHR 0xE2, CHR 0x80, CHR 0x86], [CHR 0xE2, CHR 0x80, CHR 0x87],
      [CHR 0xE2, CHR 0x80, CHR 0x88], [CHR 0xE2, CHR 0x80, CHR 0x89], [CHR 0xE2, CHR 0x80, CHR 0x8A],
      [CHR 0xE2, CHR 0x80, CHR 0xA8], [CHR 0xE2, CHR 0x80, CHR 0xA9], [CHR 0xE2, CHR 0x80, CHR 0xAF],
      [CHR 0xE2, CHR 0x81, CHR 0x9F], [CHR 0xE3, CHR 0x80, CHR 0x80]]"

function trimLeading :: "string list \<Rightarrow> string \<Rightarrow> string" where
  "trimLeading es s =
     (case find (\<lambda>e. e \<noteq> [] \<and> take (length e) s = e) es of None \<Rightarrow> s | Some e \<Rightarrow> trimLeading es (drop (length e) s))"
  by pat_completeness auto
termination
proof (relation "measure (\<lambda>(es, s). length s)")
  fix es s e
  assume "find (\<lambda>e. e \<noteq> [] \<and> take (length e) s = e) es = Some e"
  then have "e \<noteq> []" "take (length e) s = e" by (auto simp: find_Some_iff)
  then have "0 < length e" "s \<noteq> []" by auto
  then show "((es, drop (length e) s), (es, s)) \<in> measure (\<lambda>(es, s). length s)" by simp
qed simp

declare trimLeading.simps [simp del]

definition TrimSpace :: "string \<Rightarrow> string" where
  "TrimSpace s = rev (trimLeading (map rev spaceRunes) (rev (trimLeading spaceRunes s)))"

fun splitLines :: "string \<Rightarrow> string list" where
  "splitLines [] = [[]]"
| "splitLines (c # s) =
     (if c = CHR 0x0A then [] # splitLines s else (case splitLines s of l # ls \<Rightarrow> (c # l) # ls | [] \<Rightarrow> [[c]]))"

section \<open>The validator\<close>

datatype input_error =
    ErrInputTooLong | ErrInvalidFormat | ErrInvalidIPAddress | ErrInvalidPort | ErrInvalidCallID | ErrInvalidSDP
  | ErrControlCharacters | ErrNullBytes | ErrInvalidUTF8 | ErrLine | ErrMediaSections | ErrCandidates | ErrDepth

record InputValidator =
  iv_maxCallIDLength :: int
  iv_maxSDPLength :: int
  iv_maxTagLength :: int
  iv_maxAddressLength :: int

definition DefaultInputValidatorConfig :: InputValidator where
  "DefaultInputValidatorConfig =
     \<lparr>iv_maxCallIDLength = 256, iv_maxSDPLength = 65536, iv_maxTagLength = 128, iv_maxAddressLength = 256\<rparr>"

definition NewInputValidator :: "InputValidator option \<Rightarrow> InputValidator" where
  "NewInputValidator config = (case config of None \<Rightarrow> DefaultInputValidatorConfig | Some c \<Rightarrow> c)"

definition alnum :: "char \<Rightarrow> bool" where
  "alnum c \<longleftrightarrow> cont 97 122 c \<or> cont 65 90 c \<or> cont 48 57 c"

definition callIDChar :: "char \<Rightarrow> bool" where
  "callIDChar c \<longleftrightarrow> alnum c \<or> c \<in> set ''._~:/?#[]@!$&()*+,;=-'' \<or> c = CHR 0x27"

definition tagChar :: "char \<Rightarrow> bool" where
  "tagChar c \<longleftrightarrow> alnum c \<or> c \<in> set ''._~-''"

definition sdpChar :: "char \<Rightarrow> bool" where
  "sdpChar c \<longleftrightarrow> cont 0x20 0x7E c \<or> c = CHR 0x0D \<or> c = CHR 0x0A \<or> c = CHR 0x09"

definition plainSpace :: "string \<Rightarrow> bool" where
  "plainSpace r \<longleftrightarrow> r = [CHR 0x0A] \<or> r = [CHR 0x0D] \<or> r = [CHR 0x09]"

definition checkBasicSafety :: "string \<Rightarrow> input_error option" where
  "checkBasicSafety s =
     (if \<not> ValidString s then Some ErrInvalidUTF8
      else if CHR 0x00 \<in> set s then Some ErrNullBytes
      else if list_ex (\<lambda>r. IsControl r \<and> \<not> plainSpace r) (runes s) then Some ErrControlCharacters
      else None)"

definition ValidateCallID :: "string \<Rightarrow> InputValidator \<Rightarrow> input_error option" where
  "ValidateCallID callID v =
     (if callID = [] then Some ErrInvalidCallID
      else if int (length callID) > iv_maxCallIDLength v then Some ErrInputTooLong
      else if checkBasicSafety callID \<noteq> None then Some ErrInvalidCallID
      else if \<not> list_all callIDChar callID then Some ErrInvalidCallID
      else None)"

definition ValidateTag :: "string \<Rightarrow> InputValidator \<Rightarrow> input_error option" where
  "ValidateTag tag v =
     (if tag = [] then None
      else if int (length tag) > iv_maxTagLength v then Some ErrInputTooLong
      else case checkBasicSafety tag of
        Some e \<Rightarrow> Some e
      | None \<Rightarrow> if \<not> list_all tagChar tag then Some ErrInvalidFormat else None)"

definition hasField :: "char \<Rightarrow> string list \<Rightarrow> bool" where
  "hasField c lines = list_ex (\<lambda>l. let line = TrimSpace l in length line \<ge> 2 \<and> line ! 1 = CHR ''='' \<and> line ! 0 = c) lines"

definition ValidateSDP :: "string \<Rightarrow> InputValidator \<Rightarrow> input_error option" where
  "ValidateSDP sdp v =
     (if sdp = [] then None
      else if int (length sdp) > iv_maxSDPLength v then Some ErrInputTooLong
      else if checkBasicSafety sdp \<noteq> None then Some ErrInvalidSDP
      else if \<not> list_all sdpChar sdp then Some ErrInvalidSDP
      else let lines = splitLines sdp in
        if \<not> hasField (CHR ''v'') lines \<or> \<not> hasField (CHR ''o'') lines \<or> \<not> hasField (CHR ''s'') lines then Some ErrInvalidSDP
        else None)"

definition ValidateIPAddress :: "(string \<Rightarrow> bool) \<Rightarrow> string \<Rightarrow> InputValidator \<Rightarrow> input_error option" where
  "ValidateIPAddress parseIP addr v =
     (if addr = [] then Some ErrInvalidIPAddress
      else if int (length addr) > iv_maxAddressLength v then Some ErrInputTooLong
      else if \<not> parseIP addr then Some ErrInvalidIPAddress else None)"

definition ValidatePort :: "int \<Rightarrow> input_error option" where
  "ValidatePort port = (if port < 1 \<or> port > 65535 then Some ErrInvalidPort else None)"

definition ValidateCodec :: "string \<Rightarrow> input_error option" where
  "ValidateCodec codec =
     (case codec of
        [] \<Rightarrow> None
      | c # cs \<Rightarrow>
          if length codec > 64 then Some ErrInputTooLong
          else if (cont 97 122 c \<or> cont 65 90 c) \<and> list_all (\<lambda>x. alnum x \<or> x \<in> set ''/_.-'') cs then None
          else Some ErrInvalidFormat)"

text \<open>A negative length panics in the slice expression.\<close>

definition SanitizeString :: "string \<Rightarrow> int \<Rightarrow> string option" where
  "SanitizeString s maxLen =
     (if int (length s) > maxLen \<and> maxLen < 0 then None
      else let s1 = (if int (length s) > maxLen then take (nat maxLen) s else s);
               s2 = filter (\<lambda>c. c \<noteq> CHR 0x00) s1
           in Some (concat (map WriteRune (filter (\<lambda>r. \<not> IsControl r \<or> plainSpace r) (runes s2)))))"

definition sanitizedChar :: "string \<Rightarrow> bool" where
  "sanitizedChar r = (case r of [c] \<Rightarrow> alnum c \<or> c \<in> set ''._-@'' | _ \<Rightarrow> False)"

definition SanitizeCallID :: "string \<Rightarrow> InputValidator \<Rightarrow> string option" where
  "SanitizeCallID callID v =
     (let s = concat (map WriteRune (filter sanitizedChar (runes callID))) in
      if int (length s) > iv_maxCallIDLength v
      then if iv_maxCallIDLength v < 0 then None else Some (take (nat (iv_maxCallIDLength v)) s)
      else Some s)"

section \<open>Requests\<close>

record NGRequestValidation =
  nr_CallID :: string
  nr_FromTag :: string
  nr_ToTag :: string
  nr_SDP :: string
  nr_Command :: string
  nr_Interface :: string
  nr_Address :: string

text \<open>The errors with the field each belongs to.\<close>

definition field_error :: "string \<Rightarrow> string \<Rightarrow> (string \<Rightarrow> input_error option) \<Rightarrow> (string \<times> input_error) list" where
  "field_error name text check =
     (if text = [] then [] else case check text of None \<Rightarrow> [] | Some e \<Rightarrow> [(name, e)])"

definition ValidateNGRequest :: "(string \<Rightarrow> bool) \<Rightarrow> NGRequestValidation \<Rightarrow> (string \<times> input_error) list" where
  "ValidateNGRequest parseIP req =
     (let v = NewInputValidator None in
      field_error ''call-id'' (nr_CallID req) (\<lambda>s. ValidateCallID s v) @
      field_error ''from-tag'' (nr_FromTag req) (\<lambda>s. ValidateTag s v) @
      field_error ''to-tag'' (nr_ToTag req) (\<lambda>s. ValidateTag s v) @
      field_error ''sdp'' (nr_SDP req) (\<lambda>s. ValidateSDP s v) @
      field_error ''address'' (nr_Address req) (\<lambda>s. ValidateIPAddress parseIP s v))"

record SDPValidator =
  sv_maxMediaSections :: int
  sv_maxAttributeLength :: int
  sv_maxCandidates :: int

definition NewSDPValidator :: SDPValidator where
  "NewSDPValidator = \<lparr>sv_maxMediaSections = 50, sv_maxAttributeLength = 4096, sv_maxCandidates = 100\<rparr>"

fun checkLines :: "SDPValidator \<Rightarrow> int \<Rightarrow> int \<Rightarrow> string list \<Rightarrow> input_error option" where
  "checkLines v mediaSections candidates [] = None"
| "checkLines v mediaSections candidates (l # ls) =
     (let line = TrimSpace l in
      if line = [] then checkLines v mediaSections candidates ls
      else if int (length line) > sv_maxAttributeLength v then Some ErrLine
      else
        let m = (if take 2 line = ''m='' then mediaSections + 1 else mediaSections) in
        if take 2 line = ''m='' \<and> m > sv_maxMediaSections v then Some ErrMediaSections
        else
          let c = (if take 12 line = ''a=candidate:'' then candidates + 1 else candidates) in
          if take 12 line = ''a=candidate:'' \<and> c > sv_maxCandidates v then Some ErrCandidates
          else checkLines v m c ls)"

definition SDPValidator_ValidateSDP :: "string \<Rightarrow> SDPValidator \<Rightarrow> input_error option" where
  "SDPValidator_ValidateSDP sdp v = (if sdp = [] then None else checkLines v 0 0 (splitLines sdp))"

section \<open>Nesting\<close>

record BencodeValidator =
  bv_maxDepth :: int
  bv_maxStringLen :: int
  bv_maxListLen :: int
  bv_maxDictKeys :: int

definition NewBencodeValidator :: BencodeValidator where
  "NewBencodeValidator = \<lparr>bv_maxDepth = 20, bv_maxStringLen = 1024 * 1024, bv_maxListLen = 1000, bv_maxDictKeys = 500\<rparr>"

fun depthLoop :: "int \<Rightarrow> int \<Rightarrow> string \<Rightarrow> input_error option" where
  "depthLoop maxDepth depth [] = None"
| "depthLoop maxDepth depth (b # data) =
     (if b = CHR ''l'' \<or> b = CHR ''d''
      then if depth + 1 > maxDepth then Some ErrDepth else depthLoop maxDepth (depth + 1) data
      else if b = CHR ''e'' then depthLoop maxDepth (depth - 1) data
      else depthLoop maxDepth depth data)"

definition ValidateBencodeDepth :: "string \<Rightarrow> BencodeValidator \<Rightarrow> input_error option" where
  "ValidateBencodeDepth data v = depthLoop (bv_maxDepth v) 0 data"

section \<open>What is accepted\<close>

lemma runes_Nil [simp]: "runes [] = []"
  by (simp add: runes.simps)

lemma runes_ascii: "byte c < 0x80 \<Longrightarrow> runes (c # s) = [c] # runes s"
  by (subst runes.simps) (simp add: Let_def)

lemma runes_all_ascii: "list_all (\<lambda>c. byte c < 0x80) s \<Longrightarrow> runes s = map (\<lambda>c. [c]) s"
  by (induction s) (simp_all add: runes_ascii)

definition graphic :: "char \<Rightarrow> bool" where
  "graphic c \<longleftrightarrow> cont 0x20 0x7E c"

lemma graphic_safe:
  assumes "list_all graphic s"
  shows "checkBasicSafety s = None"
proof -
  have ascii: "list_all (\<lambda>c. byte c < 0x80) s"
    using assms by (induction s) (auto simp: graphic_def cont_def)
  have "ValidString s"
    using ascii unfolding ValidString_def runes_all_ascii [OF ascii] by (induction s) (simp_all add: validRune_def)
  moreover have "CHR 0x00 \<notin> set s"
    using assms by (induction s) (auto simp: graphic_def cont_def)
  moreover have "\<not> list_ex (\<lambda>r. IsControl r \<and> \<not> plainSpace r) (runes s)"
    using assms unfolding runes_all_ascii [OF ascii] by (induction s) (auto simp: graphic_def cont_def IsControl_def)
  ultimately show ?thesis
    by (simp add: checkBasicSafety_def)
qed

lemma callIDChar_graphic: "callIDChar c \<Longrightarrow> graphic c"
  by (auto simp: callIDChar_def alnum_def graphic_def cont_def)

lemma ValidateCallID_iff:
  "ValidateCallID s v = None \<longleftrightarrow> s \<noteq> [] \<and> int (length s) \<le> iv_maxCallIDLength v \<and> list_all callIDChar s"
proof -
  have "checkBasicSafety s = None" if "list_all callIDChar s"
    using that by (intro graphic_safe) (auto simp: list_all_iff callIDChar_graphic)
  then show ?thesis
    by (auto simp: ValidateCallID_def)
qed

lemma sanitizedChar_ascii: "sanitizedChar r \<Longrightarrow> \<exists>c. r = [c] \<and> byte c < 0x80 \<and> callIDChar c"
  by (auto simp: sanitizedChar_def callIDChar_def alnum_def cont_def split: list.splits)

lemma sanitized_text:
  assumes "list_all sanitizedChar rs"
  shows "concat (map WriteRune rs) = concat rs \<and> list_all callIDChar (concat rs) \<and> list_all (\<lambda>c. sanitizedChar [c]) (concat rs)"
  using assms
proof (induction rs)
  case (Cons r rs)
  then obtain c where "r = [c]" "byte c < 0x80" "callIDChar c" "sanitizedChar [c]" using sanitizedChar_ascii by fastforce
  then show ?case using Cons by (simp add: WriteRune_def validRune_def)
qed simp

lemma list_all_take: "list_all P xs \<Longrightarrow> list_all P (take n xs)"
  by (auto simp: list_all_iff dest: in_set_takeD)

lemma SanitizeCallID_shape:
  assumes "SanitizeCallID s v = Some r"
  shows "list_all callIDChar r" "list_all (\<lambda>c. sanitizedChar [c]) r" "int (length r) \<le> iv_maxCallIDLength v"
proof -
  have t: "list_all sanitizedChar (filter sanitizedChar (runes s))" by (simp add: list_all_iff)
  show "list_all callIDChar r" "list_all (\<lambda>c. sanitizedChar [c]) r"
    using assms sanitized_text [OF t] by (auto simp: SanitizeCallID_def Let_def list_all_take split: if_splits)
  show "int (length r) \<le> iv_maxCallIDLength v"
    using assms by (auto simp: SanitizeCallID_def Let_def split: if_splits)
qed

text \<open>C40. Sanitising a call identifier gives nothing or a valid call identifier, and sanitising that again changes nothing, whatever the
  bytes were, UTF-8 or not.\<close>

theorem sanitized_call_id_valid:
  assumes "SanitizeCallID s v = Some r" "r \<noteq> []"
  shows "ValidateCallID r v = None \<and> SanitizeCallID r v = Some r"
proof -
  note r = SanitizeCallID_shape [OF assms(1)]
  have "list_all (\<lambda>c. byte c < 0x80) r"
    using r(2) by (induction r) (auto dest: sanitizedChar_ascii)
  then have runes: "runes r = map (\<lambda>c. [c]) r" by (rule runes_all_ascii)
  have "filter sanitizedChar (runes r) = runes r"
    using r(2) unfolding runes by (auto simp: list_all_iff filter_id_conv)
  moreover have "concat (map WriteRune (runes r)) = r"
    using sanitized_text [of "runes r"] r(2) unfolding runes by (simp add: list_all_iff concat_map_singleton)
  ultimately have "SanitizeCallID r v = Some r"
    using r(3) by (simp add: SanitizeCallID_def)
  then show ?thesis
    using r assms(2) by (simp add: ValidateCallID_iff)
qed

theorem sanitized_call_id_valid_witness:
  "\<exists>r. SanitizeCallID ''a b'' (NewInputValidator None) = Some r \<and> ValidateCallID r (NewInputValidator None) = None"
proof -
  have "SanitizeCallID ''a b'' (NewInputValidator None) = Some ''ab''"
    by (simp add: SanitizeCallID_def NewInputValidator_def DefaultInputValidatorConfig_def runes_ascii sanitizedChar_def alnum_def
        cont_def WriteRune_def validRune_def)
  then show ?thesis
    using sanitized_call_id_valid [of "''a b''" "NewInputValidator None" "''ab''"] by simp
qed

text \<open>The bound of \<^verbatim>\<open>SanitizeString\<close> does not hold: a character that the cut splits is written as three bytes.\<close>

lemma sanitized_string_too_long:
  "\<exists>r. SanitizeString [CHR 0xC3, CHR 0xA9] 1 = Some r \<and> int (length r) = 3"
  by (simp add: SanitizeString_def Let_def runes.simps [of "[CHR 0xC3]"] IsControl_def WriteRune_def validRune_def)

section \<open>Nesting the check does not see\<close>

primrec list_depth :: "nat \<Rightarrow> 'f go_value" where
  "list_depth 0 = GBencodeList []"
| "list_depth (Suc n) = GBencodeList [GString ''e'', list_depth n]"

primrec nested_text :: "nat \<Rightarrow> string" where
  "nested_text 0 = ''le''"
| "nested_text (Suc n) = ''l1:e'' @ nested_text n @ ''e''"

lemma depthLoop_closing: "depthLoop m d (replicate n (CHR ''e'')) = None"
  by (induction n arbitrary: d) simp_all

lemma nested_text_flat: "nested_text n = concat (replicate n ''l1:e'') @ ''le'' @ replicate n (CHR ''e'')"
  by (induction n) (simp_all add: replicate_append_same)

lemma nested_text_passes:
  assumes "1 \<le> m"
  shows "depthLoop m 0 (nested_text n) = None"
proof -
  have "depthLoop m 0 (concat (replicate n ''l1:e'') @ rest) = depthLoop m 0 rest" for rest
    using assms by (induction n) simp_all
  then show ?thesis
    using assms by (simp add: nested_text_flat depthLoop_closing)
qed

lemma nested_text_length: "length (nested_text n) = 5 * n + 2"
  by (induction n) simp_all

lemma show_one: "show_nat (Suc 0) = ''1''"
  by (simp add: show_nat.simps digit_char_def) (simp add: char_of_def bit_iff_odd)

lemma list_depth_codec:
  "wf_value (list_depth n :: 'f go_value)" "decoded fmt (list_depth n :: 'f go_value) = list_depth n"
  "encode fmt buf (list_depth n :: 'f go_value) = Inr (buf @ nested_text n)"
proof (induction n arbitrary: buf)
  case 0
  { case 1 show ?case by simp }
  { case 2 show ?case by simp }
  { case 3 show ?case by simp }
next
  case (Suc n)
  { case 1 show ?case using Suc.IH(1) by simp }
  { case 2 show ?case using Suc.IH(2) by simp }
  { case 3 show ?case using Suc.IH(3) by (simp add: encodeString_def encodeBytes_def show_one) }
qed

text \<open>C39. The nesting check can be evaded. Unless its limit is below one, for every depth for which the length of the message fits an int there is a message that passes \<^verbatim>\<open>ValidateBencodeDepth\<close> and that the decoder
  reads as lists nested to that depth: the check counts the letter \<open>e\<close> inside strings as the end of a list.\<close>

theorem depth_check_bypassed:
  assumes "1 \<le> bv_maxDepth v" "int (5 * n + 2) < 2 ^ 63"
  shows "ValidateBencodeDepth (nested_text n) v = None \<and> DecodeBencode (nested_text n) = Inr (list_depth n :: 'f go_value)"
proof
  show "ValidateBencodeDepth (nested_text n) v = None"
    using nested_text_passes [OF assms(1)] by (simp add: ValidateBencodeDepth_def)
  have "EncodeBencode (\<lambda>_ _. []) (list_depth n :: 'f go_value) = Inr (nested_text n)"
    by (simp add: EncodeBencode_def Encode_def list_depth_codec(3))
  from bencode.dec_enc [OF list_depth_codec(1) this, of "[]"]
  show "DecodeBencode (nested_text n) = Inr (list_depth n :: 'f go_value)"
    using assms(2) by (simp add: nested_text_length list_depth_codec(2))
qed

theorem depth_check_bypassed_witness:
  "ValidateBencodeDepth (nested_text 1000) NewBencodeValidator = None
     \<and> DecodeBencode (nested_text 1000) = Inr (list_depth 1000 :: unit go_value)"
  by (rule depth_check_bypassed) (simp_all add: NewBencodeValidator_def)

text \<open>The other way round a flat message is refused because of the letters in one of its strings.\<close>

lemma flat_message_refused:
  "ValidateBencodeDepth (''21:'' @ replicate 21 (CHR ''d'')) NewBencodeValidator = Some ErrDepth"
  by (simp add: ValidateBencodeDepth_def NewBencodeValidator_def numeral_eq_Suc)

end
