(* ===== verification/Spec2Isabelle.thy ===== *)
theory Spec2Isabelle
  imports NG_Listener Leg_State Circuit_Breaker Hash_Ring Rate_Limiter Auth_Rate_Limiter DoS_Protection Loop_Protection Audio Split_Brain RTCP Authorization Backpressure Input_Validator
begin

text \<open>
  Karl is a media server written in Go. A SIP proxy sends it commands of the NG protocol as UDP
  datagrams; Karl keeps a session for each call, allocates media ports, answers with a rewritten
  session description, and relays RTP with jitter buffering and forward error correction. This
  library models the parts of Karl that decide something, as HOL functions, and proves what
  they guarantee. The sources are under \<^verbatim>\<open>src/\<close>.

  \<^bold>\<open>How a request flows.\<close> A datagram reaches \<^verbatim>\<open>processMessage\<close> (\<open>NG_Listener\<close>), which parses it
  (\<open>NG_Message\<close>, on the codec of \<open>Bencode\<close>), dispatches to a command handler, and answers. The handlers
  read the flags (\<open>NG_Flags\<close>) and the session description (\<open>SDP\<close>) of the request, create or find the session
  (\<open>Session_Registry\<close>), allocate ports (\<open>Port_Allocator\<close>) and build the description of the reply. A media
  leg of the registry carries a jitter buffer and a parity handler (\<open>Jitter_Buffer\<close>, \<open>FEC\<close>). The negotiation
  state machine (\<open>Leg_State\<close>), the circuit breaker (\<open>Circuit_Breaker\<close>) and the distribution of sessions over
  nodes (\<open>Hash_Ring\<close>) are components of their own in the source as well, and so are the request limiters
  (\<open>Rate_Limiter\<close>, \<open>Auth_Rate_Limiter\<close>, \<open>DoS_Protection\<close>), the media loop checks (\<open>Loop_Protection\<close>), the audio
  routines (\<open>Audio\<close>), the RTCP sessions (\<open>RTCP\<close>), the split-brain detector of the cluster (\<open>Split_Brain\<close>), access control (\<open>Authentication\<close>,
  \<open>Authorization\<close>), the queue limits (\<open>Backpressure\<close>) and the checks of untrusted text (\<open>Input_Validator\<close>).

  \<^bold>\<open>Theories and sources.\<close>

  \<^item> \<open>Karl_Prelude\<close>, \<open>Go_Float\<close>, \<open>Go_Heap\<close>, \<open>Sharded_Map\<close>: what the source uses of Go and its standard library
    (64-bit integers, \<^verbatim>\<open>strconv\<close>, \<^verbatim>\<open>encoding/binary\<close>, \<^verbatim>\<open>float64\<close> with rounding, \<^verbatim>\<open>container/heap\<close>) and the
    sharded maps of the port allocator.
  \<^item> \<open>Bencode\<close>: \<^verbatim>\<open>internal/ng_protocol/bencode.go\<close>. Encoder, decoder and accessors, error by error. What
    the encoder emits is decoded to the normal form of the value, the encoder emits a reference
    serialisation, a decode stays inside its data, and the one panic of the decoder is characterised.
  \<^item> \<open>NG_Message\<close>, \<open>NG_Flags\<close>: \<^verbatim>\<open>message.go\<close> and \<^verbatim>\<open>types.go\<close> of the same package. Requests and replies are read
    back field by field, the accepted datagrams are characterised, and each flag sets its own option.
  \<^item> \<open>SDP\<close>, \<open>NG_Listener\<close>: \<^verbatim>\<open>internal/ng_socket_listener.go\<close>. Every datagram that parses is answered, with the
    cookie of its request, in every state; reachable states are those of an inductive step relation over
    \<^verbatim>\<open>processMessage\<close>. What an answer with a to-tag and a delete really do is proved over these states. The
    description Karl writes parses back to the media and codecs it was built from.
  \<^item> \<open>Session_Registry\<close>: \<^verbatim>\<open>internal/session_manager.go\<close>. Legs live in a store because the registry reaches
    one leg through several pointers. In reachable registries every index finds exactly the live sessions;
    cleanup removes exactly the stale ones; stopping releases every socket.
  \<^item> \<open>Port_Allocator\<close>: \<^verbatim>\<open>internal/port_allocator.go\<close>. Port ownership is exclusive in every state reached by pair
    and connection allocations, the pair search is complete, releasing a session is complete, and the
    single-port operation is shown to break exclusiveness.
  \<^item> \<open>Jitter_Buffer\<close>: \<^verbatim>\<open>internal/jitter_buffer.go\<close>. The heap, the packet map and the counter refine an ordered
    queue; capacity and delay bounds hold; overdue packets are played; the timed pop returns.
  \<^item> \<open>FEC\<close>: \<^verbatim>\<open>internal/fec_handler.go\<close>. One lost packet of a block is recovered exactly; parsing parity packets
    does not panic; the panic and the eviction faults of the receiver are characterised.
  \<^item> \<open>Leg_State\<close>: \<^verbatim>\<open>internal/leg_state_machine.go\<close>. Negotiation refines an abstract offer/answer automaton.
  \<^item> \<open>Circuit_Breaker\<close>: \<^verbatim>\<open>internal/circuit_breaker.go\<close>. The invariant of the three states, and the configuration
    under which a half-open breaker never closes.
  \<^item> \<open>Hash_Ring\<close>: \<^verbatim>\<open>internal/consistent_hash.go\<close>. Binary search equals the successor on the ring, and
    membership changes move only the keys they must.
  \<^item> \<open>Token_Bucket\<close>, \<open>Go_Net\<close>: the token buckets of \<^verbatim>\<open>internal/rate_limiter.go\<close> and \<^verbatim>\<open>internal/dos_protection.go\<close>, with
    rounding, and what the limiters use of the package \<^verbatim>\<open>net\<close>.
  \<^item> \<open>Rate_Limiter\<close>: \<^verbatim>\<open>internal/rate_limiter.go\<close>. What one address gets through is bounded by burst and rate.
  \<^item> \<open>Auth_Rate_Limiter\<close>: \<^verbatim>\<open>internal/auth/ratelimit.go\<close>. The sliding window grants exactly what its window allows; the
    bucket refills a billion times too slowly.
  \<^item> \<open>DoS_Protection\<close>: \<^verbatim>\<open>internal/dos_protection.go\<close>. Connections are counted exactly and bounded; oversized requests
    get even a whitelisted client banned.
  \<^item> \<open>Loop_Protection\<close>: \<^verbatim>\<open>internal/loop_protection.go\<close>. Loops are reported from the second copy on; a reset session
    never latches again.
  \<^item> \<open>Audio\<close>: \<^verbatim>\<open>internal/recording/mixer.go\<close> and the G.711 part of \<^verbatim>\<open>internal/codec_converter.go\<close>. The 16-bit mix is the
    truncated average; the faults of the mu-law encoder are shown.
  \<^item> \<open>Split_Brain\<close>: \<^verbatim>\<open>internal/split_brain.go\<close>. A node that is cut off is fenced in time, disjoint sides do not both have
    quorum, fencing and reported state agree; a node that relapses while it recovers is not fenced.
  \<^item> \<open>RTCP\<close>: \<^verbatim>\<open>internal/rtcp_handler.go\<close>. Loss is counted exactly until the sequence numbers wrap, and hidden after
    that; NTP time survives a round trip up to a nanosecond.
  \<^item> \<open>Authentication\<close>, \<open>Authorization\<close>: \<^verbatim>\<open>internal/authentication.go\<close> and \<^verbatim>\<open>internal/authorization.go\<close>. Whoever is let in has shown
    known credentials, and the decision is the one a specification over policies and inherited roles gives; below, both are
    put together. The cache of inherited permissions goes stale, cyclic roles overflow the stack, and an emptied allow list
    lets everybody in.
  \<^item> \<open>Backpressure\<close>: \<^verbatim>\<open>internal/backpressure.go\<close>. Goroutines interleave at the reads and writes of the atomic counters; the
    excess over the queue limit is bounded by their number, and a wake-up can be lost.
  \<^item> \<open>Input_Validator\<close>: \<^verbatim>\<open>internal/input_validator.go\<close>, with UTF-8. Sanitised call identifiers are valid; the nesting check is
    shown, against the decoder of \<open>Bencode\<close>, to let any depth through.

  \<^bold>\<open>Correspondence.\<close> A Go struct is a record, an enumeration a datatype, a method a function with the
  name of the method that takes the state and returns it updated. Errors are values, run-time panics
  \<open>None\<close> or an error constructor of their own. \<^verbatim>\<open>time.Now\<close> is an argument. What the code draws from outside the
  repository (whether a port can be bound, SHA-256, fresh identifiers, number formatting) is an argument
  too, and so is the order in which Go visits a map, so a theorem holds for every such order. An exported
  operation holds its lock from start to end and is one step; where the code has no lock, as in \<open>Backpressure\<close>, its parts
  are steps of their own.

  \<^bold>\<open>Interfaces.\<close> Locales state the contracts between components, and each is interpreted on the model:
  \<open>wire_codec\<close> (by the bencode codec), \<open>bool_option\<close> (by five flags), \<open>offer_answer_op\<close> (by the four negotiation
  steps), \<open>sharding\<close> (by the port and session shards), \<open>heap_interface\<close> (by the packet heap), and \<open>token_bucket\<close> (by
  the buckets of the three limiters).

  \<^bold>\<open>Termination and bounds.\<close> One definition takes a bound, \<open>resolvePermissions\<close>: its recursion over inherited roles does not
  end on a cycle, and the bound is the room on the stack. Roles that can be ranked along their inheritance are resolved
  with any bound above the rank. Other loops and recursive descents are recursive functions
  with a termination proof (the decoder, for one, consumes its data), so every call returns; the one loop
  that waits for the clock, \<^verbatim>\<open>PopWithTimeout\<close>, is a partial function over the stream of clock readings, and it is
  proved to return once a reading has passed the deadline. Unsigned fields are words of their width;
  \<^verbatim>\<open>int\<close> is \<open>int\<close>, with \<open>wrap64\<close> where the code can overflow. \<open>fl\<close> has a 53-bit significand and an unbounded
  exponent.

  \<^bold>\<open>Not modelled.\<close> Sockets, files, HTTP, Redis, SQL and the pion packages, since their behaviour is not in
  the repository; goroutine scheduling inside an operation; metrics, logs and statistics maps; the
  speech codecs, the pseudo-Opus coder and the tone detectors, which are numerical signal processing; the
  limiter of the API with a period of zero, which divides by zero in floating point. The command objects of
  \<^verbatim>\<open>internal/ng_protocol/commands\<close> are not run by the server, which registers the handlers of the listener
  itself; they are not modelled.
  Other parts hold logic in memory that could be modelled in the same way and is not covered: the range checks of
  \<^verbatim>\<open>config_validator.go\<close>, the batching of \<^verbatim>\<open>batch_rtcp.go\<close>, the port table of \<^verbatim>\<open>port_reallocation.go\<close>, the node table of
  \<^verbatim>\<open>cluster_manager.go\<close>, the drain states of \<^verbatim>\<open>graceful_shutdown.go\<close>, the alerts of \<^verbatim>\<open>quality_alerting.go\<close>, the packet parser of
  \<^verbatim>\<open>worker_pool.go\<close> and the framing of the speech codecs. Of \<^verbatim>\<open>input_validator.go\<close> the check of host and port is left out.
\<close>

section \<open>From request to decision\<close>










end
